(* ===== verification/Prelude.thy ===== *)
theory Prelude
  imports
    Complex_Main
    "HOL-Library.Word"
    "HOL-Library.Multiset"
    "HOL-Library.List_Lexorder"
    "HOL-Library.Char_ord"
begin

text \<open>
  Shared vocabulary of the model of \<^verbatim>\<open>src/source/generate_figures.py\<close>:
  the Python exceptions the script can raise (as one datatype), paths as lists of
  components, and an exception-state program type \<open>('s, 'a) prog\<close> that threads the
  file system through the script's statements: a statement returns \<open>Inl\<close> of the
  exception it raises or \<open>Inr\<close> of its value, together with the state it leaves
  behind, so that the effects of the statements before an exception are kept, as in
  the running script. Strings are ordered as Python orders \<open>str\<close> (lexicographically
  by character, \<open>List_Lexorder\<close> with \<open>Char_ord\<close>).
\<close>

section \<open>Paths and exceptions\<close>

text \<open>
  A path is the list of its components, \<^verbatim>\<open>out/figs\<close> being \<open>[''out'', ''figs'']\<close>;
  \<open>[]\<close> is the current directory.
\<close>

type_synonym path = "string list"

text \<open>The exceptions of Python, pandas and click that the script can end with.\<close>

datatype py_error =
    FileNotFoundError path
  | FileExistsError path
  | NotADirectoryError path
  | IsADirectoryError path
  | ParserError path
  | UnicodeDecodeError path
  | UndefinedVariableError string
  | KeyError string
  | IndexError
  | MissingOption string

section \<open>Exception-state programs\<close>

type_synonym ('s, 'a) prog = "'s \<Rightarrow> (py_error + 'a) \<times> 's"

named_theorems prog_simps "unfolding rules of the exception-state program combinators"

definition ret :: "'a \<Rightarrow> ('s, 'a) prog" where
  "ret a = (\<lambda>s. (Inr a, s))"

definition raise :: "py_error \<Rightarrow> ('s, 'a) prog" where
  "raise e = (\<lambda>s. (Inl e, s))"

text \<open>Run \<open>m\<close>; if it raised, stop with its exception and its state, else run \<open>f\<close>.\<close>

definition bind_prog :: "('s, 'a) prog \<Rightarrow> ('a \<Rightarrow> ('s, 'b) prog) \<Rightarrow> ('s, 'b) prog" where
  "bind_prog m f = (\<lambda>s. case m s of (Inl e, s') \<Rightarrow> (Inl e, s') | (Inr a, s') \<Rightarrow> f a s')"

text \<open>A pure step that may raise, lifted to a program that leaves the state alone.\<close>

definition lift_sum :: "py_error + 'a \<Rightarrow> ('s, 'a) prog" where
  "lift_sum r = (\<lambda>s. (r, s))"

text \<open>A program preserves a property of the state when every run from a state with it ends in one.\<close>

definition preserves :: "('s \<Rightarrow> bool) \<Rightarrow> ('s, 'a) prog \<Rightarrow> bool" where
  "preserves P m \<longleftrightarrow> (\<forall>s r s'. P s \<longrightarrow> m s = (r, s') \<longrightarrow> P s')"

text \<open>A program raises only exceptions of a given kind.\<close>

definition raises_only :: "(py_error \<Rightarrow> bool) \<Rightarrow> ('s, 'a) prog \<Rightarrow> bool" where
  "raises_only E m \<longleftrightarrow> (\<forall>s e s'. m s = (Inl e, s') \<longrightarrow> E e)"

lemma ret_apply [prog_simps, simp]: "ret a s = (Inr a, s)"
  by (simp add: ret_def)

lemma raise_apply [prog_simps, simp]: "raise e s = (Inl e, s)"
  by (simp add: raise_def)

lemma lift_sum_apply [prog_simps, simp]: "lift_sum r s = (r, s)"
  by (simp add: lift_sum_def)

lemma bind_prog_apply [prog_simps]:
  "bind_prog m f s = (case m s of (Inl e, s') \<Rightarrow> (Inl e, s') | (Inr a, s') \<Rightarrow> f a s')"
  by (simp add: bind_prog_def)

lemma bind_prog_Inr [simp]: "m s = (Inr a, s') \<Longrightarrow> bind_prog m f s = f a s'"
  by (simp add: bind_prog_def)

lemma bind_prog_Inl [simp]: "m s = (Inl e, s') \<Longrightarrow> bind_prog m f s = (Inl e, s')"
  by (simp add: bind_prog_def)

lemma ret_bind [simp]: "bind_prog (ret a) f = f a"
  by (simp add: bind_prog_def ret_def)

lemma raise_bind [simp]: "bind_prog (raise e) f = raise e"
  by (simp add: bind_prog_def raise_def)

lemma bind_prog_assoc:
  "bind_prog (bind_prog m f) g = bind_prog m (\<lambda>a. bind_prog (f a) g)"
  by (rule ext) (simp add: bind_prog_def split: prod.splits sum.splits)

text \<open>
  The outcome of a program as a whole: it raised (\<open>Inl\<close>) or returned (\<open>Inr\<close>), and
  a program that returns did so after every statement returned.
\<close>

lemma bind_prog_Inr_iff:
  "bind_prog m f s = (Inr b, s'') \<longleftrightarrow> (\<exists>a s'. m s = (Inr a, s') \<and> f a s' = (Inr b, s''))"
  by (auto simp: bind_prog_def split: prod.splits sum.splits)

lemma preservesI: "(\<And>s r s'. P s \<Longrightarrow> m s = (r, s') \<Longrightarrow> P s') \<Longrightarrow> preserves P m"
  by (simp add: preserves_def)

lemma preservesD: "preserves P m \<Longrightarrow> P s \<Longrightarrow> m s = (r, s') \<Longrightarrow> P s'"
  by (simp add: preserves_def)

lemma preserves_ret [intro]: "preserves P (ret a)"
  by (simp add: preserves_def)

lemma preserves_raise [intro]: "preserves P (raise e)"
  by (simp add: preserves_def)

lemma preserves_lift_sum [intro]: "preserves P (lift_sum r)"
  by (simp add: preserves_def)

lemma preserves_bind [intro]:
  assumes "preserves P m" and "\<And>a. preserves P (f a)"
  shows "preserves P (bind_prog m f)"
proof (rule preservesI)
  fix s r s'
  assume "P s" and run: "bind_prog m f s = (r, s')"
  obtain r1 s1 where m: "m s = (r1, s1)" by fastforce
  with assms(1) \<open>P s\<close> have "P s1" by (rule preservesD)
  show "P s'"
  proof (cases r1)
    case (Inl e)
    with m run \<open>P s1\<close> show ?thesis by simp
  next
    case (Inr a)
    with m run have "f a s1 = (r, s')" by simp
    with assms(2) \<open>P s1\<close> show ?thesis by (rule preservesD)
  qed
qed

lemma raises_onlyD: "raises_only E m \<Longrightarrow> m s = (Inl e, s') \<Longrightarrow> E e"
  unfolding raises_only_def by blast

lemma raises_only_ret [intro]: "raises_only E (ret a)"
  by (simp add: raises_only_def)

lemma raises_only_raise [intro]: "E e \<Longrightarrow> raises_only E (raise e)"
  by (simp add: raises_only_def)

lemma raises_only_lift_sum [intro]: "(\<And>e. r = Inl e \<Longrightarrow> E e) \<Longrightarrow> raises_only E (lift_sum r)"
  by (simp add: raises_only_def)

lemma raises_only_bind [intro]:
  "raises_only E m \<Longrightarrow> (\<And>a. raises_only E (f a)) \<Longrightarrow> raises_only E (bind_prog m f)"
  by (auto simp: raises_only_def bind_prog_def split: prod.splits sum.splits)

section \<open>Lists\<close>

text \<open>Reversing twice around an ascending sort gives a descending order.\<close>

lemma sorted_map_rev_iff: "sorted (map f (rev xs)) \<longleftrightarrow> sorted_wrt (\<ge>) (map f xs)"
  by (simp add: rev_map [symmetric] sorted_wrt_rev)

lemma filter_rev_rev: "filter P (rev xs) = rev (filter P xs)"
  by (rule rev_filter [symmetric])

lemma mset_filter_union: "mset (filter P xs) + mset (filter (\<lambda>x. \<not> P x) xs) = mset xs"
  by (induction xs) auto

end
