(* ===== verification/Loader.thy ===== *)
theory Loader
  imports Prelude
begin

text \<open>
  The data loader and filter of \<^verbatim>\<open>main\<close> (\<^verbatim>\<open>generate_figures.py\<close>, lines 28--32):
  the table read by \<^verbatim>\<open>pd.read_csv\<close>, the \<^verbatim>\<open>query\<close> that keeps the June~1 rows of
  the provinces, the renaming of Prince Edward Island, the rescaling of \<^verbatim>\<open>Value\<close>
  by 1000 and the conversion of \<^verbatim>\<open>Ref_Date\<close> to text. A table is a list of rows
  (a record per row, in file order) together with the names of its columns, so that
  the \<^verbatim>\<open>KeyError\<close> of a missing column is a branch of the model. The \<^verbatim>\<open>Value\<close>
  column holds the numbers of a pandas column: 64-bit integers when every cell of the
  file is an integer (multiplication then wraps around, as numpy's does), floats
  otherwise, where an empty cell is a missing value.
\<close>

section \<open>The observation table\<close>

datatype num = Int64 "64 word" | Float64 real | Missing

text \<open>The number a cell stands for, \<open>None\<close> for a missing value (NaN).\<close>

fun num_value :: "num \<Rightarrow> real option" where
  "num_value (Int64 w) = Some (of_int (sint w))"
| "num_value (Float64 r) = Some r"
| "num_value Missing = None"

record 'd obs =
  GEO :: string
  DATE :: string
  Ref_Date :: 'd
  Value :: num

record 'd frame =
  columns :: "string list"
  rows :: "'d obs list"

text \<open>A pandas column has one dtype: integer cells and float cells never mix.\<close>

fun is_int64 :: "num \<Rightarrow> bool" where
  "is_int64 (Int64 _) = True"
| "is_int64 _ = False"


section \<open>The four statements of the pre-processing\<close>

text \<open>
  Line 29: \<^verbatim>\<open>horse_pop.query('DATE == "At June 1 (x 1,000)" and GEO != "Canada"')\<close>.
  pandas resolves the names of the expression in order and raises
  \<^verbatim>\<open>UndefinedVariableError\<close> for the first one that is no column.
\<close>

definition query_keep :: "'d obs \<Rightarrow> bool" where
  "query_keep r \<longleftrightarrow> DATE r = ''At June 1 (x 1,000)'' \<and> GEO r \<noteq> ''Canada''"

definition query_june :: "'d frame \<Rightarrow> py_error + 'd frame" where
  "query_june fr =
     (case find (\<lambda>c. c \<notin> set (columns fr)) [''DATE'', ''GEO''] of
        Some c \<Rightarrow> Inl (UndefinedVariableError c)
      | None \<Rightarrow> Inr (fr\<lparr>rows := filter query_keep (rows fr)\<rparr>))"

text \<open>
  Line 30: \<^verbatim>\<open>horse_pop['GEO'].replace({"Prince Edward Island": "P.E.I."})\<close>
  replaces whole cells equal to the key (the column exists: the query read it).
\<close>

definition rename_pei :: "string \<Rightarrow> string" where
  "rename_pei g = (if g = ''Prince Edward Island'' then ''P.E.I.'' else g)"

definition replace_pei :: "'d frame \<Rightarrow> 'd frame" where
  "replace_pei fr = fr\<lparr>rows := map (\<lambda>r. r\<lparr>GEO := rename_pei (GEO r)\<rparr>) (rows fr)\<rparr>"

text \<open>
  Line 31: \<^verbatim>\<open>horse_pop['Value'] * 1000\<close>, element-wise in the column's dtype:
  64-bit multiplication that wraps around, float multiplication, NaN stays NaN.
\<close>

fun scale_num :: "num \<Rightarrow> num" where
  "scale_num (Int64 w) = Int64 (w * 1000)"
| "scale_num (Float64 r) = Float64 (r * 1000)"
| "scale_num Missing = Missing"

definition scale_values :: "'d frame \<Rightarrow> py_error + 'd frame" where
  "scale_values fr =
     (if ''Value'' \<notin> set (columns fr) then Inl (KeyError ''Value'')
      else Inr (fr\<lparr>rows := map (\<lambda>r. r\<lparr>Value := scale_num (Value r)\<rparr>) (rows fr)\<rparr>))"

text \<open>
  Line 32: \<^verbatim>\<open>horse_pop['Ref_Date'].astype(str)\<close> turns each integer year into its
  decimal text, as Python's \<^verbatim>\<open>str\<close> prints it.
\<close>

definition digit_char :: "nat \<Rightarrow> char" where
  "digit_char d = ''0123456789'' ! d"

fun nat_digits :: "nat \<Rightarrow> string" where
  "nat_digits n =
     (if n < 10 then [digit_char n]
      else nat_digits (n div 10) @ [digit_char (n mod 10)])"

definition py_str_int :: "int \<Rightarrow> string" where
  "py_str_int i = (if i < 0 then CHR ''-'' # nat_digits (nat (- i)) else nat_digits (nat i))"

definition ref_date_to_str :: "int frame \<Rightarrow> py_error + string frame" where
  "ref_date_to_str fr =
     (if ''Ref_Date'' \<notin> set (columns fr) then Inl (KeyError ''Ref_Date'')
      else Inr \<lparr>columns = columns fr,
                rows = map (\<lambda>r. \<lparr>GEO = GEO r, DATE = DATE r,
                                  Ref_Date = py_str_int (Ref_Date r), Value = Value r\<rparr>)
                           (rows fr)\<rparr>)"

text \<open>Lines 29--32 in order; the first statement that raises ends the script.\<close>

definition preprocess :: "int frame \<Rightarrow> py_error + string frame" where
  "preprocess fr =
     (case query_june fr of
        Inl e \<Rightarrow> Inl e
      | Inr f1 \<Rightarrow>
          (case scale_values (replace_pei f1) of
             Inl e \<Rightarrow> Inl e
           | Inr f2 \<Rightarrow> ref_date_to_str f2))"

section \<open>The pre-processing row by row\<close>

text \<open>
  Lines 30--32 act on each row alone: what they make of one row that the query kept.
\<close>

definition prep_row :: "int obs \<Rightarrow> string obs" where
  "prep_row r = \<lparr>GEO = rename_pei (GEO r), DATE = DATE r,
                 Ref_Date = py_str_int (Ref_Date r), Value = scale_num (Value r)\<rparr>"

abbreviation required_columns :: "string list" where
  "required_columns \<equiv> [''DATE'', ''GEO'', ''Value'', ''Ref_Date'']"

text \<open>
  A reader for the text \<^verbatim>\<open>astype(str)\<close> writes (decimal digits after an optional
  minus sign), used to state that the conversion loses nothing.
\<close>

fun digits_value :: "nat \<Rightarrow> string \<Rightarrow> nat option" where
  "digits_value acc [] = Some acc"
| "digits_value acc (c # cs) =
     (if 48 \<le> (of_char c :: nat) \<and> (of_char c :: nat) < 58 then digits_value (10 * acc + (of_char c - 48)) cs
      else None)"

definition parse_int :: "string \<Rightarrow> int option" where
  "parse_int s =
     (case s of
        [] \<Rightarrow> None
      | c # t \<Rightarrow>
          if c = CHR ''-'' then (if t = [] then None else map_option (\<lambda>n. - int n) (digits_value 0 t))
          else map_option int (digits_value 0 s))"

text \<open>
  The table of the end-to-end scenario of the specification (section 8): two Ontario
  rows, the national row and one row of Prince Edward Island, all of June~1.
\<close>

definition spec_example :: "int frame" where
  "spec_example =
     \<lparr>columns = [''Ref_Date'', ''GEO'', ''DATE'', ''Value''],
      rows = [\<lparr>GEO = ''Ontario'', DATE = ''At June 1 (x 1,000)'', Ref_Date = 2019, Value = Int64 10\<rparr>,
              \<lparr>GEO = ''Ontario'', DATE = ''At June 1 (x 1,000)'', Ref_Date = 2020, Value = Int64 12\<rparr>,
              \<lparr>GEO = ''Canada'', DATE = ''At June 1 (x 1,000)'', Ref_Date = 2019, Value = Int64 50\<rparr>,
              \<lparr>GEO = ''Prince Edward Island'', DATE = ''At June 1 (x 1,000)'', Ref_Date = 2019,
                Value = Int64 1\<rparr>]\<rparr>"

lemmas loader_eval = query_keep_def rename_pei_def prep_row_def py_str_int_def nat_digits.simps
  digit_char_def spec_example_def

section \<open>Properties of the loader\<close>

subsection \<open>The pre-processing as a whole\<close>

lemma query_june_Inr:
  "query_june fr = Inr f1 \<longleftrightarrow>
     ''DATE'' \<in> set (columns fr) \<and> ''GEO'' \<in> set (columns fr) \<and>
     f1 = fr\<lparr>rows := filter query_keep (rows fr)\<rparr>"
  by (auto simp: query_june_def find_None_iff split: option.splits dest: find_Some_iff [THEN iffD1])

text \<open>The two directions of the pre-processing's success, for use in the proofs below.\<close>

lemma preprocess_ok:
  "set required_columns \<subseteq> set (columns fr) \<Longrightarrow>
   preprocess fr = Inr \<lparr>columns = columns fr, rows = map prep_row (filter query_keep (rows fr))\<rparr>"
  by (auto simp: preprocess_def query_june_def find_None_iff scale_values_def replace_pei_def
      ref_date_to_str_def prep_row_def)

lemma preprocess_InrD:
  "preprocess fr = Inr fr' \<Longrightarrow>
   set required_columns \<subseteq> set (columns fr) \<and>
   fr' = \<lparr>columns = columns fr, rows = map prep_row (filter query_keep (rows fr))\<rparr>"
  by (auto simp: preprocess_def query_june_def find_None_iff scale_values_def replace_pei_def ref_date_to_str_def
      prep_row_def split: option.splits if_splits dest: find_Some_iff [THEN iffD1])

text \<open>The rows the pre-processing keeps, written out as lines 29--31 state them.\<close>

lemma scale_num_case:
  "scale_num v = (case v of Int64 w \<Rightarrow> Int64 (w * 1000) | Float64 x \<Rightarrow> Float64 (x * 1000) | Missing \<Rightarrow> Missing)"
  by (cases v) simp_all

lemma map_prep_row_filter:
  "map prep_row (filter query_keep rs) =
     [\<lparr>GEO = (if GEO r = ''Prince Edward Island'' then ''P.E.I.'' else GEO r), DATE = DATE r,
       Ref_Date = py_str_int (Ref_Date r),
       Value = (case Value r of Int64 w \<Rightarrow> Int64 (w * 1000) | Float64 x \<Rightarrow> Float64 (x * 1000)
                 | Missing \<Rightarrow> Missing)\<rparr>.
      r \<leftarrow> rs, DATE r = ''At June 1 (x 1,000)'' \<and> GEO r \<noteq> ''Canada'']"
  by (induction rs) (simp_all add: prep_row_def query_keep_def rename_pei_def scale_num_case)

text \<open>
  C7: the pre-processing succeeds exactly when the four columns it reads are in the
  table, and then its rows are, in file order, the rows with \<^verbatim>\<open>DATE\<close> the June~1
  label and \<^verbatim>\<open>GEO\<close> other than Canada, each with Prince Edward Island renamed
  P.E.I., its \<^verbatim>\<open>Value\<close> multiplied by 1000 in its own dtype and its year as the text
  \<^verbatim>\<open>str\<close> prints; the columns are unchanged.
\<close>

theorem preprocess_Inr_iff:
  "preprocess fr = Inr fr' \<longleftrightarrow>
     {''DATE'', ''GEO'', ''Value'', ''Ref_Date''} \<subseteq> set (columns fr) \<and>
     fr' = \<lparr>columns = columns fr,
            rows = [\<lparr>GEO = (if GEO r = ''Prince Edward Island'' then ''P.E.I.'' else GEO r), DATE = DATE r,
                     Ref_Date = py_str_int (Ref_Date r),
                     Value = (case Value r of Int64 w \<Rightarrow> Int64 (w * 1000) | Float64 x \<Rightarrow> Float64 (x * 1000)
                               | Missing \<Rightarrow> Missing)\<rparr>.
                    r \<leftarrow> rows fr, DATE r = ''At June 1 (x 1,000)'' \<and> GEO r \<noteq> ''Canada'']\<rparr>"
  by (auto dest: preprocess_InrD simp: preprocess_ok map_prep_row_filter [symmetric])

text \<open>
  C24: a missing column ends the script with the error of the first statement that
  reads it: \<^verbatim>\<open>UndefinedVariableError\<close> from the query for \<^verbatim>\<open>DATE\<close> and
  \<^verbatim>\<open>GEO\<close> (in that order), \<^verbatim>\<open>KeyError\<close> for \<^verbatim>\<open>Value\<close>, then \<^verbatim>\<open>Ref_Date\<close>.
\<close>

theorem preprocess_Inl_iff:
  "preprocess fr = Inl e \<longleftrightarrow>
     (case find (\<lambda>c. c \<notin> set (columns fr)) required_columns of
        None \<Rightarrow> False
      | Some c \<Rightarrow> e = (if c \<in> {''DATE'', ''GEO''} then UndefinedVariableError c else KeyError c))"
  by (auto simp: preprocess_def query_june_def scale_values_def replace_pei_def ref_date_to_str_def
      split: option.splits if_splits)

lemma prep_row_fields [simp]:
  "GEO (prep_row r) = rename_pei (GEO r)" "DATE (prep_row r) = DATE r"
  "Ref_Date (prep_row r) = py_str_int (Ref_Date r)" "Value (prep_row r) = scale_num (Value r)"
  by (simp_all add: prep_row_def)

lemma rename_pei_not_canada: "rename_pei g = ''Canada'' \<longleftrightarrow> g = ''Canada''"
  by (simp add: rename_pei_def)

text \<open>
  C6: every row of the filtered table carries the June~1 label, none is the national
  aggregate, and none still carries the long name of Prince Edward Island.
\<close>

theorem preprocess_rows_filtered:
  assumes "preprocess fr = Inr fr'" and "r \<in> set (rows fr')"
  shows "DATE r = ''At June 1 (x 1,000)'' \<and> GEO r \<noteq> ''Canada'' \<and> GEO r \<noteq> ''Prince Edward Island''"
proof -
  from assms obtain r0 where r0: "r0 \<in> set (rows fr)" "query_keep r0" and r: "r = prep_row r0"
    using preprocess_InrD [OF assms(1)] by auto
  from r0(2) have "DATE r0 = ''At June 1 (x 1,000)''" and "GEO r0 \<noteq> ''Canada''"
    by (simp_all add: query_keep_def)
  then show ?thesis
    by (simp add: r rename_pei_def)
qed

text \<open>The dtype of \<^verbatim>\<open>Value\<close> is kept: the rescaling maps each cell into its own dtype.\<close>

lemma is_int64_scale_num [simp]: "is_int64 (scale_num v) = is_int64 v"
  by (cases v) simp_all

subsection \<open>Rescaling in 64 bits\<close>

lemma sint_times_1000: "sint (w * 1000 :: 64 word) = signed_take_bit 63 (1000 * sint w)"
  by (simp add: sint_word_mult mult.commute)

lemma sint_scale_exact:
  assumes "\<bar>sint w\<bar> \<le> 9223372036854775"
  shows "sint (w * 1000 :: 64 word) = 1000 * sint w"
proof -
  from assms have "- (2 ^ 63) \<le> 1000 * sint w" and "1000 * sint w < 2 ^ 63"
    by (simp_all add: abs_le_iff)
  then have "signed_take_bit 63 (1000 * sint w) = 1000 * sint w"
    by (rule signed_take_bit_int_eq_self)
  then show ?thesis
    by (simp add: sint_times_1000)
qed

text \<open>A cell that does not overflow is rescaled exactly, whatever its dtype.\<close>

lemma num_value_scale_num:
  "(\<forall>w. v = Int64 w \<longrightarrow> \<bar>sint w\<bar> \<le> 9223372036854775) \<Longrightarrow>
   num_value (scale_num v) = map_option ((*) 1000) (num_value v)"
  by (cases v) (simp_all add: sint_scale_exact)

text \<open>
  C16: within the bound the product is exact: the rescaled value is 1000 times the
  value read, as the specification says.
\<close>

theorem scale_num_exact:
  assumes "\<bar>sint w\<bar> \<le> 9223372036854775"
  shows "num_value (scale_num (Int64 w)) = Some (1000 * of_int (sint w))"
  using sint_scale_exact [OF assms] by simp

text \<open>Outside the int64 range the product wraps by a multiple of \<open>2^64\<close>.\<close>

lemma signed_take_bit_wrap: "\<exists>k. signed_take_bit n (x :: int) = x + k * 2 ^ Suc n"
proof
  let ?a = "x + 2 ^ n" and ?m = "2 ^ Suc n :: int"
  have "signed_take_bit n x = ?a mod ?m - 2 ^ n"
    by (simp add: signed_take_bit_eq_take_bit_shift take_bit_eq_mod)
  also have "\<dots> = x + - (?a div ?m) * ?m"
    using minus_div_mult_eq_mod [of ?a ?m] by simp
  finally show "signed_take_bit n x = x + - (?a div ?m) * ?m" .
qed

lemma sint_scale_wrap:
  "\<exists>k. sint (w * 1000 :: 64 word) = 1000 * sint w + k * 2 ^ 64"
  using signed_take_bit_wrap [of 63 "1000 * sint w"] by (simp add: sint_times_1000)

text \<open>
  C17: past the bound the product wraps around: the rescaled value differs from 1000
  times the value read by a non-zero multiple of \<open>2^64\<close>, so it is not the count of
  horses (a positive count in thousands can turn into a negative number).
\<close>

theorem scale_num_overflow:
  assumes "9223372036854775 < \<bar>sint w\<bar>"
  shows "\<exists>k. k \<noteq> 0 \<and> num_value (scale_num (Int64 w)) = Some (of_int (1000 * sint w + k * 2 ^ 64))"
proof -
  obtain k where k: "sint (w * 1000 :: 64 word) = 1000 * sint w + k * 2 ^ 64"
    using sint_scale_wrap by blast
  have "1000 * sint w < - (2 ^ 63) \<or> 2 ^ 63 \<le> 1000 * sint w"
  proof -
    have "9223372036854776 \<le> sint w \<or> sint w \<le> - 9223372036854776"
      using assms by linarith
    then show ?thesis
      by (elim disjE) simp_all
  qed
  moreover have "- (2 ^ 63) \<le> sint (w * 1000 :: 64 word)" and "sint (w * 1000 :: 64 word) < 2 ^ 63"
    using sint_ge [of "w * 1000"] sint_lt [of "w * 1000"] by simp_all
  ultimately have "k \<noteq> 0"
    using k by auto
  with k show ?thesis by simp
qed

subsection \<open>The year as text\<close>

lemma of_char_digit_char: "d < 10 \<Longrightarrow> of_char (digit_char d) = 48 + d"
proof -
  assume "d < 10"
  then have "d \<in> {0,1,2,3,4,5,6,7,8,9}" by auto
  then show ?thesis by (auto simp: digit_char_def)
qed

lemma digits_value_append:
  "digits_value acc (xs @ ys) = (case digits_value acc xs of None \<Rightarrow> None | Some a \<Rightarrow> digits_value a ys)"
  by (induction acc xs rule: digits_value.induct) auto

declare nat_digits.simps [simp del]

lemma digits_value_nat_digits:
  "digits_value acc (nat_digits n) = Some (acc * 10 ^ length (nat_digits n) + n)"
proof (induction n arbitrary: acc rule: nat_digits.induct)
  case (1 n)
  show ?case
  proof (cases "n < 10")
    case True
    then show ?thesis by (simp add: nat_digits.simps [of n] of_char_digit_char)
  next
    case False
    then have "digits_value acc (nat_digits n) =
       digits_value (acc * 10 ^ length (nat_digits (n div 10)) + n div 10) [digit_char (n mod 10)]"
      by (simp add: nat_digits.simps [of n] digits_value_append "1.IH")
    also have "\<dots> = Some (acc * 10 ^ length (nat_digits n) + n)"
      using False by (simp add: of_char_digit_char nat_digits.simps [of n] algebra_simps)
    finally show ?thesis .
  qed
qed

lemma nat_digits_nonempty: "nat_digits n \<noteq> []"
  by (simp add: nat_digits.simps [of n])

lemma nat_digits_mem: "c \<in> set (nat_digits n) \<Longrightarrow> 48 \<le> (of_char c :: nat)"
proof (induction n rule: nat_digits.induct)
  case (1 n)
  then show ?case
    by (cases "n < 10") (auto simp: nat_digits.simps [of n] of_char_digit_char)
qed





text \<open>
  C32: the text \<^verbatim>\<open>astype(str)\<close> gives a year reads back as that year, so distinct
  years stay distinct labels on the time axis.
\<close>

theorem py_str_int_roundtrip: "parse_int (py_str_int i) = Some i"
proof (cases "i < 0")
  case True
  then show ?thesis
    by (simp add: py_str_int_def parse_int_def nat_digits_nonempty digits_value_nat_digits)
next
  case False
  obtain c t where ct: "nat_digits (nat i) = c # t"
    using nat_digits_nonempty by (cases "nat_digits (nat i)") auto
  then have "c \<noteq> CHR ''-''"
    using nat_digits_mem [of c "nat i"] by auto
  with False ct show ?thesis
    using digits_value_nat_digits [of 0 "nat i"]
    by (simp add: py_str_int_def parse_int_def)
qed


subsection \<open>Witnesses\<close>

theorem preprocess_rows_filtered_witness:
  "\<lparr>GEO = ''P.E.I.'', DATE = ''At June 1 (x 1,000)'', Ref_Date = ''2019'', Value = Int64 1000\<rparr>
     \<in> set (rows (projr (preprocess spec_example))) \<and>
   ''P.E.I.'' \<noteq> ''Canada'' \<and> ''P.E.I.'' \<noteq> ''Prince Edward Island''"
proof -
  have ok: "preprocess spec_example =
     Inr \<lparr>columns = columns spec_example, rows = map prep_row (filter query_keep (rows spec_example))\<rparr>"
    by (simp add: preprocess_def query_june_def scale_values_def replace_pei_def ref_date_to_str_def
        prep_row_def spec_example_def)
  let ?r = "\<lparr>GEO = ''P.E.I.'', DATE = ''At June 1 (x 1,000)'', Ref_Date = ''2019'', Value = Int64 1000\<rparr>"
  have mem: "?r \<in> set (rows (projr (preprocess spec_example)))"
    unfolding ok by (simp add: loader_eval)
  have "DATE ?r = ''At June 1 (x 1,000)'' \<and> GEO ?r \<noteq> ''Canada'' \<and> GEO ?r \<noteq> ''Prince Edward Island''"
    using preprocess_rows_filtered [OF ok] mem by (simp add: ok)
  with mem show ?thesis by simp
qed

theorem scale_num_exact_witness:
  "\<bar>sint (12 :: 64 word)\<bar> \<le> 9223372036854775 \<and> num_value (scale_num (Int64 12)) = Some 12000"
proof -
  have h: "\<bar>sint (12 :: 64 word)\<bar> \<le> 9223372036854775" by simp
  show ?thesis using h scale_num_exact [OF h] by simp
qed


theorem scale_num_overflow_witness:
  "9223372036854775 < \<bar>sint (9223372036854776 :: 64 word)\<bar> \<and>
   (\<exists>k. k \<noteq> 0 \<and> num_value (scale_num (Int64 9223372036854776)) =
      Some (of_int (1000 * sint (9223372036854776 :: 64 word) + k * 2 ^ 64))) \<and>
   num_value (scale_num (Int64 9223372036854776)) = Some (- 9223372036854775616)"
proof -
  have h: "9223372036854775 < \<bar>sint (9223372036854776 :: 64 word)\<bar>" by simp
  have v: "num_value (scale_num (Int64 9223372036854776)) = Some (- 9223372036854775616)"
    by simp
  show ?thesis
    by (intro conjI h scale_num_overflow [OF h] v)
qed

end
