(* ===== verification/Summary.thy ===== *)
theory Summary
  imports Loader
begin

text \<open>
  The summary statistics of line 49 of \<^verbatim>\<open>generate_figures.py\<close>:
  \<^verbatim>\<open>horse_pop.groupby('GEO')['Value'].agg(Std='std').reset_index()\<close>
  \<^verbatim>\<open>  .rename(columns={'GEO': 'Province'}).sort_values(by='Std', ascending=False)\<close>.
\<close>

section \<open>Grouping by province\<close>

text \<open>
  \<^verbatim>\<open>groupby('GEO')\<close> (with pandas' default \<^verbatim>\<open>sort=True\<close>) has one group per distinct
  value of \<^verbatim>\<open>GEO\<close>, the groups in ascending order of their key.
\<close>

definition group_keys :: "'d obs list \<Rightarrow> string list" where
  "group_keys rs = sort (remdups (map GEO rs))"

section \<open>The standard deviation of a group: pandas' \<open>group_var\<close>\<close>

text \<open>
  pandas computes the grouped \<^verbatim>\<open>std\<close> with the Cython routine \<^verbatim>\<open>group_var\<close> and a
  square root. It makes one pass over the rows in table order and keeps, per group, the
  number of non-missing values, their running mean and the running sum of squared
  deviations (Welford's update), skipping missing values:
  \<^verbatim>\<open>nobs += 1; oldmean = mean; mean += (val - oldmean) / nobs\<close>
  \<^verbatim>\<open>ssqdm += (val - mean) * (val - oldmean)\<close>
  and at the end divides by \<open>nobs - ddof\<close> (\<open>ddof = 1\<close>) when \<open>nobs > ddof\<close>, giving NaN
  otherwise.
\<close>

record var_acc =
  nobs :: nat
  mean :: real
  ssqdm :: real

definition acc0 :: var_acc where
  "acc0 = \<lparr>nobs = 0, mean = 0, ssqdm = 0\<rparr>"

definition welford_step :: "var_acc \<Rightarrow> real \<Rightarrow> var_acc" where
  "welford_step a x =
     (let n = nobs a + 1;
          m = mean a + (x - mean a) / real n
      in \<lparr>nobs = n, mean = m, ssqdm = ssqdm a + (x - m) * (x - mean a)\<rparr>)"

fun group_var_loop :: "'d obs list \<Rightarrow> (string \<Rightarrow> var_acc) \<Rightarrow> string \<Rightarrow> var_acc" where
  "group_var_loop [] accs = accs"
| "group_var_loop (r # rs) accs =
     group_var_loop rs
       (case num_value (Value r) of
          None \<Rightarrow> accs
        | Some x \<Rightarrow> accs(GEO r := welford_step (accs (GEO r)) x))"

definition var_result :: "var_acc \<Rightarrow> real option" where
  "var_result a = (if nobs a \<le> 1 then None else Some (ssqdm a / real (nobs a - 1)))"

text \<open>
  The aggregated table after \<^verbatim>\<open>reset_index\<close> and the renaming: one row per group, with
  the key as \<^verbatim>\<open>Province\<close> and the standard deviation as \<^verbatim>\<open>Std\<close> (\<open>None\<close> for NaN).
\<close>

record sd_row =
  Province :: string
  Std :: "real option"

definition group_std :: "'d obs list \<Rightarrow> sd_row list" where
  "group_std rs =
     (let accs = group_var_loop rs (\<lambda>_. acc0)
      in map (\<lambda>k. \<lparr>Province = k, Std = map_option sqrt (var_result (accs k))\<rparr>) (group_keys rs))"

section \<open>Sorting by \<open>Std\<close>, descending: pandas' \<open>nargsort\<close>\<close>

text \<open>
  \<^verbatim>\<open>sort_values(by='Std', ascending=False)\<close> orders the rows with \<^verbatim>\<open>nargsort\<close>: the
  rows with a missing key are set aside in their order; for a descending sort the others
  are reversed, ordered ascending by numpy's \<^verbatim>\<open>argsort(kind='quicksort')\<close>, and the
  result is reversed again; the rows with a missing key come last. The ascending sort is
  a parameter \<open>srt\<close>: numpy promises only that it returns the rows as a permutation
  ordered by the key (\<open>is_sort_impl\<close>); which of several rows with equal keys comes
  first depends on numpy's algorithm and the platform.
\<close>

type_synonym 'a sorter = "('a \<Rightarrow> real) \<Rightarrow> 'a list \<Rightarrow> 'a list"

definition is_sort_impl :: "'a sorter \<Rightarrow> bool" where
  "is_sort_impl srt \<longleftrightarrow> (\<forall>f xs. mset (srt f xs) = mset xs \<and> sorted (map f (srt f xs)))"

definition nargsort_desc :: "'a sorter \<Rightarrow> ('a \<Rightarrow> real option) \<Rightarrow> 'a list \<Rightarrow> 'a list" where
  "nargsort_desc srt key xs =
     rev (srt (\<lambda>x. the (key x)) (rev (filter (\<lambda>x. key x \<noteq> None) xs)))
     @ filter (\<lambda>x. key x = None) xs"

definition summary_table :: "sd_row sorter \<Rightarrow> 'd obs list \<Rightarrow> sd_row list" where
  "summary_table srt rs = nargsort_desc srt Std (group_std rs)"

section \<open>Reference definitions\<close>

text \<open>
  What the summary promises: the sample standard deviation (denominator \<open>N - 1\<close>) of
  the non-missing values of each province, undefined below two values; and an order
  that is descending in \<open>Std\<close> with the missing values last.
\<close>

definition group_values :: "'d obs list \<Rightarrow> string \<Rightarrow> real list" where
  "group_values rs k = List.map_filter (\<lambda>r. if GEO r = k then num_value (Value r) else None) rs"

definition sample_mean :: "real list \<Rightarrow> real" where
  "sample_mean xs = sum_list xs / real (length xs)"

definition sample_var :: "real list \<Rightarrow> real option" where
  "sample_var xs =
     (if length xs \<le> 1 then None
      else Some (sum_list (map (\<lambda>x. (x - sample_mean xs)\<^sup>2) xs) / real (length xs - 1)))"

definition sample_std :: "real list \<Rightarrow> real option" where
  "sample_std xs = map_option sqrt (sample_var xs)"

definition desc_nan_last :: "('a \<Rightarrow> real option) \<Rightarrow> 'a \<Rightarrow> 'a \<Rightarrow> bool" where
  "desc_nan_last key a b =
     (case key b of None \<Rightarrow> True | Some y \<Rightarrow> (case key a of None \<Rightarrow> False | Some x \<Rightarrow> y \<le> x))"

text \<open>
  The filtered table of the specification's scenario (what the loader makes of \<open>spec_example\<close>):
  two Ontario rows and one row of P.E.I.
\<close>

definition summary_example :: "string obs list" where
  "summary_example =
     [\<lparr>GEO = ''Ontario'', DATE = ''At June 1 (x 1,000)'', Ref_Date = ''2019'', Value = Int64 10000\<rparr>,
      \<lparr>GEO = ''Ontario'', DATE = ''At June 1 (x 1,000)'', Ref_Date = ''2020'', Value = Int64 12000\<rparr>,
      \<lparr>GEO = ''P.E.I.'', DATE = ''At June 1 (x 1,000)'', Ref_Date = ''2019'', Value = Int64 1000\<rparr>]"

text \<open>
  A table that spells Prince Edward Island both ways: line 30 merges the two spellings
  into one province.
\<close>

definition pei_example :: "int frame" where
  "pei_example =
     \<lparr>columns = [''Ref_Date'', ''GEO'', ''DATE'', ''Value''],
      rows = [\<lparr>GEO = ''P.E.I.'', DATE = ''At June 1 (x 1,000)'', Ref_Date = 2019, Value = Int64 1\<rparr>,
              \<lparr>GEO = ''Prince Edward Island'', DATE = ''At June 1 (x 1,000)'', Ref_Date = 2020,
                Value = Int64 3\<rparr>,
              \<lparr>GEO = ''Ontario'', DATE = ''At June 1 (x 1,000)'', Ref_Date = 2019, Value = Int64 10\<rparr>]\<rparr>"

abbreviation pei_names :: "string set" where
  "pei_names \<equiv> {''P.E.I.'', ''Prince Edward Island''}"

section \<open>Welford's update computes the two-pass statistics\<close>

definition welford_inv :: "var_acc \<Rightarrow> real list \<Rightarrow> bool" where
  "welford_inv a xs \<longleftrightarrow>
     nobs a = length xs \<and> real (length xs) * mean a = sum_list xs \<and>
     ssqdm a = sum_list (map (\<lambda>x. x\<^sup>2) xs) - real (length xs) * (mean a)\<^sup>2"

lemma welford_mean_step:
  assumes "(n::real) \<ge> 0" and "n * m = S"
  shows "(n + 1) * (m + (x - m) / (n + 1)) = S + x"
proof -
  from assms(1) have "n + 1 \<noteq> 0" by linarith
  with assms(2) show ?thesis by (simp add: field_simps)
qed

lemma welford_ssqdm_step:
  assumes "(n::real) \<ge> 0"
  shows "Q - n * m\<^sup>2 + (x - (m + (x - m) / (n + 1))) * (x - m) =
         (Q + x\<^sup>2) - (n + 1) * (m + (x - m) / (n + 1))\<^sup>2"
proof -
  define t where "t = (x - m) / (n + 1)"
  from assms have "n + 1 \<noteq> 0" by linarith
  then have x: "x = m + (n + 1) * t" by (simp add: t_def)
  have "Q - n * m\<^sup>2 + (x - (m + t)) * (x - m) = (Q + x\<^sup>2) - (n + 1) * (m + t)\<^sup>2"
    unfolding x by (simp add: algebra_simps power2_eq_square)
  then show ?thesis by (simp only: t_def)
qed

lemma welford_step_inv:
  assumes "welford_inv a xs"
  shows "welford_inv (welford_step a x) (xs @ [x])"
proof -
  let ?n = "real (length xs)"
  from assms have a: "nobs a = length xs" "?n * mean a = sum_list xs"
      "ssqdm a = sum_list (map (\<lambda>x. x\<^sup>2) xs) - ?n * (mean a)\<^sup>2"
    by (simp_all add: welford_inv_def)
  have n: "?n \<ge> 0" by simp
  define m' where "m' = mean a + (x - mean a) / (?n + 1)"
  have st: "welford_step a x =
      \<lparr>nobs = Suc (length xs), mean = m', ssqdm = ssqdm a + (x - m') * (x - mean a)\<rparr>"
    by (simp add: welford_step_def Let_def a(1) m'_def)
  have m: "(?n + 1) * m' = sum_list xs + x"
    unfolding m'_def by (rule welford_mean_step [OF n a(2)])
  have q: "ssqdm a + (x - m') * (x - mean a) = (sum_list (map (\<lambda>x. x\<^sup>2) xs) + x\<^sup>2) - (?n + 1) * m'\<^sup>2"
    unfolding a(3) m'_def by (rule welford_ssqdm_step [OF n])
  show ?thesis
    unfolding welford_inv_def st using m q by (simp add: add.commute)
qed

lemma welford_fold_inv: "welford_inv (foldl welford_step acc0 xs) xs"
proof (induction xs rule: rev_induct)
  case Nil
  then show ?case by (simp add: welford_inv_def acc0_def)
next
  case (snoc x xs)
  then show ?case by (simp add: welford_step_inv)
qed

lemma sum_sq_dev:
  "sum_list (map (\<lambda>x. (x - c)\<^sup>2) xs) =
     sum_list (map (\<lambda>x. x\<^sup>2) xs) - 2 * c * sum_list xs + real (length xs) * c\<^sup>2"
  by (induction xs) (simp_all add: power2_eq_square algebra_simps)

lemma var_result_fold: "var_result (foldl welford_step acc0 xs) = sample_var xs"
proof -
  let ?a = "foldl welford_step acc0 xs" and ?n = "real (length xs)"
  have inv: "welford_inv ?a xs" by (rule welford_fold_inv)
  show ?thesis
  proof (cases "length xs \<le> 1")
    case True
    with inv show ?thesis by (simp add: var_result_def sample_var_def welford_inv_def)
  next
    case False
    then have n: "?n \<noteq> 0" by auto
    let ?c = "mean ?a" and ?Q = "sum_list (map (\<lambda>x. x\<^sup>2) xs)"
    from inv have S: "sum_list xs = ?n * ?c" and Q: "ssqdm ?a = ?Q - ?n * ?c\<^sup>2"
      by (simp_all add: welford_inv_def)
    from S n have m: "?c = sample_mean xs"
      by (simp add: sample_mean_def)
    have "sum_list (map (\<lambda>x. (x - ?c)\<^sup>2) xs) = ?Q - 2 * ?c * sum_list xs + ?n * ?c\<^sup>2"
      by (rule sum_sq_dev)
    also have "\<dots> = ssqdm ?a"
      unfolding S Q by (simp add: power2_eq_square)
    finally have "ssqdm ?a = sum_list (map (\<lambda>x. (x - sample_mean xs)\<^sup>2) xs)"
      by (simp add: m)
    with False inv show ?thesis
      by (simp add: var_result_def sample_var_def welford_inv_def)
  qed
qed

lemma group_var_loop_fold:
  "group_var_loop rs accs k = foldl welford_step (accs k) (group_values rs k)"
  by (induction rs arbitrary: accs)
     (auto simp: group_values_def List.map_filter_simps split: option.splits)

section \<open>The aggregated table\<close>

lemma map_Province_group_std: "map Province (group_std rs) = group_keys rs"
  by (simp add: group_std_def comp_def)

lemma set_group_keys: "set (group_keys rs) = GEO ` set rs"
  by (simp add: group_keys_def)

lemma distinct_group_keys: "distinct (group_keys rs)"
  by (simp add: group_keys_def)

lemma sorted_group_keys: "sorted (group_keys rs)"
  by (simp add: group_keys_def)

lemma group_std_Std:
  "r \<in> set (group_std rs) \<Longrightarrow> Std r = sample_std (group_values rs (Province r))"
  by (auto simp: group_std_def group_var_loop_fold var_result_fold sample_std_def)

section \<open>The order of \<open>nargsort\<close>\<close>

lemma is_sort_implD:
  "is_sort_impl srt \<Longrightarrow> mset (srt f xs) = mset xs"
  "is_sort_impl srt \<Longrightarrow> sorted (map f (srt f xs))"
  by (simp_all add: is_sort_impl_def)

lemma sort_key_is_sort_impl: "is_sort_impl sort_key"
  by (simp add: is_sort_impl_def)

lemma mset_nargsort_desc:
  "is_sort_impl srt \<Longrightarrow> mset (nargsort_desc srt key xs) = mset xs"
  by (simp add: nargsort_desc_def is_sort_implD(1) mset_filter_union [of "\<lambda>x. key x \<noteq> None", simplified])

lemma sorted_nargsort_desc:
  assumes srt: "is_sort_impl srt"
  shows "sorted_wrt (desc_nan_last key) (nargsort_desc srt key xs)"
proof -
  let ?f = "\<lambda>x. the (key x)" and ?nn = "filter (\<lambda>x. key x \<noteq> None) xs"
  let ?ys = "srt ?f (rev ?nn)"
  have set_ys: "set ?ys = set ?nn"
    using is_sort_implD(1) [OF srt, of ?f "rev ?nn"] by (metis mset_eq_setD set_rev)
  have "sorted_wrt (\<lambda>a b. ?f a \<le> ?f b) ?ys"
    using is_sort_implD(2) [OF srt] by (simp add: sorted_map)
  then have "sorted_wrt (\<lambda>a b. ?f b \<le> ?f a) (rev ?ys)"
    by (simp add: sorted_wrt_rev)
  then have A: "sorted_wrt (desc_nan_last key) (rev ?ys)"
  proof (rule sorted_wrt_mono_rel [rotated])
    fix a b assume "a \<in> set (rev ?ys)" "b \<in> set (rev ?ys)" "?f b \<le> ?f a"
    then show "desc_nan_last key a b"
      using set_ys by (auto simp: desc_nan_last_def)
  qed
  have B: "sorted_wrt (desc_nan_last key) (filter (\<lambda>x. key x = None) xs)"
    by (rule sorted_wrt_mono_rel [of _ "\<lambda>_ _. True"]) (auto simp: desc_nan_last_def sorted_wrt_iff_nth_less)
  show ?thesis
    using A B by (auto simp: nargsort_desc_def sorted_wrt_append desc_nan_last_def)
qed

lemma rev_sort_key_rev:
  fixes f :: "'a \<Rightarrow> real"
  shows "rev (sort_key f (rev xs)) = sort_key (\<lambda>x. - f x) xs"
proof (rule properties_for_sort_key [symmetric])
  show "mset (rev (sort_key f (rev xs))) = mset xs" by simp
next
  fix k
  have "filter (\<lambda>x. f x = f k) (rev (sort_key f (rev xs))) = filter (\<lambda>x. f x = f k) xs"
    by (simp add: rev_filter [symmetric] sort_key_stable)
  then show "filter (\<lambda>x. - f k = - f x) (rev (sort_key f (rev xs))) = filter (\<lambda>x. - f k = - f x) xs"
    by (simp add: eq_commute [of "f k"])
next
  have "sorted (map f (sort_key f (rev xs)))" by simp
  then show "sorted (map (\<lambda>x. - f x) (rev (sort_key f (rev xs))))"
    by (simp add: sorted_map sorted_wrt_rev)
qed

section \<open>Rescaling the values rescales the statistics\<close>

lemma sample_mean_scale: "sample_mean (map ((*) c) xs) = c * sample_mean xs"
  by (simp add: sample_mean_def sum_list_const_mult)

lemma sample_var_scale:
  "sample_var (map ((*) c) xs) = map_option ((*) (c\<^sup>2)) (sample_var xs)"
proof -
  have "sum_list (map (\<lambda>x. (x - c * sample_mean xs)\<^sup>2) (map ((*) c) xs)) =
        c\<^sup>2 * sum_list (map (\<lambda>x. (x - sample_mean xs)\<^sup>2) xs)"
  proof -
    have "(\<lambda>x. (x - c * sample_mean xs)\<^sup>2) \<circ> (*) c = (\<lambda>x. c\<^sup>2 * (x - sample_mean xs)\<^sup>2)"
      by (rule ext) (simp add: power_mult_distrib [symmetric] right_diff_distrib)
    then show ?thesis
      by (simp add: sum_list_const_mult)
  qed
  then show ?thesis
    by (simp add: sample_var_def sample_mean_scale)
qed

lemma sample_std_scale:
  "0 \<le> c \<Longrightarrow> sample_std (map ((*) c) xs) = map_option ((*) c) (sample_std xs)"
  by (simp add: sample_std_def sample_var_scale option.map_comp comp_def real_sqrt_mult)

text \<open>The values of a group after the rescaling, when no cell overflows.\<close>

lemma group_values_prep_row:
  assumes "\<forall>r \<in> set rs. \<forall>w. Value r = Int64 w \<longrightarrow> \<bar>sint w\<bar> \<le> 9223372036854775"
  shows "group_values (map prep_row rs) k =
           map ((*) 1000) (group_values (map (\<lambda>r. r\<lparr>GEO := rename_pei (GEO r)\<rparr>) rs) k)"
  using assms
  by (induction rs) (auto simp: group_values_def List.map_filter_simps num_value_scale_num
      split: option.splits)

text \<open>The values of P.E.I. after the renaming: the rows of both spellings, rescaled.\<close>

lemma rename_pei_eq_iff: "rename_pei g = ''P.E.I.'' \<longleftrightarrow> g \<in> pei_names"
  by (auto simp: rename_pei_def)

lemma group_values_prep_pei:
  "group_values (map prep_row xs) ''P.E.I.'' =
     List.map_filter (\<lambda>x. if GEO x \<in> pei_names then num_value (scale_num (Value x)) else None) xs"
  unfolding group_values_def
  by (induction xs) (auto simp: List.map_filter_simps rename_pei_eq_iff split: option.split)

section \<open>Properties of the summary table\<close>

lemma mset_Province_summary_table:
  "is_sort_impl srt \<Longrightarrow> mset (map Province (summary_table srt rs)) = mset (group_keys rs)"
  using mset_nargsort_desc [of srt Std "group_std rs"]
  by (simp add: summary_table_def map_Province_group_std [symmetric])

lemma set_Province_summary_table:
  "is_sort_impl srt \<Longrightarrow> Province ` set (summary_table srt rs) = GEO ` set rs"
  by (metis mset_Province_summary_table mset_eq_setD set_group_keys set_map)

text \<open>
  C10: the grouped standard deviation that pandas computes in one pass with Welford's
  update is the two-pass sample variance (denominator \<open>N - 1\<close>) of the province's
  non-missing values, undefined below two values.
\<close>

theorem group_var_loop_sample_var:
  "var_result (group_var_loop rs (\<lambda>_. acc0) k) = sample_var (group_values rs k)"
  by (simp add: group_var_loop_fold var_result_fold)

text \<open>
  C8: the summary has exactly one row per province of the filtered table, whatever
  correct sort numpy uses.
\<close>

theorem summary_table_provinces:
  assumes "is_sort_impl srt"
  shows "distinct (map Province (summary_table srt rs)) \<and>
         set (map Province (summary_table srt rs)) = GEO ` set rs"
  using mset_Province_summary_table [OF assms, of rs]
  by (metis distinct_group_keys mset_eq_setD mset_eq_imp_distinct_iff set_group_keys)

text \<open>
  C9: the rows of the summary are in non-increasing order of \<open>Std\<close>, the provinces
  without a standard deviation last.
\<close>

theorem summary_table_sorted:
  assumes "is_sort_impl srt"
  shows "sorted_wrt (desc_nan_last Std) (summary_table srt rs)"
  unfolding summary_table_def by (rule sorted_nargsort_desc [OF assms])

lemma set_summary_table:
  "is_sort_impl srt \<Longrightarrow> set (summary_table srt rs) = set (group_std rs)"
  by (metis mset_eq_setD mset_nargsort_desc summary_table_def)

text \<open>
  C11: the \<open>Std\<close> of each row of the summary is the sample standard deviation of the
  non-missing values of its province.
\<close>

theorem summary_table_std:
  assumes "is_sort_impl srt" and "r \<in> set (summary_table srt rs)"
  shows "Std r = sample_std (group_values rs (Province r))"
  using assms by (simp add: set_summary_table group_std_Std)

text \<open>
  C25: a province gets a missing \<open>Std\<close> (NaN, not an error) exactly when it has fewer
  than two non-missing values.
\<close>

theorem summary_table_std_missing:
  assumes "is_sort_impl srt" and "r \<in> set (summary_table srt rs)"
  shows "Std r = None \<longleftrightarrow> length (group_values rs (Province r)) < 2"
  using assms by (auto simp: set_summary_table group_std_Std sample_std_def sample_var_def)

text \<open>
  C12: the renaming of line 30 merges the two spellings of Prince Edward Island: the
  summary has no row for the long name, a row for \<^verbatim>\<open>P.E.I.\<close> exactly when a kept row
  has either spelling, and its \<open>Std\<close> is the sample standard deviation of the rescaled
  values of the rows of both spellings together.
\<close>

theorem summary_table_pei_merged:
  assumes "is_sort_impl srt" and "preprocess fr = Inr hp"
  shows "''Prince Edward Island'' \<notin> Province ` set (summary_table srt (rows hp)) \<and>
         (''P.E.I.'' \<in> Province ` set (summary_table srt (rows hp)) \<longleftrightarrow>
            (\<exists>x \<in> set (filter query_keep (rows fr)). GEO x \<in> pei_names)) \<and>
         (\<forall>r \<in> set (summary_table srt (rows hp)). Province r = ''P.E.I.'' \<longrightarrow>
            Std r = sample_std (List.map_filter
              (\<lambda>x. if GEO x \<in> pei_names then num_value (scale_num (Value x)) else None)
              (filter query_keep (rows fr))))"
proof -
  have rs: "rows hp = map prep_row (filter query_keep (rows fr))"
    using preprocess_InrD [OF assms(2)] by simp
  have prov: "Province ` set (summary_table srt (rows hp)) =
      rename_pei ` GEO ` set (filter query_keep (rows fr))"
    by (simp add: set_Province_summary_table [OF assms(1)] rs image_image prep_row_def)
  have std: "Std r = sample_std (group_values (rows hp) (Province r))"
    if "r \<in> set (summary_table srt (rows hp))" for r
    using that by (simp add: set_summary_table [OF assms(1)] group_std_Std)
  have "''Prince Edward Island'' \<notin> Province ` set (summary_table srt (rows hp))"
    by (auto simp: prov rename_pei_def)
  moreover have "''P.E.I.'' \<in> Province ` set (summary_table srt (rows hp)) \<longleftrightarrow>
      (\<exists>x \<in> set (filter query_keep (rows fr)). GEO x \<in> pei_names)"
    unfolding prov image_image image_iff by (metis rename_pei_eq_iff)
  moreover have "Std r = sample_std (List.map_filter
      (\<lambda>x. if GEO x \<in> pei_names then num_value (scale_num (Value x)) else None)
      (filter query_keep (rows fr)))"
    if "r \<in> set (summary_table srt (rows hp))" and "Province r = ''P.E.I.''" for r
    using std [OF that(1)] that(2) by (simp add: rs group_values_prep_pei)
  ultimately show ?thesis
    by blast
qed

section \<open>Witnesses\<close>

lemmas summary_eval = summary_example_def group_std_def group_keys_def group_var_loop.simps
  welford_step_def acc0_def var_result_def

lemma summary_example_table:
  "summary_table sort_key summary_example =
     [\<lparr>Province = ''Ontario'', Std = Some (sqrt 2000000)\<rparr>, \<lparr>Province = ''P.E.I.'', Std = None\<rparr>]"
  by (simp add: summary_table_def nargsort_desc_def summary_eval)

theorem summary_table_provinces_witness:
  "is_sort_impl (sort_key :: sd_row sorter) \<and>
   distinct (map Province (summary_table sort_key summary_example)) \<and>
   set (map Province (summary_table sort_key summary_example)) = GEO ` set summary_example"
  using summary_table_provinces [OF sort_key_is_sort_impl, of summary_example] sort_key_is_sort_impl
  by simp

theorem summary_table_sorted_witness:
  "is_sort_impl (sort_key :: sd_row sorter) \<and>
   sorted_wrt (desc_nan_last Std) (summary_table sort_key summary_example)"
  using summary_table_sorted [OF sort_key_is_sort_impl, of summary_example] sort_key_is_sort_impl
  by simp

theorem summary_table_std_witness:
  "is_sort_impl (sort_key :: sd_row sorter) \<and>
   \<lparr>Province = ''Ontario'', Std = Some (sqrt 2000000)\<rparr> \<in> set (summary_table sort_key summary_example) \<and>
   sample_std (group_values summary_example ''Ontario'') = Some (sqrt 2000000)"
proof -
  have mem: "\<lparr>Province = ''Ontario'', Std = Some (sqrt 2000000)\<rparr> \<in> set (summary_table sort_key summary_example)"
    by (simp add: summary_example_table)
  show ?thesis
    using summary_table_std [OF sort_key_is_sort_impl mem] sort_key_is_sort_impl mem by simp
qed

theorem summary_table_std_missing_witness:
  "is_sort_impl (sort_key :: sd_row sorter) \<and>
   \<lparr>Province = ''P.E.I.'', Std = None\<rparr> \<in> set (summary_table sort_key summary_example) \<and>
   length (group_values summary_example ''P.E.I.'') < 2"
proof -
  have mem: "\<lparr>Province = ''P.E.I.'', Std = None\<rparr> \<in> set (summary_table sort_key summary_example)"
    by (simp add: summary_example_table)
  show ?thesis
    using summary_table_std_missing [OF sort_key_is_sort_impl mem] sort_key_is_sort_impl mem by simp
qed

lemma pei_example_preprocess:
  "preprocess pei_example =
     Inr \<lparr>columns = columns pei_example, rows = map prep_row (filter query_keep (rows pei_example))\<rparr>"
  by (rule preprocess_ok) (simp add: pei_example_def)

lemma pei_example_table:
  "summary_table sort_key (map prep_row (filter query_keep (rows pei_example))) =
     [\<lparr>Province = ''P.E.I.'', Std = Some (sqrt 2000000)\<rparr>, \<lparr>Province = ''Ontario'', Std = None\<rparr>]"
  by (simp add: pei_example_def loader_eval summary_table_def nargsort_desc_def summary_eval)

theorem summary_table_pei_merged_witness:
  "is_sort_impl (sort_key :: sd_row sorter) \<and>
   preprocess pei_example =
     Inr \<lparr>columns = columns pei_example, rows = map prep_row (filter query_keep (rows pei_example))\<rparr> \<and>
   summary_table sort_key (map prep_row (filter query_keep (rows pei_example))) =
     [\<lparr>Province = ''P.E.I.'', Std = Some (sqrt 2000000)\<rparr>, \<lparr>Province = ''Ontario'', Std = None\<rparr>] \<and>
   sample_std (List.map_filter (\<lambda>x. if GEO x \<in> pei_names then num_value (scale_num (Value x)) else None)
     (filter query_keep (rows pei_example))) = Some (sqrt 2000000)"
proof -
  note m = summary_table_pei_merged [OF sort_key_is_sort_impl pei_example_preprocess]
  have "Std \<lparr>Province = ''P.E.I.'', Std = Some (sqrt 2000000)\<rparr> =
     sample_std (List.map_filter (\<lambda>x. if GEO x \<in> pei_names then num_value (scale_num (Value x)) else None)
       (filter query_keep (rows pei_example)))"
    using conjunct2 [OF conjunct2 [OF m]] by (simp add: pei_example_table)
  then show ?thesis
    using sort_key_is_sort_impl pei_example_preprocess pei_example_table by simp
qed

end
