(* ===== verification/Charts.thy ===== *)
theory Charts
  imports Summary
begin

text \<open>
  The two Altair charts of \<^verbatim>\<open>generate_figures.py\<close> (lines 35--45 and 54--64) as the
  chart specifications the script builds: data, mark, the two encodings with their
  titles, the chart title and, for the first chart, the facet by province in three
  columns. Rendering the specification to pixels is Altair's and vl-convert's work and
  is not modelled; the panels a faceted chart shows are (Vega-Lite sorts the facet
  values ascending by default).
\<close>

section \<open>Chart specifications\<close>

datatype mark = Line

datatype field_type = Temporal | Quantitative | Nominal

record channel =
  enc_field :: string
  enc_type :: field_type
  enc_title :: "string option"

record chart =
  chart_data :: "string obs list"
  chart_mark :: mark
  chart_x :: channel
  chart_y :: channel
  chart_title :: string

datatype chart_spec = Single chart | Faceted chart channel nat

text \<open>\<^verbatim>\<open>alt.X('Ref_Date:T', title="Year")\<close> and \<^verbatim>\<open>alt.Y('Value:Q', title="Number of horses")\<close>.\<close>

definition year_x :: channel where
  "year_x = \<lparr>enc_field = ''Ref_Date'', enc_type = Temporal, enc_title = Some ''Year''\<rparr>"

definition horses_y :: channel where
  "horses_y = \<lparr>enc_field = ''Value'', enc_type = Quantitative, enc_title = Some ''Number of horses''\<rparr>"

text \<open>Lines 35--43: the line chart of the whole table, faceted by \<^verbatim>\<open>'GEO:N'\<close> in 3 columns.\<close>

definition primary_chart :: "string frame \<Rightarrow> chart_spec" where
  "primary_chart hp =
     Faceted \<lparr>chart_data = rows hp, chart_mark = Line, chart_x = year_x, chart_y = horses_y,
              chart_title = ''Historical number of horses per province in Canada''\<rparr>
       \<lparr>enc_field = ''GEO'', enc_type = Nominal, enc_title = None\<rparr> 3"

text \<open>The text value of a row in a field used as a facet (the text columns of the table).\<close>

definition text_field :: "string \<Rightarrow> string obs \<Rightarrow> string" where
  "text_field f r =
     (if f = ''GEO'' then GEO r else if f = ''DATE'' then DATE r
      else if f = ''Ref_Date'' then Ref_Date r else [])"

text \<open>The panels a specification shows: one per facet value, in ascending order, each with its rows.\<close>

fun chart_panels :: "chart_spec \<Rightarrow> (string \<times> string obs list) list" where
  "chart_panels (Single c) = [(chart_title c, chart_data c)]"
| "chart_panels (Faceted c f n) =
     map (\<lambda>v. (v, filter (\<lambda>r. text_field (enc_field f) r = v) (chart_data c)))
       (sort (remdups (map (text_field (enc_field f)) (chart_data c))))"

section \<open>The province with the largest standard deviation\<close>

text \<open>
  Line 54: \<^verbatim>\<open>horses_sd.iloc[0]['Province']\<close>, the first row of the sorted summary;
  \<^verbatim>\<open>iloc[0]\<close> of an empty table raises \<^verbatim>\<open>IndexError\<close>.
\<close>

definition iloc0_province :: "sd_row list \<Rightarrow> py_error + string" where
  "iloc0_province t = (case t of [] \<Rightarrow> Inl IndexError | r # _ \<Rightarrow> Inr (Province r))"

text \<open>Line 55: the rows of that province.\<close>

definition rows_of_province :: "string \<Rightarrow> string frame \<Rightarrow> string frame" where
  "rows_of_province p hp = hp\<lparr>rows := filter (\<lambda>r. GEO r = p) (rows hp)\<rparr>"

text \<open>Lines 57--62: the single line chart of that province, its name in the title.\<close>

definition secondary_chart :: "string \<Rightarrow> string frame \<Rightarrow> chart_spec" where
  "secondary_chart p hp =
     Single \<lparr>chart_data = rows (rows_of_province p hp), chart_mark = Line,
             chart_x = year_x, chart_y = horses_y,
             chart_title = ''Historical number of horses in '' @ p\<rparr>"

text \<open>
  A filtered table with a tie: Alberta and Ontario have the same standard deviation,
  Quebec a smaller one, P.E.I. a single value.
\<close>

definition tie_example :: "string obs list" where
  "tie_example =
     [\<lparr>GEO = ''Ontario'', DATE = ''At June 1 (x 1,000)'', Ref_Date = ''2019'', Value = Int64 10000\<rparr>,
      \<lparr>GEO = ''Ontario'', DATE = ''At June 1 (x 1,000)'', Ref_Date = ''2020'', Value = Int64 12000\<rparr>,
      \<lparr>GEO = ''Quebec'', DATE = ''At June 1 (x 1,000)'', Ref_Date = ''2019'', Value = Int64 5000\<rparr>,
      \<lparr>GEO = ''Quebec'', DATE = ''At June 1 (x 1,000)'', Ref_Date = ''2020'', Value = Int64 6000\<rparr>,
      \<lparr>GEO = ''Alberta'', DATE = ''At June 1 (x 1,000)'', Ref_Date = ''2019'', Value = Int64 1000\<rparr>,
      \<lparr>GEO = ''Alberta'', DATE = ''At June 1 (x 1,000)'', Ref_Date = ''2020'', Value = Int64 3000\<rparr>,
      \<lparr>GEO = ''P.E.I.'', DATE = ''At June 1 (x 1,000)'', Ref_Date = ''2019'', Value = Int64 1000\<rparr>]"

section \<open>Properties\<close>

subsection \<open>The first element of a stable sort\<close>

lemma sort_key_hd_filter:
  assumes "sort_key f xs = y # ys"
  shows "filter (\<lambda>z. f z = f y) xs = y # filter (\<lambda>z. f z = f y) ys"
proof -
  have "filter (\<lambda>z. f z = f y) (sort_key f xs) = filter (\<lambda>z. f z = f y) xs"
    by (rule sort_key_stable)
  then show ?thesis
    using assms by simp
qed

lemma sorted_map_hd_le:
  "sorted (map f (x # xs)) \<Longrightarrow> z \<in> set (x # xs) \<Longrightarrow> f x \<le> f z"
  by auto

subsection \<open>The selected province\<close>

lemma summary_table_Nil_iff:
  assumes "is_sort_impl srt"
  shows "summary_table srt rs = [] \<longleftrightarrow> rs = []"
proof -
  have "summary_table srt rs = [] \<longleftrightarrow> map Province (summary_table srt rs) = []"
    by simp
  also have "\<dots> \<longleftrightarrow> group_keys rs = []"
    using mset_Province_summary_table [OF assms, of rs] by (metis mset_zero_iff)
  also have "\<dots> \<longleftrightarrow> rs = []"
    by (metis image_is_empty set_empty set_group_keys)
  finally show ?thesis .
qed

text \<open>
  C26: the script stops with \<^verbatim>\<open>IndexError\<close> at line 54 exactly when the filtered table
  is empty, and otherwise selects a province of the table.
\<close>

theorem iloc0_summary_table:
  assumes "is_sort_impl srt"
  shows "(iloc0_province (summary_table srt rs) = Inl IndexError \<longleftrightarrow> rs = []) \<and>
         (\<forall>p. iloc0_province (summary_table srt rs) = Inr p \<longrightarrow> p \<in> GEO ` set rs)"
  using set_Province_summary_table [OF assms, of rs] summary_table_Nil_iff [OF assms, of rs]
  by (auto simp: iloc0_province_def split: list.splits)

lemma hd_summary_table_max:
  assumes "is_sort_impl srt" and "summary_table srt rs = h # t"
    and "r \<in> set (group_std rs)" and "Std r = Some y"
  shows "\<exists>x. Std h = Some x \<and> y \<le> x"
proof -
  have "sorted_wrt (desc_nan_last Std) (h # t)"
    using sorted_nargsort_desc [OF assms(1)] assms(2) by (metis summary_table_def)
  moreover have "r \<in> set (h # t)"
    using assms(2,3) set_summary_table [OF assms(1)] by metis
  ultimately have "r = h \<or> desc_nan_last Std h r"
    by auto
  then show ?thesis
    using assms(4) by (auto simp: desc_nan_last_def split: option.splits)
qed

lemma group_std_row:
  assumes "q \<in> GEO ` set rs"
  shows "\<exists>r \<in> set (group_std rs). Province r = q"
proof -
  have "q \<in> set (map Province (group_std rs))"
    using assms by (simp only: map_Province_group_std set_group_keys)
  then show ?thesis
    by auto
qed

text \<open>
  C15: the selected province has the largest standard deviation: whenever some
  province of the table has one, the selected province has one at least as large.
\<close>

theorem iloc0_largest_std:
  assumes "is_sort_impl srt" and "iloc0_province (summary_table srt rs) = Inr p"
    and "q \<in> GEO ` set rs" and "sample_std (group_values rs q) = Some y"
  shows "\<exists>x. sample_std (group_values rs p) = Some x \<and> y \<le> x"
proof -
  obtain h t where ht: "summary_table srt rs = h # t" and p: "Province h = p"
    using assms(2) by (auto simp: iloc0_province_def split: list.splits)
  obtain r where r: "r \<in> set (group_std rs)" "Province r = q"
    using group_std_row [OF assms(3)] by blast
  with assms(4) have "Std r = Some y" by (simp add: group_std_Std)
  with hd_summary_table_max [OF assms(1) ht r(1)] obtain x where "Std h = Some x" "y \<le> x"
    by blast
  moreover have "h \<in> set (group_std rs)"
    using ht set_summary_table [OF assms(1)] by (metis list.set_intros(1))
  ultimately show ?thesis
    using p by (auto simp: group_std_Std)
qed

lemma hd_summary_table_sort_key:
  assumes "summary_table sort_key rs = h # t"
  shows "\<exists>w. filter (\<lambda>z. Std z = Std h) (group_std rs) = h # w"
proof -
  let ?G = "group_std rs" and ?g = "\<lambda>z. - the (Std z)"
  let ?D = "filter (\<lambda>z. Std z \<noteq> None) ?G" and ?U = "filter (\<lambda>z. Std z = None) ?G"
  have tab: "summary_table sort_key rs = sort_key ?g ?D @ ?U"
    by (simp add: summary_table_def nargsort_desc_def rev_sort_key_rev)
  show ?thesis
  proof (cases "sort_key ?g ?D")
    case Nil
    with tab assms have U: "?U = h # t" by simp
    then have "h \<in> set ?U" by simp
    then have "Std h = None" by simp
    with U have "filter (\<lambda>z. Std z = Std h) ?G = h # t" by simp
    then show ?thesis by blast
  next
    case (Cons h' t')
    with tab assms have h: "sort_key ?g ?D = h # t'" by simp
    then have "h \<in> set (sort_key ?g ?D)" by simp
    then obtain x where x: "Std h = Some x" by auto
    have "filter (\<lambda>z. ?g z = ?g h) ?D = filter (\<lambda>z. Std z = Std h) ?G"
      unfolding filter_filter by (rule filter_cong) (auto simp: x)
    then have "filter (\<lambda>z. Std z = Std h) ?G = h # filter (\<lambda>z. ?g z = ?g h) t'"
      using sort_key_hd_filter [OF h] by simp
    then show ?thesis by blast
  qed
qed

text \<open>
  C27: with a stable argsort, ties are broken by the order of the groups: the selected
  province comes first in alphabetical order among the provinces with the same
  standard deviation (or, when no province has one, among all provinces).
\<close>

theorem iloc0_tie_break:
  assumes "iloc0_province (summary_table sort_key rs) = Inr p"
    and "q \<in> GEO ` set rs" and "sample_std (group_values rs q) = sample_std (group_values rs p)"
  shows "p \<le> q"
proof -
  obtain h t where ht: "summary_table sort_key rs = h # t" and p: "Province h = p"
    using assms(1) by (auto simp: iloc0_province_def split: list.splits)
  obtain w where w: "filter (\<lambda>z. Std z = Std h) (group_std rs) = h # w"
    using hd_summary_table_sort_key [OF ht] by blast
  have "h \<in> set (group_std rs)"
    using ht set_summary_table [OF sort_key_is_sort_impl] by (metis list.set_intros(1))
  then have stdh: "Std h = sample_std (group_values rs p)"
    using p by (simp add: group_std_Std)
  obtain r where r: "r \<in> set (group_std rs)" "Province r = q"
    using group_std_row [OF assms(2)] by blast
  then have "Std r = Std h"
    using assms(3) stdh by (simp add: group_std_Std)
  with r(1) have "r \<in> set (filter (\<lambda>z. Std z = Std h) (group_std rs))"
    by simp
  then have mem: "r \<in> set (h # w)"
    by (simp only: w)
  have "sorted (map Province (filter (\<lambda>z. Std z = Std h) (group_std rs)))"
    by (rule sorted_filter) (simp add: map_Province_group_std sorted_group_keys)
  then have srt: "sorted (map Province (h # w))"
    by (simp only: w)
  have "Province h \<le> Province r"
    by (rule sorted_map_hd_le [OF srt mem])
  then show ?thesis
    by (simp only: p r(2))
qed

subsection \<open>Witnesses\<close>

lemma tie_example_table:
  "summary_table sort_key tie_example =
     [\<lparr>Province = ''Alberta'', Std = Some (sqrt 2000000)\<rparr>, \<lparr>Province = ''Ontario'', Std = Some (sqrt 2000000)\<rparr>,
      \<lparr>Province = ''Quebec'', Std = Some (sqrt 500000)\<rparr>, \<lparr>Province = ''P.E.I.'', Std = None\<rparr>]"
  by (simp add: summary_table_def nargsort_desc_def tie_example_def group_std_def group_keys_def
      welford_step_def acc0_def var_result_def)

lemma tie_example_std:
  "sample_std (group_values tie_example ''Alberta'') = Some (sqrt 2000000)"
  "sample_std (group_values tie_example ''Ontario'') = Some (sqrt 2000000)"
  "sample_std (group_values tie_example ''Quebec'') = Some (sqrt 500000)"
  by (simp_all add: tie_example_def group_values_def sample_std_def sample_var_def sample_mean_def
      List.map_filter_simps)

theorem iloc0_summary_table_witness:
  "is_sort_impl (sort_key :: sd_row sorter) \<and> tie_example \<noteq> [] \<and>
   iloc0_province (summary_table sort_key tie_example) \<noteq> Inl IndexError \<and>
   iloc0_province (summary_table sort_key tie_example) = Inr ''Alberta'' \<and>
   ''Alberta'' \<in> GEO ` set tie_example"
proof -
  have sel: "iloc0_province (summary_table sort_key tie_example) = Inr ''Alberta''"
    by (simp add: tie_example_table iloc0_province_def)
  have ne: "tie_example \<noteq> []"
    by (simp add: tie_example_def)
  have "(iloc0_province (summary_table sort_key tie_example) = Inl IndexError \<longleftrightarrow> tie_example = []) \<and>
        (\<forall>p. iloc0_province (summary_table sort_key tie_example) = Inr p \<longrightarrow> p \<in> GEO ` set tie_example)"
    by (rule iloc0_summary_table [OF sort_key_is_sort_impl])
  with sel ne show ?thesis
    using sort_key_is_sort_impl by simp
qed

theorem iloc0_largest_std_witness:
  "is_sort_impl (sort_key :: sd_row sorter) \<and>
   iloc0_province (summary_table sort_key tie_example) = Inr ''Alberta'' \<and>
   ''Quebec'' \<in> GEO ` set tie_example \<and>
   sample_std (group_values tie_example ''Quebec'') = Some (sqrt 500000) \<and>
   (\<exists>x. sample_std (group_values tie_example ''Alberta'') = Some x \<and> sqrt 500000 \<le> x)"
proof -
  have sel: "iloc0_province (summary_table sort_key tie_example) = Inr ''Alberta''"
    by (simp add: tie_example_table iloc0_province_def)
  have q: "''Quebec'' \<in> GEO ` set tie_example"
    by (simp add: tie_example_def)
  show ?thesis
    using iloc0_largest_std [OF sort_key_is_sort_impl sel q tie_example_std(3)]
      sort_key_is_sort_impl sel q tie_example_std(3) by simp
qed

theorem iloc0_tie_break_witness:
  "iloc0_province (summary_table sort_key tie_example) = Inr ''Alberta'' \<and>
   ''Ontario'' \<in> GEO ` set tie_example \<and>
   sample_std (group_values tie_example ''Ontario'') = sample_std (group_values tie_example ''Alberta'') \<and>
   ''Alberta'' \<le> ''Ontario''"
proof -
  have sel: "iloc0_province (summary_table sort_key tie_example) = Inr ''Alberta''"
    by (simp add: tie_example_table iloc0_province_def)
  have q: "''Ontario'' \<in> GEO ` set tie_example"
    by (simp add: tie_example_def)
  have eq: "sample_std (group_values tie_example ''Ontario'') = sample_std (group_values tie_example ''Alberta'')"
    by (simp add: tie_example_std)
  show ?thesis
    using iloc0_tie_break [OF sel q eq] sel q eq by blast
qed

end
