(* ===== verification/FileSystem.thy ===== *)
theory FileSystem
  imports Prelude
begin

text \<open>
  The file system the script touches, and the directory ensurer
  \<^verbatim>\<open>create_dir_if_not_exists\<close> (\<^verbatim>\<open>generate_figures.py\<close>, lines 16--18) with
  \<^verbatim>\<open>os.makedirs\<close>, which it calls. The state is the set of directories and a map from
  the paths of plain files to their contents; the contents are a type parameter \<open>'c\<close>,
  fixed by the pipeline. The operations follow POSIX: a path is looked up through its
  ancestors, a plain file among them gives \<^verbatim>\<open>NotADirectoryError\<close>, a missing parent
  \<^verbatim>\<open>FileNotFoundError\<close>, an existing target of \<^verbatim>\<open>mkdir\<close> \<^verbatim>\<open>FileExistsError\<close>, a
  directory opened for writing \<^verbatim>\<open>IsADirectoryError\<close>. Permissions, symbolic links and
  other processes are not modelled.
\<close>

section \<open>State and operations\<close>

record 'c fs =
  dirs :: "path set"
  files :: "path \<rightharpoonup> 'c"

text \<open>The proper ancestors of a path, from the current directory down to its parent.\<close>

definition ancestors :: "path \<Rightarrow> path list" where
  "ancestors p = map (\<lambda>i. take i p) [0..<length p]"

text \<open>\<^verbatim>\<open>os.path.exists\<close>.\<close>

definition path_exists :: "'c fs \<Rightarrow> path \<Rightarrow> bool" where
  "path_exists s p \<longleftrightarrow> p \<in> dirs s \<or> p \<in> dom (files s)"

definition under_file :: "'c fs \<Rightarrow> path \<Rightarrow> bool" where
  "under_file s p \<longleftrightarrow> (\<exists>q \<in> set (ancestors p). q \<in> dom (files s))"

text \<open>\<^verbatim>\<open>os.mkdir\<close>: the parent is resolved first, then the target must not exist.\<close>

definition mkdir :: "path \<Rightarrow> ('c fs, unit) prog" where
  "mkdir p s =
     (if under_file s p then (Inl (NotADirectoryError p), s)
      else if butlast p \<notin> dirs s then (Inl (FileNotFoundError p), s)
      else if path_exists s p then (Inl (FileExistsError p), s)
      else (Inr (), s\<lparr>dirs := insert p (dirs s)\<rparr>))"

text \<open>
  \<^verbatim>\<open>os.makedirs(name)\<close> (\<^verbatim>\<open>exist_ok=False\<close>): if the parent does not exist, make it
  first, ignoring a \<^verbatim>\<open>FileExistsError\<close> from that call; then \<^verbatim>\<open>mkdir(name)\<close>.
  A path of one component has no parent to make (\<^verbatim>\<open>head\<close> is empty).
\<close>

function makedirs :: "path \<Rightarrow> ('c fs, unit) prog" where
  "makedirs p s =
     (if p \<noteq> [] \<and> butlast p \<noteq> [] \<and> \<not> path_exists s (butlast p) then
        (case makedirs (butlast p) s of
           (Inl (FileExistsError _), s') \<Rightarrow> mkdir p s'
         | (Inl e, s') \<Rightarrow> (Inl e, s')
         | (Inr _, s') \<Rightarrow> mkdir p s')
      else mkdir p s)"
  by pat_completeness auto
termination
  by (relation "measure (\<lambda>(p, s). length p)") auto

declare makedirs.simps [simp del]

text \<open>Lines 16--18.\<close>

definition create_dir_if_not_exists :: "path \<Rightarrow> ('c fs, unit) prog" where
  "create_dir_if_not_exists d s = (if \<not> path_exists s d then makedirs d s else (Inr (), s))"

text \<open>
  Opening a file for writing and writing it whole, as \<^verbatim>\<open>chart.save\<close> and
  \<^verbatim>\<open>to_csv\<close> do: an existing file is overwritten.
\<close>

definition write_file :: "path \<Rightarrow> 'c \<Rightarrow> ('c fs, unit) prog" where
  "write_file p c s =
     (if under_file s p then (Inl (NotADirectoryError p), s)
      else if butlast p \<notin> dirs s then (Inl (FileNotFoundError p), s)
      else if p = [] \<or> p \<in> dirs s then (Inl (IsADirectoryError p), s)
      else (Inr (), s\<lparr>files := (files s)(p \<mapsto> c)\<rparr>))"

text \<open>Opening a file for reading.\<close>

definition read_file :: "path \<Rightarrow> ('c fs, 'c) prog" where
  "read_file p s =
     (case files s p of
        Some c \<Rightarrow> (Inr c, s)
      | None \<Rightarrow>
          if under_file s p then (Inl (NotADirectoryError p), s)
          else if p \<in> dirs s then (Inl (IsADirectoryError p), s)
          else (Inl (FileNotFoundError p), s))"

section \<open>Well-formed file systems\<close>

text \<open>
  The current directory exists; no path is both a directory and a file; the parent of
  every other directory and of every file is a directory.
\<close>

definition fs_wf :: "'c fs \<Rightarrow> bool" where
  "fs_wf s \<longleftrightarrow>
     [] \<in> dirs s \<and> dirs s \<inter> dom (files s) = {} \<and>
     (\<forall>p \<in> dirs s. p \<noteq> [] \<longrightarrow> butlast p \<in> dirs s) \<and>
     (\<forall>p \<in> dom (files s). butlast p \<in> dirs s)"

text \<open>The non-empty prefixes of a path: the directories \<^verbatim>\<open>makedirs\<close> leaves behind.\<close>

definition nonempty_prefixes :: "path \<Rightarrow> path set" where
  "nonempty_prefixes p = set (map (\<lambda>i. take i p) [1..<Suc (length p)])"

text \<open>Two small file systems: an empty working directory, and one holding a plain file \<^verbatim>\<open>out\<close>.\<close>

definition empty_fs :: "'c fs" where
  "empty_fs = \<lparr>dirs = {[]}, files = Map.empty\<rparr>"

definition file_in_way_fs :: "'c \<Rightarrow> 'c fs" where
  "file_in_way_fs c = \<lparr>dirs = {[]}, files = [[''out''] \<mapsto> c]\<rparr>"

section \<open>Properties\<close>

subsection \<open>Paths\<close>

lemma ancestors_snoc: "ancestors (xs @ [x]) = ancestors xs @ [xs]"
  by (simp add: ancestors_def)

lemma ancestors_butlast:
  "p \<noteq> [] \<Longrightarrow> ancestors p = ancestors (butlast p) @ [butlast p]"
  by (metis ancestors_snoc append_butlast_last_id)

lemma nonempty_prefixes_snoc:
  "nonempty_prefixes (xs @ [x]) = insert (xs @ [x]) (nonempty_prefixes xs)"
proof -
  have "map (\<lambda>i. take i (xs @ [x])) [1..<Suc (length xs)] = map (\<lambda>i. take i xs) [1..<Suc (length xs)]"
    by (rule map_cong) auto
  then show ?thesis
    by (simp add: nonempty_prefixes_def)
qed

lemma nonempty_prefixes_butlast:
  "p \<noteq> [] \<Longrightarrow> nonempty_prefixes p = insert p (nonempty_prefixes (butlast p))"
  by (metis nonempty_prefixes_snoc append_butlast_last_id)

lemma nonempty_prefixes_Nil [simp]: "nonempty_prefixes [] = {}"
  by (simp add: nonempty_prefixes_def)

lemma length_nonempty_prefixes: "q \<in> nonempty_prefixes p \<Longrightarrow> length q \<le> length p"
  by (auto simp: nonempty_prefixes_def)

subsection \<open>Well-formed file systems\<close>

lemma fs_wfD:
  assumes "fs_wf s"
  shows "[] \<in> dirs s" "p \<in> dirs s \<Longrightarrow> p \<notin> dom (files s)"
    "p \<in> dirs s \<Longrightarrow> p \<noteq> [] \<Longrightarrow> butlast p \<in> dirs s"
    "p \<in> dom (files s) \<Longrightarrow> butlast p \<in> dirs s"
  using assms by (auto simp: fs_wf_def)

lemma wf_dir_ancestors:
  assumes "fs_wf s" and "p \<in> dirs s"
  shows "set (ancestors p) \<subseteq> dirs s \<and> nonempty_prefixes p \<subseteq> dirs s"
  using assms(2)
proof (induction p rule: rev_induct)
  case Nil
  then show ?case by (simp add: ancestors_def)
next
  case (snoc x xs)
  then have "xs \<in> dirs s" using fs_wfD(3) [OF assms(1), of "xs @ [x]"] by simp
  with snoc show ?case by (simp add: ancestors_snoc nonempty_prefixes_snoc)
qed

lemma wf_exists_not_under_file:
  assumes "fs_wf s" and "path_exists s p"
  shows "\<not> under_file s p"
proof -
  have "set (ancestors p) \<subseteq> dirs s"
  proof (cases "p \<in> dirs s")
    case True
    then show ?thesis using wf_dir_ancestors [OF assms(1)] by blast
  next
    case False
    with assms(2) have f: "p \<in> dom (files s)" by (simp add: path_exists_def)
    then have "p \<noteq> []" using fs_wfD(1,2) [OF assms(1)] by blast
    moreover have "butlast p \<in> dirs s" using fs_wfD(4) [OF assms(1) f] .
    ultimately show ?thesis
      using wf_dir_ancestors [OF assms(1)] by (simp add: ancestors_butlast)
  qed
  then show ?thesis
    using fs_wfD(2) [OF assms(1)] by (auto simp: under_file_def)
qed

lemma under_file_butlast:
  "p \<noteq> [] \<Longrightarrow> under_file s p \<longleftrightarrow> under_file s (butlast p) \<or> butlast p \<in> dom (files s)"
  by (auto simp: under_file_def ancestors_butlast)

subsection \<open>Each operation keeps the file system well formed\<close>

lemma mkdir_wf:
  assumes "fs_wf s" and "mkdir p s = (r, s')"
  shows "fs_wf s'"
proof (cases "under_file s p \<or> butlast p \<notin> dirs s \<or> path_exists s p")
  case True
  with assms(2) have "s' = s" by (auto simp: mkdir_def split: if_splits)
  with assms(1) show ?thesis by simp
next
  case False
  with assms(2) have s': "s' = s\<lparr>dirs := insert p (dirs s)\<rparr>" by (auto simp: mkdir_def)
  from False have "p \<notin> dom (files s)" "butlast p \<in> dirs s" by (auto simp: path_exists_def)
  with assms(1) show ?thesis unfolding s' fs_wf_def by auto
qed

lemma mkdir_files: "mkdir p s = (r, s') \<Longrightarrow> files s' = files s"
  by (auto simp: mkdir_def split: if_splits)

lemma makedirs_wf: "fs_wf s \<Longrightarrow> makedirs p s = (r, s') \<Longrightarrow> fs_wf s'"
proof (induction p s arbitrary: r s' rule: makedirs.induct)
  case (1 p s)
  show ?case
  proof (cases "p \<noteq> [] \<and> butlast p \<noteq> [] \<and> \<not> path_exists s (butlast p)")
    case True
    obtain r1 s1 where m1: "makedirs (butlast p) s = (r1, s1)" by fastforce
    with "1.IH" [OF True "1.prems"(1)] have "fs_wf s1" by blast
    with "1.prems"(2) True m1 show ?thesis
      by (auto simp: makedirs.simps [of p] mkdir_wf split: sum.splits py_error.splits)
  next
    case False
    with "1.prems" show ?thesis
      by (auto simp: makedirs.simps [of p] mkdir_wf)
  qed
qed

lemma write_file_wf:
  assumes "fs_wf s" and "write_file p c s = (r, s')"
  shows "fs_wf s'"
  using assms by (auto simp: write_file_def fs_wf_def split: if_splits)

lemma read_file_state: "read_file p s = (r, s') \<Longrightarrow> s' = s"
  by (auto simp: read_file_def split: option.splits if_splits)

subsection \<open>What \<open>makedirs\<close> does\<close>

lemma under_file_dirs_update [simp]: "under_file (s\<lparr>dirs := X\<rparr>) p = under_file s p"
  by (simp add: under_file_def)

lemma self_nonempty_prefixes: "p \<noteq> [] \<Longrightarrow> p \<in> nonempty_prefixes p"
  by (simp add: nonempty_prefixes_butlast)

lemma nonempty_prefixes_butlast_subset: "nonempty_prefixes (butlast p) \<subseteq> nonempty_prefixes p"
  by (cases "p = []") (auto simp: nonempty_prefixes_butlast)

text \<open>
  What a call may change, whether it succeeds or fails: no file, and no directory
  but prefixes of its argument, which it only adds.
\<close>

lemma mkdir_frame:
  "mkdir q s = (r, s') \<Longrightarrow>
   files s' = files s \<and> dirs s \<subseteq> dirs s' \<and> dirs s' \<subseteq> dirs s \<union> nonempty_prefixes q"
  by (cases "q = []") (auto simp: mkdir_def path_exists_def self_nonempty_prefixes split: if_splits)

lemma makedirs_frame:
  "makedirs p s = (r, s') \<Longrightarrow>
   files s' = files s \<and> dirs s \<subseteq> dirs s' \<and> dirs s' \<subseteq> dirs s \<union> nonempty_prefixes p"
proof (induction p s arbitrary: r s' rule: makedirs.induct)
  case (1 p s)
  show ?case
  proof (cases "p \<noteq> [] \<and> butlast p \<noteq> [] \<and> \<not> path_exists s (butlast p)")
    case True
    obtain r1 s1 where m1: "makedirs (butlast p) s = (r1, s1)" by fastforce
    with "1.IH" [OF True] nonempty_prefixes_butlast_subset [of p]
    have f1: "files s1 = files s \<and> dirs s \<subseteq> dirs s1 \<and> dirs s1 \<subseteq> dirs s \<union> nonempty_prefixes p"
      by blast
    from "1.prems" True m1 have "s' = s1 \<or> mkdir p s1 = (r, s')"
      by (auto simp: makedirs.simps [of p] split: sum.splits py_error.splits)
    then show ?thesis
      using f1 mkdir_frame [of p s1 r s'] by (elim disjE) auto
  next
    case False
    with "1.prems" have "mkdir p s = (r, s')" by (simp add: makedirs.simps [of p])
    then show ?thesis by (rule mkdir_frame)
  qed
qed

text \<open>The exceptions the ensurer can raise: those of \<^verbatim>\<open>mkdir\<close>.\<close>

lemma mkdir_errors:
  "mkdir q s = (Inl e, s') \<Longrightarrow> e \<in> {NotADirectoryError q, FileNotFoundError q, FileExistsError q}"
  by (auto simp: mkdir_def split: if_splits)

lemma makedirs_errors:
  "makedirs p s = (Inl e, s') \<Longrightarrow> \<exists>q. e \<in> {NotADirectoryError q, FileNotFoundError q, FileExistsError q}"
proof (induction p s arbitrary: e s' rule: makedirs.induct)
  case (1 p s)
  show ?case
  proof (cases "p \<noteq> [] \<and> butlast p \<noteq> [] \<and> \<not> path_exists s (butlast p)")
    case True
    obtain r1 s1 where m1: "makedirs (butlast p) s = (r1, s1)" by fastforce
    from "1.prems" True m1 have "(r1 = Inl e \<and> s1 = s') \<or> mkdir p s1 = (Inl e, s')"
      by (auto simp: makedirs.simps [of p] split: sum.splits py_error.splits)
    then show ?thesis
      using "1.IH" [OF True] m1 mkdir_errors by blast
  next
    case False
    with "1.prems" have "mkdir p s = (Inl e, s')" by (simp add: makedirs.simps [of p])
    then show ?thesis using mkdir_errors by blast
  qed
qed

lemma create_dir_frame:
  "create_dir_if_not_exists d s = (r, s') \<Longrightarrow>
   files s' = files s \<and> dirs s \<subseteq> dirs s' \<and> dirs s' \<subseteq> dirs s \<union> nonempty_prefixes d"
  by (auto simp: create_dir_if_not_exists_def dest: makedirs_frame split: if_splits)

text \<open>
  From a well-formed state where \<open>d\<close> does not exist, \<^verbatim>\<open>makedirs d\<close> either creates
  exactly the missing directories among the prefixes of \<open>d\<close>, or, when a plain file
  lies on the way, raises \<^verbatim>\<open>NotADirectoryError\<close> without creating anything.
\<close>

lemma makedirs_spec:
  assumes "fs_wf s" and "\<not> path_exists s d"
  shows "(under_file s d \<longrightarrow> (\<exists>q. makedirs d s = (Inl (NotADirectoryError q), s))) \<and>
         (\<not> under_file s d \<longrightarrow> makedirs d s = (Inr (), s\<lparr>dirs := dirs s \<union> nonempty_prefixes d\<rparr>))"
  using assms
proof (induction d s rule: makedirs.induct)
  case (1 d s)
  let ?b = "butlast d"
  have wf: "fs_wf s" and nd: "\<not> path_exists s d" by fact+
  from nd fs_wfD(1) [OF wf] have "d \<noteq> []" by (auto simp: path_exists_def)
  then have pre: "nonempty_prefixes d = insert d (nonempty_prefixes ?b)"
    and uf: "under_file s d \<longleftrightarrow> under_file s ?b \<or> ?b \<in> dom (files s)"
    by (simp_all add: nonempty_prefixes_butlast under_file_butlast)
  from nd have d_new: "d \<notin> dirs s" "d \<notin> dom (files s)" by (simp_all add: path_exists_def)
  show ?case
  proof (cases "?b = []")
    case True
    then have "\<not> under_file s ?b" "?b \<notin> dom (files s)"
      using fs_wfD(1,2) [OF wf] by (simp_all add: under_file_def ancestors_def)
    then have "\<not> under_file s d" by (simp only: uf) blast
    with True \<open>d \<noteq> []\<close> fs_wfD(1) [OF wf] d_new show ?thesis
      by (simp add: makedirs.simps [of d] mkdir_def path_exists_def pre)
  next
    case b_ne: False
    show ?thesis
    proof (cases "path_exists s ?b")
      case True
      then have mk: "makedirs d s = mkdir d s" by (simp add: makedirs.simps [of d])
      show ?thesis
      proof (cases "?b \<in> dirs s")
        case True
        have "\<not> under_file s ?b"
          using wf_exists_not_under_file [OF wf \<open>path_exists s ?b\<close>] .
        moreover have "?b \<notin> dom (files s)"
          using fs_wfD(2) [OF wf True] .
        ultimately have "\<not> under_file s d"
          by (simp only: uf) blast
        moreover have "dirs s \<union> nonempty_prefixes d = insert d (dirs s)"
          using wf_dir_ancestors [OF wf True] pre by blast
        moreover have "makedirs d s = (Inr (), s\<lparr>dirs := insert d (dirs s)\<rparr>)"
          using True d_new \<open>\<not> under_file s d\<close> by (simp add: mk mkdir_def path_exists_def)
        ultimately show ?thesis
          by simp
      next
        case False
        with \<open>path_exists s ?b\<close> have "?b \<in> dom (files s)" by (simp add: path_exists_def)
        then have "under_file s d" by (simp add: uf)
        then show ?thesis by (simp add: mk mkdir_def)
      qed
    next
      case False
      note IH = "1.IH" [OF conjI [OF \<open>d \<noteq> []\<close> conjI [OF b_ne False]] wf False]
      from False have b_files: "?b \<notin> dom (files s)" by (simp add: path_exists_def)
      show ?thesis
      proof (cases "under_file s ?b")
        case True
        with IH obtain q where "makedirs ?b s = (Inl (NotADirectoryError q), s)" by blast
        with True b_ne \<open>d \<noteq> []\<close> False show ?thesis
          by (simp add: makedirs.simps [of d] uf)
      next
        case uf_b: False
        let ?s1 = "s\<lparr>dirs := dirs s \<union> nonempty_prefixes ?b\<rparr>"
        from IH uf_b have m1: "makedirs ?b s = (Inr (), ?s1)" by blast
        have "d \<notin> nonempty_prefixes ?b"
        proof
          assume "d \<in> nonempty_prefixes ?b"
          then have "length d \<le> length ?b" by (rule length_nonempty_prefixes)
          with \<open>d \<noteq> []\<close> show False by (cases d rule: rev_cases) auto
        qed
        moreover have "?b \<in> nonempty_prefixes ?b"
          using b_ne by (rule self_nonempty_prefixes)
        ultimately show ?thesis
          using m1 b_ne False \<open>d \<noteq> []\<close> uf_b b_files d_new
          by (simp add: makedirs.simps [of d] uf mkdir_def path_exists_def pre insert_commute)
      qed
    qed
  qed
qed

subsection \<open>The directory ensurer\<close>

text \<open>When the target is not a plain file and none lies on the way, the ensurer makes it.\<close>

lemma create_dir_new:
  assumes "fs_wf s" and "\<not> under_file s d" and "d \<notin> dom (files s)"
  shows "create_dir_if_not_exists d s = (Inr (), s\<lparr>dirs := dirs s \<union> nonempty_prefixes d\<rparr>)"
proof (cases "path_exists s d")
  case True
  with assms(3) have "d \<in> dirs s" by (simp add: path_exists_def)
  then have "dirs s \<union> nonempty_prefixes d = dirs s"
    using wf_dir_ancestors [OF assms(1)] by blast
  with True show ?thesis by (simp add: create_dir_if_not_exists_def)
next
  case False
  with makedirs_spec [OF assms(1) False] assms(2) show ?thesis
    by (simp add: create_dir_if_not_exists_def)
qed

text \<open>
  C18: unless a plain file lies on the way, \<^verbatim>\<open>create_dir_if_not_exists\<close> succeeds; it
  leaves an existing file or directory alone and otherwise makes the directory and
  every missing directory above it, changing nothing else.
\<close>

theorem create_dir_if_not_exists_ok:
  assumes "fs_wf s" and "\<not> under_file s d"
  shows "create_dir_if_not_exists d s =
           (Inr (), if d \<in> dom (files s) then s else s\<lparr>dirs := dirs s \<union> nonempty_prefixes d\<rparr>)"
proof (cases "path_exists s d")
  case True
  show ?thesis
  proof (cases "d \<in> dom (files s)")
    case False
    with True have "d \<in> dirs s" by (simp add: path_exists_def)
    then have "dirs s \<union> nonempty_prefixes d = dirs s"
      using wf_dir_ancestors [OF assms(1)] by blast
    with True False show ?thesis by (simp add: create_dir_if_not_exists_def)
  qed (use True in \<open>simp add: create_dir_if_not_exists_def\<close>)
next
  case False
  with makedirs_spec [OF assms(1) False] assms(2) show ?thesis
    by (simp add: create_dir_if_not_exists_def path_exists_def)
qed

text \<open>
  C30: when a plain file lies among the ancestors of the directory, the ensurer fails
  with \<^verbatim>\<open>NotADirectoryError\<close> and creates nothing.
\<close>

theorem create_dir_if_not_exists_error:
  assumes "fs_wf s" and "under_file s d"
  shows "\<exists>q. create_dir_if_not_exists d s = (Inl (NotADirectoryError q), s)"
proof -
  have "\<not> path_exists s d"
    using wf_exists_not_under_file [OF assms(1)] assms(2) by blast
  with makedirs_spec [OF assms(1)] assms(2) show ?thesis
    by (simp add: create_dir_if_not_exists_def)
qed

lemma create_dir_cases:
  assumes "fs_wf s"
  shows "create_dir_if_not_exists d s = (Inr (), s) \<or>
         create_dir_if_not_exists d s = (Inr (), s\<lparr>dirs := dirs s \<union> nonempty_prefixes d\<rparr>) \<and>
           \<not> under_file s d \<or>
         (\<exists>q. create_dir_if_not_exists d s = (Inl (NotADirectoryError q), s))"
proof (cases "path_exists s d")
  case True
  then show ?thesis by (simp add: create_dir_if_not_exists_def)
next
  case False
  with makedirs_spec [OF assms(1) False] show ?thesis
    by (cases "under_file s d") (simp_all add: create_dir_if_not_exists_def)
qed

text \<open>
  C31: running the ensurer a second time changes nothing and has the same outcome.
\<close>

theorem create_dir_if_not_exists_idem:
  assumes "fs_wf s" and "create_dir_if_not_exists d s = (r, s')"
  shows "create_dir_if_not_exists d s' = (r, s')"
  using create_dir_cases [OF assms(1), of d]
proof (elim disjE conjE exE)
  assume "create_dir_if_not_exists d s = (Inr (), s)"
  with assms(2) show ?thesis by simp
next
  assume c: "create_dir_if_not_exists d s = (Inr (), s\<lparr>dirs := dirs s \<union> nonempty_prefixes d\<rparr>)"
    and nu: "\<not> under_file s d"
  from assms(2) c have s': "s' = s\<lparr>dirs := dirs s \<union> nonempty_prefixes d\<rparr>" by simp
  have "path_exists s' d"
  proof (cases "d = []")
    case True
    then show ?thesis using fs_wfD(1) [OF assms(1)] by (simp add: s' path_exists_def)
  next
    case False
    then show ?thesis by (simp add: s' path_exists_def self_nonempty_prefixes)
  qed
  with assms(2) c show ?thesis by (simp add: create_dir_if_not_exists_def)
next
  fix q
  assume "create_dir_if_not_exists d s = (Inl (NotADirectoryError q), s)"
  with assms(2) show ?thesis by simp
qed

subsection \<open>Witnesses\<close>

lemma empty_fs_wf: "fs_wf empty_fs"
  by (simp add: fs_wf_def empty_fs_def)

lemma file_in_way_fs_wf: "fs_wf (file_in_way_fs c)"
  by (simp add: fs_wf_def file_in_way_fs_def)

theorem create_dir_if_not_exists_ok_witness:
  "fs_wf (empty_fs :: nat fs) \<and> \<not> under_file (empty_fs :: nat fs) [''out'', ''figs''] \<and>
   create_dir_if_not_exists [''out'', ''figs''] (empty_fs :: nat fs) =
     (Inr (), \<lparr>dirs = {[], [''out''], [''out'', ''figs'']}, files = Map.empty\<rparr>)"
proof -
  have nu: "\<not> under_file (empty_fs :: nat fs) [''out'', ''figs'']"
    by (simp add: under_file_def empty_fs_def)
  have "nonempty_prefixes [''out'', ''figs''] = {[''out''], [''out'', ''figs'']}"
    by (simp add: nonempty_prefixes_def upt_rec)
  then show ?thesis
    using create_dir_if_not_exists_ok [OF empty_fs_wf nu] empty_fs_wf nu
    by (simp add: empty_fs_def insert_commute)
qed

theorem create_dir_if_not_exists_error_witness:
  "fs_wf (file_in_way_fs (0::nat)) \<and> under_file (file_in_way_fs (0::nat)) [''out'', ''figs''] \<and>
   (\<exists>q. create_dir_if_not_exists [''out'', ''figs''] (file_in_way_fs (0::nat)) =
          (Inl (NotADirectoryError q), file_in_way_fs 0))"
proof -
  have u: "under_file (file_in_way_fs (0::nat)) [''out'', ''figs'']"
    by (simp add: under_file_def file_in_way_fs_def ancestors_def)
  show ?thesis
    using create_dir_if_not_exists_error [OF file_in_way_fs_wf u] file_in_way_fs_wf u by simp
qed

theorem create_dir_if_not_exists_idem_witness:
  "fs_wf (empty_fs :: nat fs) \<and>
   create_dir_if_not_exists [''out''] (empty_fs :: nat fs) = (Inr (), \<lparr>dirs = {[], [''out'']}, files = Map.empty\<rparr>) \<and>
   create_dir_if_not_exists [''out''] (\<lparr>dirs = {[], [''out'']}, files = Map.empty\<rparr> :: nat fs) =
     (Inr (), \<lparr>dirs = {[], [''out'']}, files = Map.empty\<rparr>)"
proof -
  have c: "create_dir_if_not_exists [''out''] (empty_fs :: nat fs) = (Inr (), \<lparr>dirs = {[], [''out'']}, files = Map.empty\<rparr>)"
    by (simp add: create_dir_if_not_exists_def makedirs.simps mkdir_def path_exists_def
        under_file_def ancestors_def empty_fs_def insert_commute)
  show ?thesis
    using create_dir_if_not_exists_idem [OF empty_fs_wf c] empty_fs_wf c by simp
qed

end
