(* ===== verification/CsvOutput.thy ===== *)
theory CsvOutput
  imports Summary
begin

text \<open>
  The text \<^verbatim>\<open>horses_sd.to_csv(path, index=False)\<close> writes (line 50 of
  \<^verbatim>\<open>generate_figures.py\<close>): a header line \<^verbatim>\<open>Province,Std\<close>, then one line per row of the
  summary, through Python's \<^verbatim>\<open>csv\<close> writer with minimal quoting: a field that holds a
  comma, a double quote or a line break is written between double quotes, its double
  quotes doubled; lines end with a line feed (pandas' default on POSIX). A missing
  \<^verbatim>\<open>Std\<close> is written as the empty field; a present one as the text of the float
  formatter \<open>fmt\<close> (numpy's shortest round-trip \<^verbatim>\<open>repr\<close>), a parameter of the model.
\<close>

section \<open>The writer\<close>

abbreviation quote_char :: char where "quote_char \<equiv> CHR 0x22"
abbreviation newline_char :: char where "newline_char \<equiv> CHR 0x0A"

definition needs_quote :: "string \<Rightarrow> bool" where
  "needs_quote f \<longleftrightarrow> (\<exists>c \<in> set f. c = CHR '','' \<or> c = quote_char \<or> c = newline_char \<or> c = CHR 0x0D)"

definition escape_quotes :: "string \<Rightarrow> string" where
  "escape_quotes f = concat (map (\<lambda>c. if c = quote_char then [quote_char, quote_char] else [c]) f)"

definition csv_field :: "string \<Rightarrow> string" where
  "csv_field f = (if needs_quote f then quote_char # escape_quotes f @ [quote_char] else f)"

fun join_fields :: "string list \<Rightarrow> string" where
  "join_fields [] = []"
| "join_fields [f] = csv_field f"
| "join_fields (f # fs) = csv_field f @ CHR '','' # join_fields fs"

definition csv_line :: "string list \<Rightarrow> string" where
  "csv_line fs = join_fields fs @ [newline_char]"

definition std_text :: "(real \<Rightarrow> string) \<Rightarrow> real option \<Rightarrow> string" where
  "std_text fmt v = (case v of None \<Rightarrow> [] | Some x \<Rightarrow> fmt x)"

definition sd_to_csv :: "(real \<Rightarrow> string) \<Rightarrow> sd_row list \<Rightarrow> string" where
  "sd_to_csv fmt t =
     csv_line [''Province'', ''Std''] @ concat (map (\<lambda>r. csv_line [Province r, std_text fmt (Std r)]) t)"

section \<open>A reader\<close>

text \<open>
  A reader for the text, as Python's \<^verbatim>\<open>csv\<close> reader scans it: a state per position
  (at the start of a field, inside a plain field, inside a quoted field, just after a
  double quote inside a quoted field), the field read so far, the fields of the current
  line, the lines read. It is used to state what the file holds.
\<close>

datatype scan_state = FieldStart | InPlain | InQuoted | QuoteSeen

fun csv_scan :: "scan_state \<Rightarrow> string \<Rightarrow> string list \<Rightarrow> string list list \<Rightarrow> string \<Rightarrow> string list list option" where
  "csv_scan st cur fs ls [] = (if st = FieldStart \<and> cur = [] \<and> fs = [] then Some ls else None)"
| "csv_scan st cur fs ls (c # cs) =
     (case st of
        FieldStart \<Rightarrow>
          if c = quote_char then csv_scan InQuoted [] fs ls cs
          else if c = CHR '','' then csv_scan FieldStart [] (fs @ [[]]) ls cs
          else if c = newline_char then csv_scan FieldStart [] [] (ls @ [fs @ [[]]]) cs
          else csv_scan InPlain [c] fs ls cs
      | InPlain \<Rightarrow>
          if c = CHR '','' then csv_scan FieldStart [] (fs @ [cur]) ls cs
          else if c = newline_char then csv_scan FieldStart [] [] (ls @ [fs @ [cur]]) cs
          else csv_scan InPlain (cur @ [c]) fs ls cs
      | InQuoted \<Rightarrow>
          if c = quote_char then csv_scan QuoteSeen cur fs ls cs
          else csv_scan InQuoted (cur @ [c]) fs ls cs
      | QuoteSeen \<Rightarrow>
          if c = quote_char then csv_scan InQuoted (cur @ [quote_char]) fs ls cs
          else if c = CHR '','' then csv_scan FieldStart [] (fs @ [cur]) ls cs
          else if c = newline_char then csv_scan FieldStart [] [] (ls @ [fs @ [cur]]) cs
          else None)"

definition csv_read :: "string \<Rightarrow> string list list option" where
  "csv_read s = csv_scan FieldStart [] [] [] s"

section \<open>The reader reads back what the writer wrote\<close>

lemma scan_plain:
  "\<forall>c \<in> set xs. c \<noteq> CHR '','' \<and> c \<noteq> newline_char \<Longrightarrow>
   csv_scan InPlain cur fs ls (xs @ rest) = csv_scan InPlain (cur @ xs) fs ls rest"
  by (induction xs arbitrary: cur) auto

lemma scan_quoted:
  "csv_scan InQuoted cur fs ls (escape_quotes xs @ quote_char # rest) = csv_scan QuoteSeen (cur @ xs) fs ls rest"
  by (induction xs arbitrary: cur) (auto simp: escape_quotes_def)

lemma scan_field:
  assumes "sep = CHR '','' \<or> sep = newline_char"
  shows "csv_scan FieldStart [] fs ls (csv_field f @ sep # rest) =
           (if sep = CHR '','' then csv_scan FieldStart [] (fs @ [f]) ls rest
            else csv_scan FieldStart [] [] (ls @ [fs @ [f]]) rest)"
proof (cases "needs_quote f")
  case True
  then have "csv_field f @ sep # rest = quote_char # escape_quotes f @ quote_char # sep # rest"
    by (simp add: csv_field_def)
  with assms show ?thesis by (auto simp: scan_quoted)
next
  case False
  then have plain: "\<forall>c \<in> set f. c \<noteq> CHR '','' \<and> c \<noteq> newline_char \<and> c \<noteq> quote_char"
    by (auto simp: needs_quote_def)
  show ?thesis
  proof (cases f)
    case Nil
    with assms False show ?thesis by (auto simp: csv_field_def)
  next
    case (Cons x xs)
    with plain have "csv_scan FieldStart [] fs ls (csv_field f @ sep # rest) =
        csv_scan InPlain [x] fs ls (xs @ sep # rest)"
      using False by (simp add: csv_field_def)
    also have "\<dots> = csv_scan InPlain f fs ls (sep # rest)"
      using plain Cons by (simp add: scan_plain)
    finally show ?thesis
      using assms by auto
  qed
qed

lemma scan_join_fields:
  "row \<noteq> [] \<Longrightarrow>
   csv_scan FieldStart [] acc ls (join_fields row @ newline_char # rest) =
     csv_scan FieldStart [] [] (ls @ [acc @ row]) rest"
proof (induction row arbitrary: acc rule: join_fields.induct)
  case 1
  then show ?case by simp
next
  case (2 f)
  show ?case using scan_field [of newline_char acc ls f rest] by simp
next
  case (3 f g gs)
  have "csv_scan FieldStart [] acc ls (join_fields (f # g # gs) @ newline_char # rest) =
      csv_scan FieldStart [] (acc @ [f]) ls (join_fields (g # gs) @ newline_char # rest)"
    using scan_field [of "CHR '',''" acc ls f] by simp
  also have "\<dots> = csv_scan FieldStart [] [] (ls @ [acc @ f # g # gs]) rest"
    using "3.IH" [of "acc @ [f]"] by simp
  finally show ?case .
qed

lemma scan_lines:
  "\<forall>row \<in> set lns. row \<noteq> [] \<Longrightarrow>
   csv_scan FieldStart [] [] ls (concat (map csv_line lns)) = Some (ls @ lns)"
proof (induction lns arbitrary: ls)
  case Nil
  then show ?case by simp
next
  case (Cons row lns)
  then have "csv_scan FieldStart [] [] ls (concat (map csv_line (row # lns))) =
      csv_scan FieldStart [] [] (ls @ [row]) (concat (map csv_line lns))"
    using scan_join_fields [of row "[]" ls] by (simp add: csv_line_def)
  with Cons show ?case by simp
qed

text \<open>The reader reads back any list of non-empty lines the writer writes.\<close>

lemma csv_read_lines:
  "\<forall>row \<in> set lns. row \<noteq> [] \<Longrightarrow> csv_read (concat (map csv_line lns)) = Some lns"
  using scan_lines [of lns "[]"] by (simp add: csv_read_def)

lemma sd_to_csv_lines:
  "sd_to_csv fmt t =
     concat (map csv_line ([''Province'', ''Std''] # map (\<lambda>r. [Province r, std_text fmt (Std r)]) t))"
  by (simp add: sd_to_csv_def comp_def)

text \<open>
  C23: reading \<^verbatim>\<open>horses_sd.csv\<close> back gives the header \<^verbatim>\<open>Province,Std\<close> and one line
  per row of the summary, in its order, with the province's name exactly as it was
  and the standard deviation's text (empty when it is missing), whatever characters
  the names hold.
\<close>

theorem sd_to_csv_roundtrip:
  "csv_read (sd_to_csv fmt t) =
     Some ([''Province'', ''Std''] # map (\<lambda>r. [Province r, std_text fmt (Std r)]) t)"
  unfolding sd_to_csv_lines by (rule csv_read_lines) auto

end
