(* ===== verification/Pipeline.thy ===== *)
theory Pipeline
  imports Charts FileSystem CsvOutput
begin

text \<open>
  The script as a whole: \<^verbatim>\<open>main\<close> of \<^verbatim>\<open>generate_figures.py\<close> (lines 24--64), run
  by click's command line (lines 21--23 and 67--68), as one program of the
  exception-state type of the prelude over the file system of \<open>FileSystem\<close>. A file
  holds an input table, a text the script wrote (the CSV summary), or a PNG image,
  recorded as the chart specification it renders and its scale factor. The two library
  choices the source leaves to numpy and Python, the ascending sort under
  \<^verbatim>\<open>sort_values\<close> and the float formatter of \<^verbatim>\<open>to_csv\<close>, are a record of parameters.
\<close>

section \<open>Files and libraries\<close>

datatype artifact = InputTable "int frame" | CsvText string | Png chart_spec real

record libs =
  argsort :: "sd_row sorter"
  float_repr :: "real \<Rightarrow> string"

text \<open>
  What \<^verbatim>\<open>pd.read_csv\<close> makes of a file's content (line 28). An input table is read as
  it is. A text the script wrote is read by its header, which gives the columns; its
  data rows are left out, since the only such text is the summary, whose columns
  \<^verbatim>\<open>Province\<close> and \<^verbatim>\<open>Std\<close> make the query of line 29 raise before any row is used.
  A text with no header is no table and raises a parser error; an image raises
  \<^verbatim>\<open>UnicodeDecodeError\<close>, since pandas decodes the file as UTF-8 and the first
  byte of a PNG (\<open>0x89\<close>) is no UTF-8 start byte.
\<close>

definition parse_artifact :: "path \<Rightarrow> artifact \<Rightarrow> py_error + int frame" where
  "parse_artifact p c =
     (case c of
        InputTable fr \<Rightarrow> Inr fr
      | CsvText t \<Rightarrow>
          (case csv_read t of
             Some (hdr # _) \<Rightarrow> Inr \<lparr>columns = hdr, rows = []\<rparr>
           | _ \<Rightarrow> Inl (ParserError p))
      | Png _ _ \<Rightarrow> Inl (UnicodeDecodeError p))"

definition read_csv :: "path \<Rightarrow> (artifact fs, int frame) prog" where
  "read_csv p = bind_prog (read_file p) (\<lambda>c. lift_sum (parse_artifact p c))"

text \<open>The three outputs, \<^verbatim>\<open>os.path.join(out_dir, ...)\<close> of lines 45, 50 and 64.\<close>

definition plot_path :: "path \<Rightarrow> path" where
  "plot_path d = d @ [''horse_pops_plot.png'']"

definition csv_path :: "path \<Rightarrow> path" where
  "csv_path d = d @ [''horses_sd.csv'']"

definition largest_plot_path :: "path \<Rightarrow> path" where
  "largest_plot_path d = d @ [''horse_pops_plot_largest_sd.png'']"

section \<open>The script\<close>

text \<open>
  Lines 25--64 in order: ensure the output directory, read and pre-process the table,
  save the faceted chart, build and write the summary, select its first province and
  save that province's chart. The first statement that raises ends the run and keeps
  what the statements before it wrote.
\<close>

definition main :: "libs \<Rightarrow> path \<Rightarrow> path \<Rightarrow> (artifact fs, unit) prog" where
  "main lib input_dir out_dir =
     bind_prog (create_dir_if_not_exists out_dir) (\<lambda>_.
     bind_prog (read_csv input_dir) (\<lambda>raw.
     bind_prog (lift_sum (preprocess raw)) (\<lambda>horse_pop.
     bind_prog (write_file (plot_path out_dir) (Png (primary_chart horse_pop) 2)) (\<lambda>_.
     let horses_sd = summary_table (argsort lib) (rows horse_pop) in
     bind_prog (write_file (csv_path out_dir) (CsvText (sd_to_csv (float_repr lib) horses_sd))) (\<lambda>_.
     bind_prog (lift_sum (iloc0_province horses_sd)) (\<lambda>largest_sd_prov.
     write_file (largest_plot_path out_dir) (Png (secondary_chart largest_sd_prov horse_pop) 2)))))))"

text \<open>
  Click's command (lines 21--23, 67--68): both options are required; a missing one is
  reported before \<^verbatim>\<open>main\<close> runs, \<^verbatim>\<open>--input_dir\<close> first as it is declared first.
\<close>

definition cli :: "libs \<Rightarrow> path option \<Rightarrow> path option \<Rightarrow> (artifact fs, unit) prog" where
  "cli lib input_dir out_dir =
     (case input_dir of
        None \<Rightarrow> raise (MissingOption ''--input_dir'')
      | Some i \<Rightarrow>
          (case out_dir of
             None \<Rightarrow> raise (MissingOption ''--out_dir'')
           | Some d \<Rightarrow> main lib i d))"

text \<open>
  The exit status: click ends a usage error with status 2; any other exception
  propagates out of the interpreter, which exits with status 1.
\<close>

definition exit_status :: "py_error + unit \<Rightarrow> nat" where
  "exit_status r = (case r of Inr _ \<Rightarrow> 0 | Inl (MissingOption _) \<Rightarrow> 2 | Inl _ \<Rightarrow> 1)"

text \<open>When a path can be opened for writing.\<close>

definition writable :: "'c fs \<Rightarrow> path \<Rightarrow> bool" where
  "writable s p \<longleftrightarrow> \<not> under_file s p \<and> butlast p \<in> dirs s \<and> p \<noteq> [] \<and> p \<notin> dirs s"

text \<open>
  A file system for the examples: the table of the specification's scenario at
  \<^verbatim>\<open>data/horse_pop.csv\<close>, no output directory yet; and one whose table holds the
  national row alone.
\<close>

definition demo_input :: path where
  "demo_input = [''data'', ''horse_pop.csv'']"

definition demo_out :: path where
  "demo_out = [''results'', ''figs'']"

definition demo_fs :: "artifact fs" where
  "demo_fs = \<lparr>dirs = {[], [''data'']}, files = [demo_input \<mapsto> InputTable spec_example]\<rparr>"

definition canada_only_fs :: "artifact fs" where
  "canada_only_fs =
     \<lparr>dirs = {[], [''data'']},
      files = [demo_input \<mapsto> InputTable (spec_example\<lparr>rows := [rows spec_example ! 2]\<rparr>)]\<rparr>"

definition demo_lib :: "(real \<Rightarrow> string) \<Rightarrow> libs" where
  "demo_lib fmt = \<lparr>argsort = sort_key, float_repr = fmt\<rparr>"

text \<open>The file system a run on the example leaves.\<close>

definition demo_after :: "(real \<Rightarrow> string) \<Rightarrow> artifact fs" where
  "demo_after fmt =
     \<lparr>dirs = {[], [''data''], [''results''], [''results'', ''figs'']},
      files = [demo_input \<mapsto> InputTable spec_example,
               plot_path demo_out \<mapsto>
                 Png (primary_chart \<lparr>columns = columns spec_example, rows = summary_example\<rparr>) 2,
               csv_path demo_out \<mapsto> CsvText (sd_to_csv fmt (summary_table sort_key summary_example)),
               largest_plot_path demo_out \<mapsto>
                 Png (secondary_chart ''Ontario'' \<lparr>columns = columns spec_example, rows = summary_example\<rparr>) 2]\<rparr>"

section \<open>Properties of the steps\<close>

lemma write_file_Inr_iff:
  "write_file p c s = (Inr u, s') \<longleftrightarrow> writable s p \<and> s' = s\<lparr>files := (files s)(p \<mapsto> c)\<rparr>"
  by (auto simp: write_file_def writable_def)

lemma write_file_Inl:
  "write_file p c s = (Inl e, s') \<Longrightarrow> s' = s"
  by (auto simp: write_file_def split: if_splits)

lemma ancestors_length: "q \<in> set (ancestors p) \<Longrightarrow> length q < length p"
  by (auto simp: ancestors_def)

text \<open>Whether a path can be written depends on the files among its ancestors only.\<close>

lemma writable_files_cong:
  assumes "\<And>q. length q < length p \<Longrightarrow> F q = files s q"
  shows "writable (s\<lparr>files := F\<rparr>) p = writable s p"
proof -
  have "q \<in> set (ancestors p) \<Longrightarrow> (q \<in> dom F) = (q \<in> dom (files s))" for q
    using assms [OF ancestors_length] by (simp add: domIff)
  then show ?thesis
    unfolding writable_def under_file_def by auto
qed

lemma writable_upd [simp]:
  assumes "length p \<le> length q"
  shows "writable (s\<lparr>files := F(q \<mapsto> c)\<rparr>) p = writable (s\<lparr>files := F\<rparr>) p"
proof -
  have "writable ((s\<lparr>files := F\<rparr>)\<lparr>files := F(q \<mapsto> c)\<rparr>) p = writable (s\<lparr>files := F\<rparr>) p"
    using assms by (intro writable_files_cong) auto
  then show ?thesis by simp
qed

lemma read_csv_files:
  "files s p = Some c \<Longrightarrow> read_csv p s = (parse_artifact p c, s)"
  by (simp add: read_csv_def read_file_def bind_prog_def)

lemma read_csv_Inr:
  "read_csv p s = (Inr x, s') \<longleftrightarrow> s' = s \<and> (\<exists>c. files s p = Some c \<and> parse_artifact p c = Inr x)"
  by (auto simp: read_csv_def read_file_def bind_prog_def split: option.splits if_splits)

lemma read_csv_state: "read_csv p s = (r, s') \<Longrightarrow> s' = s"
  by (auto simp: read_csv_def bind_prog_def dest: read_file_state split: prod.splits sum.splits)

lemma output_paths_distinct [simp]:
  "plot_path d \<noteq> csv_path d" "csv_path d \<noteq> plot_path d"
  "plot_path d \<noteq> largest_plot_path d" "largest_plot_path d \<noteq> plot_path d"
  "csv_path d \<noteq> largest_plot_path d" "largest_plot_path d \<noteq> csv_path d"
  by (simp_all add: plot_path_def csv_path_def largest_plot_path_def)

lemma output_paths_length [simp]:
  "length (plot_path d) = Suc (length d)" "length (csv_path d) = Suc (length d)"
  "length (largest_plot_path d) = Suc (length d)"
  by (simp_all add: plot_path_def csv_path_def largest_plot_path_def)

lemma output_paths_butlast [simp]:
  "butlast (plot_path d) = d" "butlast (csv_path d) = d" "butlast (largest_plot_path d) = d"
  by (simp_all add: plot_path_def csv_path_def largest_plot_path_def)

text \<open>
  A successful run, statement by statement: the directory is ensured, the input read
  and pre-processed, a first province selected, and the three outputs written into the
  state the ensurer left.
\<close>

lemma main_Inr_iff:
  "main lib i d s = (Inr u, s') \<longleftrightarrow>
   (\<exists>s0 raw hp p.
      create_dir_if_not_exists d s = (Inr (), s0) \<and> read_csv i s0 = (Inr raw, s0) \<and>
      preprocess raw = Inr hp \<and>
      iloc0_province (summary_table (argsort lib) (rows hp)) = Inr p \<and>
      writable s0 (plot_path d) \<and> writable s0 (csv_path d) \<and> writable s0 (largest_plot_path d) \<and>
      s' = s0\<lparr>files := (files s0)
             (plot_path d \<mapsto> Png (primary_chart hp) 2,
              csv_path d \<mapsto> CsvText (sd_to_csv (float_repr lib) (summary_table (argsort lib) (rows hp))),
              largest_plot_path d \<mapsto> Png (secondary_chart p hp) 2)\<rparr>)"
  unfolding main_def Let_def
  by (simp add: bind_prog_Inr_iff write_file_Inr_iff read_csv_Inr) blast

text \<open>After the ensurer has made the output directory, a new name in it can be written.\<close>

lemma writable_after_create:
  assumes "fs_wf s" and "\<not> under_file s d" and "d \<notin> dom (files s)" and "d @ [n] \<notin> dirs s"
  shows "writable (s\<lparr>dirs := dirs s \<union> nonempty_prefixes d\<rparr>) (d @ [n])"
proof -
  have "d \<in> dirs s \<union> nonempty_prefixes d"
    using fs_wfD(1) [OF assms(1)] self_nonempty_prefixes [of d] by (cases "d = []") auto
  moreover have "d @ [n] \<notin> nonempty_prefixes d"
    using length_nonempty_prefixes [of "d @ [n]" d] by auto
  ultimately show ?thesis
    using assms(2-4) under_file_butlast [of "d @ [n]" s] by (simp add: writable_def)
qed

lemma writable_outputs_after_create:
  assumes "fs_wf s" and "\<not> under_file s d" and "d \<notin> dom (files s)"
    and "plot_path d \<notin> dirs s" and "csv_path d \<notin> dirs s" and "largest_plot_path d \<notin> dirs s"
  shows "writable (s\<lparr>dirs := dirs s \<union> nonempty_prefixes d\<rparr>) (plot_path d) \<and>
         writable (s\<lparr>dirs := dirs s \<union> nonempty_prefixes d\<rparr>) (csv_path d) \<and>
         writable (s\<lparr>dirs := dirs s \<union> nonempty_prefixes d\<rparr>) (largest_plot_path d)"
  using assms writable_after_create [OF assms(1-3)]
  unfolding plot_path_def csv_path_def largest_plot_path_def by blast

lemma iloc0_summary_table_Cons:
  "is_sort_impl srt \<Longrightarrow> rs \<noteq> [] \<Longrightarrow> \<exists>p. iloc0_province (summary_table srt rs) = Inr p"
  using summary_table_Nil_iff [of srt rs] by (auto simp: iloc0_province_def split: list.split)

lemma write_file_writable:
  "writable s p \<Longrightarrow> write_file p c s = (Inr (), s\<lparr>files := (files s)(p \<mapsto> c)\<rparr>)"
  by (simp add: write_file_Inr_iff)

lemma write_file_frame:
  "write_file p c s = (r, s') \<Longrightarrow> dirs s' = dirs s \<and> (\<forall>q. q \<noteq> p \<longrightarrow> files s' q = files s q)"
  by (auto simp: write_file_def split: if_splits)

lemma create_dir_preserves_wf: "preserves fs_wf (create_dir_if_not_exists d)"
  by (auto intro!: preservesI simp: create_dir_if_not_exists_def dest: makedirs_wf split: if_splits)

lemma write_file_preserves_wf: "preserves fs_wf (write_file p c)"
  by (auto intro!: preservesI dest: write_file_wf)

lemma read_csv_preserves: "preserves P (read_csv p)"
  by (auto intro!: preservesI dest: read_csv_state)

text \<open>
  The part of the file system a run may change: directories above and at the output
  directory, which it only adds, and the files named in \<open>Out\<close>.
\<close>

lemma create_dir_preserves_frame:
  "preserves (\<lambda>t. dirs s \<subseteq> dirs t \<and> dirs t \<subseteq> dirs s \<union> nonempty_prefixes d \<and>
                 (\<forall>q. q \<notin> Out \<longrightarrow> files t q = files s q))
             (create_dir_if_not_exists d)"
proof (rule preservesI)
  fix t r t'
  assume "dirs s \<subseteq> dirs t \<and> dirs t \<subseteq> dirs s \<union> nonempty_prefixes d \<and>
          (\<forall>q. q \<notin> Out \<longrightarrow> files t q = files s q)"
    and "create_dir_if_not_exists d t = (r, t')"
  then show "dirs s \<subseteq> dirs t' \<and> dirs t' \<subseteq> dirs s \<union> nonempty_prefixes d \<and>
             (\<forall>q. q \<notin> Out \<longrightarrow> files t' q = files s q)"
    using create_dir_frame [of d t r t'] by auto
qed

lemma write_file_preserves_frame:
  "p \<in> Out \<Longrightarrow>
   preserves (\<lambda>t. dirs s \<subseteq> dirs t \<and> dirs t \<subseteq> X \<and> (\<forall>q. q \<notin> Out \<longrightarrow> files t q = files s q))
             (write_file p c)"
  by (rule preservesI) (drule write_file_frame, auto)

text \<open>No step of the script raises a usage error: those come from click alone.\<close>

lemma preprocess_errors: "preprocess fr = Inl e \<Longrightarrow> e \<noteq> MissingOption x"
  by (auto simp: preprocess_def query_june_def scale_values_def ref_date_to_str_def
      split: option.splits sum.splits if_splits)

lemma main_raises_no_usage_error: "raises_only (\<lambda>e. \<forall>x. e \<noteq> MissingOption x) (main lib i d)"
proof -
  have cd: "raises_only (\<lambda>e. \<forall>x. e \<noteq> MissingOption x) (create_dir_if_not_exists d')" for d'
    by (fastforce simp: raises_only_def create_dir_if_not_exists_def dest: makedirs_errors split: if_splits)
  have rd: "raises_only (\<lambda>e. \<forall>x. e \<noteq> MissingOption x) (read_csv p)" for p
    by (auto simp: raises_only_def read_csv_def read_file_def parse_artifact_def bind_prog_def
        split: option.splits if_splits artifact.splits list.splits prod.splits sum.splits)
  have wr: "raises_only (\<lambda>e. \<forall>x. e \<noteq> MissingOption x) (write_file p c)" for p c
    by (auto simp: raises_only_def write_file_def split: if_splits)
  show ?thesis
    unfolding main_def Let_def
    by (intro raises_only_bind raises_only_lift_sum cd rd wr allI)
      (auto dest: preprocess_errors simp: iloc0_province_def split: list.splits)
qed

text \<open>The ensurer touches no file, so the input reads the same before it.\<close>

lemma read_csv_before_create:
  assumes "create_dir_if_not_exists d s = (Inr (), s0)" and "read_csv i s0 = (Inr raw, s0)"
  shows "read_csv i s = (Inr raw, s)"
proof -
  from assms(2) create_dir_frame [OF assms(1)] obtain c0 where
    "files s i = Some c0" "parse_artifact i c0 = Inr raw"
    by (auto simp: read_csv_Inr)
  then show ?thesis
    by (simp add: read_csv_files)
qed

text \<open>What a successful run read, and what it wrote as its last two outputs.\<close>

lemma main_Inr_outputs:
  assumes "main lib i d s = (Inr (), s')"
  shows "\<exists>raw hp p. read_csv i s = (Inr raw, s) \<and> preprocess raw = Inr hp \<and>
           iloc0_province (summary_table (argsort lib) (rows hp)) = Inr p \<and>
           files s' (csv_path d) = Some (CsvText (sd_to_csv (float_repr lib) (summary_table (argsort lib) (rows hp)))) \<and>
           files s' (largest_plot_path d) = Some (Png (secondary_chart p hp) 2)"
proof -
  from assms obtain s0 raw hp p where
    c: "create_dir_if_not_exists d s = (Inr (), s0)" and r: "read_csv i s0 = (Inr raw, s0)" and
    pp: "preprocess raw = Inr hp" and sel: "iloc0_province (summary_table (argsort lib) (rows hp)) = Inr p" and
    f: "files s' (csv_path d) = Some (CsvText (sd_to_csv (float_repr lib) (summary_table (argsort lib) (rows hp))))"
      "files s' (largest_plot_path d) = Some (Png (secondary_chart p hp) 2)"
    unfolding main_Inr_iff by auto
  with read_csv_before_create [OF c r] show ?thesis
    by blast
qed

section \<open>Properties of the script\<close>

subsection \<open>A successful run\<close>

text \<open>
  C1: when the script ends normally, it read a table that pre-processes without error
  and has a first province, the output directory exists, and the file system differs
  from the one it started from in the new directories above and at the output
  directory, and in exactly three files: the faceted chart of the filtered table, the
  CSV text of its summary, and the chart of the summary's first province, each at its
  fixed name in the output directory.
\<close>

theorem main_success:
  assumes "main lib i d s = (Inr (), s')"
  shows "\<exists>fr hp p.
           read_csv i s = (Inr fr, s) \<and> preprocess fr = Inr hp \<and>
           iloc0_province (summary_table (argsort lib) (rows hp)) = Inr p \<and>
           d \<in> dirs s' \<and> dirs s \<subseteq> dirs s' \<and> dirs s' \<subseteq> dirs s \<union> nonempty_prefixes d \<and>
           files s' = (files s)
             (plot_path d \<mapsto> Png (primary_chart hp) 2,
              csv_path d \<mapsto> CsvText (sd_to_csv (float_repr lib) (summary_table (argsort lib) (rows hp))),
              largest_plot_path d \<mapsto> Png (secondary_chart p hp) 2)"
proof -
  from assms obtain s0 raw hp p where
    c: "create_dir_if_not_exists d s = (Inr (), s0)" and r: "read_csv i s0 = (Inr raw, s0)" and
    pp: "preprocess raw = Inr hp" and sel: "iloc0_province (summary_table (argsort lib) (rows hp)) = Inr p" and
    w: "writable s0 (plot_path d)" and
    s': "s' = s0\<lparr>files := (files s0)
             (plot_path d \<mapsto> Png (primary_chart hp) 2,
              csv_path d \<mapsto> CsvText (sd_to_csv (float_repr lib) (summary_table (argsort lib) (rows hp))),
              largest_plot_path d \<mapsto> Png (secondary_chart p hp) 2)\<rparr>"
    unfolding main_Inr_iff by blast
  have fr: "files s0 = files s" "dirs s \<subseteq> dirs s0" "dirs s0 \<subseteq> dirs s \<union> nonempty_prefixes d"
    using create_dir_frame [OF c] by blast+
  have "read_csv i s = (Inr raw, s)"
    using read_csv_before_create [OF c r] .
  moreover have "d \<in> dirs s'"
    using w by (simp add: s' writable_def)
  ultimately show ?thesis
    using pp sel fr by (auto simp: s')
qed

text \<open>
  C2: the script ends normally on a well-formed file system when the output path is
  not a plain file and none lies above it, the input is a table that pre-processes to
  a non-empty table, the sort is a correct sort, and none of the three output names is
  a directory; it then creates the output directory and the missing ones above it and
  writes the three outputs.
\<close>

theorem main_completes:
  assumes "fs_wf s" and "\<not> under_file s d" and "d \<notin> dom (files s)"
    and "files s i = Some (InputTable fr)" and "preprocess fr = Inr hp" and "rows hp \<noteq> []"
    and "is_sort_impl (argsort lib)"
    and "plot_path d \<notin> dirs s" and "csv_path d \<notin> dirs s" and "largest_plot_path d \<notin> dirs s"
  shows "\<exists>p. iloc0_province (summary_table (argsort lib) (rows hp)) = Inr p \<and>
           main lib i d s =
             (Inr (), s\<lparr>dirs := dirs s \<union> nonempty_prefixes d,
                        files := (files s)
                          (plot_path d \<mapsto> Png (primary_chart hp) 2,
                           csv_path d \<mapsto> CsvText (sd_to_csv (float_repr lib) (summary_table (argsort lib) (rows hp))),
                           largest_plot_path d \<mapsto> Png (secondary_chart p hp) 2)\<rparr>)"
proof -
  let ?s0 = "s\<lparr>dirs := dirs s \<union> nonempty_prefixes d\<rparr>"
  have c: "create_dir_if_not_exists d s = (Inr (), ?s0)"
    using create_dir_new [OF assms(1-3)] .
  have r: "read_csv i ?s0 = (Inr fr, ?s0)"
    using assms(4) by (simp add: read_csv_files parse_artifact_def)
  obtain p where sel: "iloc0_province (summary_table (argsort lib) (rows hp)) = Inr p"
    using iloc0_summary_table_Cons [OF assms(7,6)] by blast
  have w: "writable ?s0 (plot_path d) \<and> writable ?s0 (csv_path d) \<and> writable ?s0 (largest_plot_path d)"
    using writable_outputs_after_create [OF assms(1-3,8-10)] .
  show ?thesis
    using c r sel w assms(5) by (intro exI [of _ p]) (simp add: main_Inr_iff [where u = "()"] del: fun_upd_apply)
qed

subsection \<open>Running the script twice\<close>

lemma query_june_summary_header:
  "preprocess \<lparr>columns = [''Province'', ''Std''], rows = []\<rparr> = Inl (UndefinedVariableError ''DATE'')"
  by (simp add: preprocess_def query_june_def)

lemma read_summary_csv:
  "parse_artifact p (CsvText (sd_to_csv fmt t)) = Inr \<lparr>columns = [''Province'', ''Std''], rows = []\<rparr>"
proof -
  have "csv_read (sd_to_csv fmt t) =
          Some ([''Province'', ''Std''] # map (\<lambda>r. [Province r, std_text fmt (Std r)]) t)"
    unfolding sd_to_csv_lines by (rule csv_read_lines) auto
  then show ?thesis by (simp add: parse_artifact_def)
qed

lemma read_png: "parse_artifact p (Png c x) = Inl (UnicodeDecodeError p)"
  by (simp add: parse_artifact_def)

text \<open>
  C3: run again on the file system a successful run left, the script changes nothing:
  in particular \<^verbatim>\<open>horses_sd.csv\<close> holds the same text. The second run ends normally
  exactly when the input is not one of the three outputs; when it is, the first run
  overwrote it and the second stops at reading or at the query.
\<close>

theorem main_rerun:
  assumes "main lib i d s = (Inr (), s1)"
  shows "snd (main lib i d s1) = s1 \<and>
         (fst (main lib i d s1) = Inr () \<longleftrightarrow> i \<notin> {plot_path d, csv_path d, largest_plot_path d})"
proof -
  from assms obtain s0 raw hp p where
    c: "create_dir_if_not_exists d s = (Inr (), s0)" and r: "read_csv i s0 = (Inr raw, s0)" and
    pp: "preprocess raw = Inr hp" and sel: "iloc0_province (summary_table (argsort lib) (rows hp)) = Inr p" and
    w: "writable s0 (plot_path d)" "writable s0 (csv_path d)" "writable s0 (largest_plot_path d)" and
    s1: "s1 = s0\<lparr>files := (files s0)
             (plot_path d \<mapsto> Png (primary_chart hp) 2,
              csv_path d \<mapsto> CsvText (sd_to_csv (float_repr lib) (summary_table (argsort lib) (rows hp))),
              largest_plot_path d \<mapsto> Png (secondary_chart p hp) 2)\<rparr>"
    unfolding main_Inr_iff by blast
  have "d \<in> dirs s1"
    using w(1) by (simp add: s1 writable_def)
  then have c1: "create_dir_if_not_exists d s1 = (Inr (), s1)"
    by (simp add: create_dir_if_not_exists_def path_exists_def)
  show ?thesis
  proof (cases "i \<in> {plot_path d, csv_path d, largest_plot_path d}")
    case True
    then have "read_csv i s1 = (Inl (UnicodeDecodeError i), s1) \<or>
               (read_csv i s1 = (Inr \<lparr>columns = [''Province'', ''Std''], rows = []\<rparr>, s1))"
      by (auto simp: read_csv_files s1 read_summary_csv read_png)
    then have "main lib i d s1 = (Inl (UnicodeDecodeError i), s1) \<or>
               main lib i d s1 = (Inl (UndefinedVariableError ''DATE''), s1)"
      by (elim disjE) (simp_all add: main_def c1 query_june_summary_header)
    with True show ?thesis by auto
  next
    case False
    from r obtain c0 where "files s0 i = Some c0" "parse_artifact i c0 = Inr raw"
      by (auto simp: read_csv_Inr)
    with False have r1: "read_csv i s1 = (Inr raw, s1)"
      by (simp add: read_csv_files s1)
    have w1: "writable s1 (plot_path d) \<and> writable s1 (csv_path d) \<and> writable s1 (largest_plot_path d)"
      using w by (simp add: s1)
    have "s1\<lparr>files := (files s1)
             (plot_path d \<mapsto> Png (primary_chart hp) 2,
              csv_path d \<mapsto> CsvText (sd_to_csv (float_repr lib) (summary_table (argsort lib) (rows hp))),
              largest_plot_path d \<mapsto> Png (secondary_chart p hp) 2)\<rparr> = s1"
      by (simp add: s1 fun_upd_twist)
    then have "main lib i d s1 = (Inr (), s1)"
      using c1 r1 pp sel w1 unfolding main_Inr_iff [where u = "()"] by metis
    with False show ?thesis by simp
  qed
qed

subsection \<open>Runs that stop early\<close>

text \<open>
  C20: a missing input file stops the script at \<^verbatim>\<open>read_csv\<close> with
  \<^verbatim>\<open>FileNotFoundError\<close>, after the output directory has been created: the outputs
  of an earlier run stay as they were, and nothing is cleaned up.
\<close>

theorem main_missing_input:
  assumes "fs_wf s" and "\<not> under_file s d" and "d \<notin> dom (files s)"
    and "files s i = None" and "\<not> under_file s i" and "i \<notin> dirs s \<union> nonempty_prefixes d"
  shows "main lib i d s = (Inl (FileNotFoundError i), s\<lparr>dirs := dirs s \<union> nonempty_prefixes d\<rparr>)"
proof -
  let ?s0 = "s\<lparr>dirs := dirs s \<union> nonempty_prefixes d\<rparr>"
  have "read_csv i ?s0 = (Inl (FileNotFoundError i), ?s0)"
    using assms(4-6) by (simp add: read_csv_def read_file_def)
  then show ?thesis
    using create_dir_new [OF assms(1-3)] by (simp add: main_def)
qed

text \<open>
  C21: when the query keeps no row, the script saves the faceted chart of the empty
  table and writes a summary holding its header \<^verbatim>\<open>Province,Std\<close> alone (no maximum
  or minimum, whatever the comment at line 48 says), then stops with
  \<^verbatim>\<open>IndexError\<close> at \<^verbatim>\<open>iloc[0]\<close>, without the third output.
\<close>

theorem main_empty_table:
  assumes "fs_wf s" and "\<not> under_file s d" and "d \<notin> dom (files s)"
    and "files s i = Some (InputTable fr)" and "preprocess fr = Inr hp" and "rows hp = []"
    and "is_sort_impl (argsort lib)" and "plot_path d \<notin> dirs s" and "csv_path d \<notin> dirs s"
  shows "main lib i d s =
           (Inl IndexError,
            s\<lparr>dirs := dirs s \<union> nonempty_prefixes d,
              files := (files s)(plot_path d \<mapsto> Png (primary_chart hp) 2,
                                 csv_path d \<mapsto> CsvText (csv_line [''Province'', ''Std'']))\<rparr>)"
proof -
  let ?s0 = "s\<lparr>dirs := dirs s \<union> nonempty_prefixes d\<rparr>"
  have c: "create_dir_if_not_exists d s = (Inr (), ?s0)"
    using create_dir_new [OF assms(1-3)] .
  have r: "read_csv i ?s0 = (Inr fr, ?s0)"
    using assms(4) by (simp add: read_csv_files parse_artifact_def)
  have w: "writable ?s0 (plot_path d)" "writable ?s0 (csv_path d)"
    using writable_after_create [OF assms(1-3)] assms(8,9) by (simp_all add: plot_path_def csv_path_def)
  have t: "summary_table (argsort lib) (rows hp) = []"
    using summary_table_Nil_iff [OF assms(7), of "[]"] assms(6) by simp
  show ?thesis
    using w by (simp add: main_def bind_prog_apply c r assms(5) t write_file_writable
        sd_to_csv_def iloc0_province_def del: fun_upd_apply)
qed

subsection \<open>What every run keeps\<close>

text \<open>
  C19: every run, successful or not, touches no file but its three outputs and adds no
  directory but the output directory and those above it; it removes none.
\<close>

theorem main_frame:
  assumes "main lib i d s = (r, s')"
  shows "dirs s \<subseteq> dirs s' \<and> dirs s' \<subseteq> dirs s \<union> nonempty_prefixes d \<and>
         (\<forall>q. q \<notin> {plot_path d, csv_path d, largest_plot_path d} \<longrightarrow> files s' q = files s q)"
proof -
  let ?O = "{plot_path d, csv_path d, largest_plot_path d}"
  let ?P = "\<lambda>t. dirs s \<subseteq> dirs t \<and> dirs t \<subseteq> dirs s \<union> nonempty_prefixes d \<and>
                (\<forall>q. q \<notin> ?O \<longrightarrow> files t q = files s q)"
  have "preserves ?P (main lib i d)"
    unfolding main_def Let_def
    by (intro preserves_bind preserves_lift_sum create_dir_preserves_frame read_csv_preserves
        write_file_preserves_frame) simp_all
  moreover have "?P s" by simp
  ultimately show ?thesis
    using assms by (rule preservesD)
qed

subsection \<open>The scenario of the specification\<close>

lemma demo_fs_wf: "fs_wf demo_fs"
  by (simp add: fs_wf_def demo_fs_def demo_input_def)

lemma spec_example_preprocess:
  "preprocess spec_example = Inr \<lparr>columns = columns spec_example, rows = summary_example\<rparr>"
  by (simp add: preprocess_def query_june_def scale_values_def replace_pei_def ref_date_to_str_def
      loader_eval summary_example_def)

lemma demo_select:
  "iloc0_province (summary_table sort_key summary_example) = Inr ''Ontario''"
  by (simp add: summary_example_table iloc0_province_def)

lemma demo_create:
  "create_dir_if_not_exists demo_out demo_fs =
     (Inr (), demo_fs\<lparr>dirs := {[], [''data''], [''results''], [''results'', ''figs'']}\<rparr>)"
proof -
  have "create_dir_if_not_exists demo_out demo_fs =
          (Inr (), demo_fs\<lparr>dirs := dirs demo_fs \<union> nonempty_prefixes demo_out\<rparr>)"
    by (rule create_dir_new [OF demo_fs_wf])
      (simp_all add: demo_fs_def demo_out_def demo_input_def under_file_def ancestors_def)
  moreover have "dirs demo_fs \<union> nonempty_prefixes demo_out = {[], [''data''], [''results''], [''results'', ''figs'']}"
    by (auto simp: demo_fs_def demo_out_def nonempty_prefixes_def upt_rec)
  ultimately show ?thesis by simp
qed

lemma demo_run: "main (demo_lib fmt) demo_input demo_out demo_fs = (Inr (), demo_after fmt)"
proof -
  let ?s0 = "demo_fs\<lparr>dirs := {[], [''data''], [''results''], [''results'', ''figs'']}\<rparr>"
  have r: "read_csv demo_input ?s0 = (Inr spec_example, ?s0)"
    by (simp add: read_csv_files demo_fs_def parse_artifact_def)
  have w: "writable ?s0 (plot_path demo_out)" "writable ?s0 (csv_path demo_out)"
    "writable ?s0 (largest_plot_path demo_out)"
    by (simp_all add: writable_def under_file_def ancestors_def demo_fs_def demo_out_def demo_input_def
        plot_path_def csv_path_def largest_plot_path_def)
  have e: "demo_after fmt =
     ?s0\<lparr>files := (files ?s0)
       (plot_path demo_out \<mapsto> Png (primary_chart \<lparr>columns = columns spec_example, rows = summary_example\<rparr>) 2,
        csv_path demo_out \<mapsto> CsvText (sd_to_csv fmt (summary_table sort_key summary_example)),
        largest_plot_path demo_out \<mapsto>
          Png (secondary_chart ''Ontario'' \<lparr>columns = columns spec_example, rows = summary_example\<rparr>) 2)\<rparr>"
    by (simp add: demo_after_def demo_fs_def)
  show ?thesis
    unfolding main_Inr_iff e
    using demo_create r spec_example_preprocess demo_select w
    by (simp add: demo_lib_def)
qed

lemma demo_outputs:
  "demo_input \<notin> {plot_path demo_out, csv_path demo_out, largest_plot_path demo_out}"
  by (simp add: demo_input_def demo_out_def plot_path_def csv_path_def largest_plot_path_def)

subsection \<open>Witnesses\<close>

theorem main_success_witness:
  "\<forall>fmt. main (demo_lib fmt) demo_input demo_out demo_fs = (Inr (), demo_after fmt) \<and>
     (\<exists>fr hp p. read_csv demo_input demo_fs = (Inr fr, demo_fs) \<and> preprocess fr = Inr hp \<and>
        iloc0_province (summary_table (argsort (demo_lib fmt)) (rows hp)) = Inr p \<and>
        demo_out \<in> dirs (demo_after fmt))"
proof
  fix fmt
  show "main (demo_lib fmt) demo_input demo_out demo_fs = (Inr (), demo_after fmt) \<and>
     (\<exists>fr hp p. read_csv demo_input demo_fs = (Inr fr, demo_fs) \<and> preprocess fr = Inr hp \<and>
        iloc0_province (summary_table (argsort (demo_lib fmt)) (rows hp)) = Inr p \<and>
        demo_out \<in> dirs (demo_after fmt))"
    using demo_run main_success [OF demo_run [of fmt]] by blast
qed

theorem main_completes_witness:
  "\<forall>fmt. fs_wf demo_fs \<and> \<not> under_file demo_fs demo_out \<and> demo_out \<notin> dom (files demo_fs) \<and>
     files demo_fs demo_input = Some (InputTable spec_example) \<and>
     preprocess spec_example = Inr \<lparr>columns = columns spec_example, rows = summary_example\<rparr> \<and>
     summary_example \<noteq> [] \<and> is_sort_impl (argsort (demo_lib fmt)) \<and>
     plot_path demo_out \<notin> dirs demo_fs \<and> csv_path demo_out \<notin> dirs demo_fs \<and>
     largest_plot_path demo_out \<notin> dirs demo_fs \<and>
     (\<exists>p. iloc0_province (summary_table (argsort (demo_lib fmt)) summary_example) = Inr p \<and>
        main (demo_lib fmt) demo_input demo_out demo_fs = (Inr (), demo_after fmt))"
proof
  fix fmt
  have h: "\<not> under_file demo_fs demo_out" "demo_out \<notin> dom (files demo_fs)"
    "files demo_fs demo_input = Some (InputTable spec_example)" "summary_example \<noteq> []"
    "is_sort_impl (argsort (demo_lib fmt))"
    "plot_path demo_out \<notin> dirs demo_fs" "csv_path demo_out \<notin> dirs demo_fs"
    "largest_plot_path demo_out \<notin> dirs demo_fs"
    by (simp_all add: demo_fs_def demo_out_def demo_input_def under_file_def ancestors_def
        summary_example_def demo_lib_def sort_key_is_sort_impl plot_path_def csv_path_def largest_plot_path_def)
  have "rows \<lparr>columns = columns spec_example, rows = summary_example\<rparr> \<noteq> []"
    using h(4) by simp
  from main_completes [OF demo_fs_wf h(1-3) spec_example_preprocess this h(5-8)]
  show "fs_wf demo_fs \<and> \<not> under_file demo_fs demo_out \<and> demo_out \<notin> dom (files demo_fs) \<and>
     files demo_fs demo_input = Some (InputTable spec_example) \<and>
     preprocess spec_example = Inr \<lparr>columns = columns spec_example, rows = summary_example\<rparr> \<and>
     summary_example \<noteq> [] \<and> is_sort_impl (argsort (demo_lib fmt)) \<and>
     plot_path demo_out \<notin> dirs demo_fs \<and> csv_path demo_out \<notin> dirs demo_fs \<and>
     largest_plot_path demo_out \<notin> dirs demo_fs \<and>
     (\<exists>p. iloc0_province (summary_table (argsort (demo_lib fmt)) summary_example) = Inr p \<and>
        main (demo_lib fmt) demo_input demo_out demo_fs = (Inr (), demo_after fmt))"
    using demo_fs_wf h spec_example_preprocess demo_run [of fmt] by auto
qed

theorem main_rerun_witness:
  "\<forall>fmt. main (demo_lib fmt) demo_input demo_out demo_fs = (Inr (), demo_after fmt) \<and>
     main (demo_lib fmt) demo_input demo_out (demo_after fmt) = (Inr (), demo_after fmt)"
proof
  fix fmt
  have "snd (main (demo_lib fmt) demo_input demo_out (demo_after fmt)) = demo_after fmt \<and>
        (fst (main (demo_lib fmt) demo_input demo_out (demo_after fmt)) = Inr () \<longleftrightarrow>
         demo_input \<notin> {plot_path demo_out, csv_path demo_out, largest_plot_path demo_out})"
    by (rule main_rerun [OF demo_run])
  with demo_outputs demo_run [of fmt]
  show "main (demo_lib fmt) demo_input demo_out demo_fs = (Inr (), demo_after fmt) \<and>
     main (demo_lib fmt) demo_input demo_out (demo_after fmt) = (Inr (), demo_after fmt)"
    by (metis prod.collapse)
qed

theorem main_missing_input_witness:
  "fs_wf demo_fs \<and> \<not> under_file demo_fs demo_out \<and> demo_out \<notin> dom (files demo_fs) \<and>
   files demo_fs [''data'', ''missing.csv''] = None \<and> \<not> under_file demo_fs [''data'', ''missing.csv''] \<and>
   [''data'', ''missing.csv''] \<notin> dirs demo_fs \<union> nonempty_prefixes demo_out \<and>
   (\<forall>lib. main lib [''data'', ''missing.csv''] demo_out demo_fs =
      (Inl (FileNotFoundError [''data'', ''missing.csv'']),
       demo_fs\<lparr>dirs := dirs demo_fs \<union> nonempty_prefixes demo_out\<rparr>))"
proof -
  have h: "\<not> under_file demo_fs demo_out" "demo_out \<notin> dom (files demo_fs)"
    "files demo_fs [''data'', ''missing.csv''] = None" "\<not> under_file demo_fs [''data'', ''missing.csv'']"
    "[''data'', ''missing.csv''] \<notin> dirs demo_fs \<union> nonempty_prefixes demo_out"
    by (simp_all add: demo_fs_def demo_out_def demo_input_def under_file_def ancestors_def
        nonempty_prefixes_def upt_rec)
  show ?thesis
    using demo_fs_wf h main_missing_input [OF demo_fs_wf h] by blast
qed

lemma canada_only_fs_wf: "fs_wf canada_only_fs"
  by (simp add: fs_wf_def canada_only_fs_def demo_input_def)

lemma canada_only_preprocess:
  "preprocess (spec_example\<lparr>rows := [rows spec_example ! 2]\<rparr>) =
     Inr \<lparr>columns = columns spec_example, rows = []\<rparr>"
  by (simp add: preprocess_def query_june_def scale_values_def replace_pei_def ref_date_to_str_def
      loader_eval)

theorem main_empty_table_witness:
  "\<forall>fmt. fs_wf canada_only_fs \<and> \<not> under_file canada_only_fs demo_out \<and>
     demo_out \<notin> dom (files canada_only_fs) \<and>
     files canada_only_fs demo_input = Some (InputTable (spec_example\<lparr>rows := [rows spec_example ! 2]\<rparr>)) \<and>
     preprocess (spec_example\<lparr>rows := [rows spec_example ! 2]\<rparr>) =
       Inr \<lparr>columns = columns spec_example, rows = []\<rparr> \<and>
     is_sort_impl (argsort (demo_lib fmt)) \<and>
     plot_path demo_out \<notin> dirs canada_only_fs \<and> csv_path demo_out \<notin> dirs canada_only_fs \<and>
     fst (main (demo_lib fmt) demo_input demo_out canada_only_fs) = Inl IndexError"
proof
  fix fmt
  have h: "\<not> under_file canada_only_fs demo_out" "demo_out \<notin> dom (files canada_only_fs)"
    "files canada_only_fs demo_input = Some (InputTable (spec_example\<lparr>rows := [rows spec_example ! 2]\<rparr>))"
    "is_sort_impl (argsort (demo_lib fmt))"
    "plot_path demo_out \<notin> dirs canada_only_fs" "csv_path demo_out \<notin> dirs canada_only_fs"
    by (simp_all add: canada_only_fs_def demo_out_def demo_input_def under_file_def ancestors_def
        demo_lib_def sort_key_is_sort_impl plot_path_def csv_path_def)
  have e: "rows \<lparr>columns = columns spec_example, rows = []\<rparr> = ([] :: string obs list)"
    by simp
  note m = main_empty_table [OF canada_only_fs_wf h(1-3) canada_only_preprocess e h(4-6)]
  show "fs_wf canada_only_fs \<and> \<not> under_file canada_only_fs demo_out \<and>
     demo_out \<notin> dom (files canada_only_fs) \<and>
     files canada_only_fs demo_input = Some (InputTable (spec_example\<lparr>rows := [rows spec_example ! 2]\<rparr>)) \<and>
     preprocess (spec_example\<lparr>rows := [rows spec_example ! 2]\<rparr>) =
       Inr \<lparr>columns = columns spec_example, rows = []\<rparr> \<and>
     is_sort_impl (argsort (demo_lib fmt)) \<and>
     plot_path demo_out \<notin> dirs canada_only_fs \<and> csv_path demo_out \<notin> dirs canada_only_fs \<and>
     fst (main (demo_lib fmt) demo_input demo_out canada_only_fs) = Inl IndexError"
    using canada_only_fs_wf h canada_only_preprocess m by simp
qed

theorem main_frame_witness:
  "\<forall>fmt. main (demo_lib fmt) demo_input demo_out demo_fs = (Inr (), demo_after fmt) \<and>
     dirs (demo_after fmt) \<subseteq> dirs demo_fs \<union> nonempty_prefixes demo_out \<and>
     files (demo_after fmt) demo_input = files demo_fs demo_input"
  using demo_run main_frame [OF demo_run] demo_outputs by blast

end
