(* ===== verification/Execution.thy ===== *)
theory Execution
  imports Pipeline
begin

text \<open>
  The script of \<^verbatim>\<open>generate_figures.py\<close> statement by statement: a configuration is the
  statement the interpreter has reached (\<open>stage\<close>, carrying the values the later
  statements read) and the file system, and \<open>script_step\<close> is one statement of
  \<^verbatim>\<open>main\<close> (lines 25, 28, 29--32, 45, 49--50, 54 and 64), with one rule for its normal
  end and one for an exception. The theory shows that this machine and the composed
  program \<open>main\<close> of \<open>Pipeline\<close> agree, that it is deterministic, that every run stops
  after at most seven statements, and that the file system stays well formed in every
  reachable configuration.
\<close>

section \<open>Configurations and steps\<close>

datatype stage =
    Start
  | DirReady
  | Loaded "int frame"
  | Prepped "string frame"
  | PlotSaved "string frame"
  | CsvSaved "string frame"
  | Selected "string frame" string
  | Finished
  | Raised py_error

type_synonym config = "stage \<times> artifact fs"

inductive script_step :: "libs \<Rightarrow> path \<Rightarrow> path \<Rightarrow> config \<Rightarrow> config \<Rightarrow> bool" where
  ensure_ok: "create_dir_if_not_exists d s = (Inr (), s') \<Longrightarrow>
    script_step lib i d (Start, s) (DirReady, s')"
| ensure_err: "create_dir_if_not_exists d s = (Inl e, s') \<Longrightarrow>
    script_step lib i d (Start, s) (Raised e, s')"
| read_ok: "read_csv i s = (Inr raw, s') \<Longrightarrow>
    script_step lib i d (DirReady, s) (Loaded raw, s')"
| read_err: "read_csv i s = (Inl e, s') \<Longrightarrow>
    script_step lib i d (DirReady, s) (Raised e, s')"
| prep_ok: "preprocess raw = Inr hp \<Longrightarrow>
    script_step lib i d (Loaded raw, s) (Prepped hp, s)"
| prep_err: "preprocess raw = Inl e \<Longrightarrow>
    script_step lib i d (Loaded raw, s) (Raised e, s)"
| plot_ok: "write_file (plot_path d) (Png (primary_chart hp) 2) s = (Inr (), s') \<Longrightarrow>
    script_step lib i d (Prepped hp, s) (PlotSaved hp, s')"
| plot_err: "write_file (plot_path d) (Png (primary_chart hp) 2) s = (Inl e, s') \<Longrightarrow>
    script_step lib i d (Prepped hp, s) (Raised e, s')"
| csv_ok: "write_file (csv_path d)
      (CsvText (sd_to_csv (float_repr lib) (summary_table (argsort lib) (rows hp)))) s = (Inr (), s') \<Longrightarrow>
    script_step lib i d (PlotSaved hp, s) (CsvSaved hp, s')"
| csv_err: "write_file (csv_path d)
      (CsvText (sd_to_csv (float_repr lib) (summary_table (argsort lib) (rows hp)))) s = (Inl e, s') \<Longrightarrow>
    script_step lib i d (PlotSaved hp, s) (Raised e, s')"
| select_ok: "iloc0_province (summary_table (argsort lib) (rows hp)) = Inr p \<Longrightarrow>
    script_step lib i d (CsvSaved hp, s) (Selected hp p, s)"
| select_err: "iloc0_province (summary_table (argsort lib) (rows hp)) = Inl e \<Longrightarrow>
    script_step lib i d (CsvSaved hp, s) (Raised e, s)"
| save_ok: "write_file (largest_plot_path d) (Png (secondary_chart p hp) 2) s = (Inr (), s') \<Longrightarrow>
    script_step lib i d (Selected hp p, s) (Finished, s')"
| save_err: "write_file (largest_plot_path d) (Png (secondary_chart p hp) 2) s = (Inl e, s') \<Longrightarrow>
    script_step lib i d (Selected hp p, s) (Raised e, s')"

text \<open>The step relation is executable: its successors can be enumerated.\<close>

code_pred script_step .

text \<open>A run has ended when the script returned or raised.\<close>

fun final :: "stage \<Rightarrow> bool" where
  "final Finished = True"
| "final (Raised _) = True"
| "final _ = False"

text \<open>The outcome of a run that has ended.\<close>

fun outcome :: "stage \<Rightarrow> py_error + unit" where
  "outcome (Raised e) = Inl e"
| "outcome _ = Inr ()"

text \<open>How many statements at most are left from a stage.\<close>

fun stages_left :: "stage \<Rightarrow> nat" where
  "stages_left Start = 7"
| "stages_left DirReady = 6"
| "stages_left (Loaded _) = 5"
| "stages_left (Prepped _) = 4"
| "stages_left (PlotSaved _) = 3"
| "stages_left (CsvSaved _) = 2"
| "stages_left (Selected _ _) = 1"
| "stages_left Finished = 0"
| "stages_left (Raised _) = 0"

text \<open>
  What remains of \<^verbatim>\<open>main\<close> from a stage, as a program: the tail of the composition in
  \<open>Pipeline.main\<close> after the statements already run.
\<close>

function (sequential) remaining :: "libs \<Rightarrow> path \<Rightarrow> path \<Rightarrow> stage \<Rightarrow> (artifact fs, unit) prog" where
  "remaining lib i d (Selected hp p) =
     write_file (largest_plot_path d) (Png (secondary_chart p hp) 2)"
| "remaining lib i d (CsvSaved hp) =
     bind_prog (lift_sum (iloc0_province (summary_table (argsort lib) (rows hp))))
       (\<lambda>p. remaining lib i d (Selected hp p))"
| "remaining lib i d (PlotSaved hp) =
     bind_prog (write_file (csv_path d)
                  (CsvText (sd_to_csv (float_repr lib) (summary_table (argsort lib) (rows hp)))))
       (\<lambda>_. remaining lib i d (CsvSaved hp))"
| "remaining lib i d (Prepped hp) =
     bind_prog (write_file (plot_path d) (Png (primary_chart hp) 2)) (\<lambda>_. remaining lib i d (PlotSaved hp))"
| "remaining lib i d (Loaded raw) =
     bind_prog (lift_sum (preprocess raw)) (\<lambda>hp. remaining lib i d (Prepped hp))"
| "remaining lib i d DirReady =
     bind_prog (read_csv i) (\<lambda>raw. remaining lib i d (Loaded raw))"
| "remaining lib i d Start =
     bind_prog (create_dir_if_not_exists d) (\<lambda>_. remaining lib i d DirReady)"
| "remaining lib i d Finished = ret ()"
| "remaining lib i d (Raised e) = raise e"
  by pat_completeness auto
termination
  by (relation "measure (\<lambda>(_, _, _, st). stages_left st)") auto

text \<open>
  The files after the first two saves (lines 45 and 50), from the files \<open>F\<close> the run
  started with.
\<close>

definition after_plot :: "path \<Rightarrow> string frame \<Rightarrow> (path \<rightharpoonup> artifact) \<Rightarrow> (path \<rightharpoonup> artifact)" where
  "after_plot d hp F = F(plot_path d \<mapsto> Png (primary_chart hp) 2)"

definition after_csv :: "libs \<Rightarrow> path \<Rightarrow> string frame \<Rightarrow> (path \<rightharpoonup> artifact) \<Rightarrow> (path \<rightharpoonup> artifact)" where
  "after_csv lib d hp F =
     (after_plot d hp F)(csv_path d \<mapsto> CsvText (sd_to_csv (float_repr lib) (summary_table (argsort lib) (rows hp))))"

text \<open>
  The files of a configuration against the stage it has reached: none of the outputs
  before the first save, then the outputs of the saves passed, in the code's order; a
  run that raised has written a prefix of them.
\<close>

fun written :: "libs \<Rightarrow> path \<Rightarrow> (path \<rightharpoonup> artifact) \<Rightarrow> config \<Rightarrow> bool" where
  "written lib d F (PlotSaved hp, s) = (files s = after_plot d hp F)"
| "written lib d F (CsvSaved hp, s) = (files s = after_csv lib d hp F)"
| "written lib d F (Selected hp p, s) = (files s = after_csv lib d hp F)"
| "written lib d F (Finished, s) =
     (\<exists>hp p. files s = (after_csv lib d hp F)(largest_plot_path d \<mapsto> Png (secondary_chart p hp) 2))"
| "written lib d F (Raised e, s) =
     (files s = F \<or> (\<exists>hp. files s = after_plot d hp F) \<or> (\<exists>hp. files s = after_csv lib d hp F))"
| "written lib d F (_, s) = (files s = F)"

inductive_cases step_StartE: "script_step lib i d (Start, s) c"
inductive_cases step_FinishedE [elim!]: "script_step lib i d (Finished, s) c"
inductive_cases step_RaisedE [elim!]: "script_step lib i d (Raised e, s) c"

section \<open>Properties of single steps\<close>

lemma remaining_Start: "remaining lib i d Start = main lib i d"
  by (simp add: main_def Let_def)

text \<open>A step runs one statement: what remains after it is what remained before it.\<close>

lemma step_remaining:
  "script_step lib i d (st, s) (st', s') \<Longrightarrow> remaining lib i d st s = remaining lib i d st' s'"
  by (induction "(st, s)" "(st', s')" arbitrary: st s st' s' rule: script_step.induct) simp_all

lemma steps_remaining:
  "(script_step lib i d)\<^sup>*\<^sup>* c c' \<Longrightarrow> remaining lib i d (fst c) (snd c) = remaining lib i d (fst c') (snd c')"
proof (induction rule: rtranclp_induct)
  case base
  then show ?case by simp
next
  case (step c1 c2)
  then show ?case
    using step_remaining [of lib i d "fst c1" "snd c1" "fst c2" "snd c2"] by simp
qed

lemma final_remaining: "final st \<Longrightarrow> remaining lib i d st s = (outcome st, s)"
  by (cases st) simp_all

lemma step_stages_left:
  "script_step lib i d c c' \<Longrightarrow> stages_left (fst c') < stages_left (fst c)"
  by (induction rule: script_step.induct) simp_all

lemma final_no_step: "final st \<Longrightarrow> \<not> script_step lib i d (st, s) c"
  by (cases st) auto

text \<open>Every stage but the final ones has a next statement, whatever that statement does.\<close>

lemma prog_cases:
  obtains a s' where "m s = (Inr a, s')" | e s' where "m s = (Inl e, s')"
  by (cases "m s" rule: prod.exhaust) (metis sum.exhaust)

lemma step_progress: "\<not> final st \<Longrightarrow> \<exists>c. script_step lib i d (st, s) c"
proof (cases st)
  case Start
  then show ?thesis
    by (cases rule: prog_cases [of "create_dir_if_not_exists d" s]) (auto intro: script_step.intros)
next
  case DirReady
  then show ?thesis
    by (cases rule: prog_cases [of "read_csv i" s]) (auto intro: script_step.intros)
next
  case (Loaded raw)
  then show ?thesis
    by (cases "preprocess raw") (auto intro: script_step.intros)
next
  case (Prepped hp)
  then show ?thesis
    by (cases rule: prog_cases [of "write_file (plot_path d) (Png (primary_chart hp) 2)" s])
      (auto intro: script_step.intros)
next
  case (PlotSaved hp)
  then show ?thesis
    by (cases rule: prog_cases [of "write_file (csv_path d)
          (CsvText (sd_to_csv (float_repr lib) (summary_table (argsort lib) (rows hp))))" s])
      (auto intro: script_step.intros)
next
  case (CsvSaved hp)
  then show ?thesis
    by (cases "iloc0_province (summary_table (argsort lib) (rows hp))") (auto intro: script_step.intros)
next
  case (Selected hp p)
  then show ?thesis
    by (cases rule: prog_cases [of "write_file (largest_plot_path d) (Png (secondary_chart p hp) 2)" s])
      (auto intro: script_step.intros)
qed simp_all

lemma reaches_final: "\<exists>c'. (script_step lib i d)\<^sup>*\<^sup>* (st, s) c' \<and> final (fst c')"
proof (induction "stages_left st" arbitrary: st s rule: less_induct)
  case less
  show ?case
  proof (cases "final st")
    case True
    then show ?thesis by auto
  next
    case False
    then obtain st1 s1 where st1: "script_step lib i d (st, s) (st1, s1)"
      using step_progress by fastforce
    then have "stages_left st1 < stages_left st"
      using step_stages_left by fastforce
    with less obtain c' where "(script_step lib i d)\<^sup>*\<^sup>* (st1, s1) c'" "final (fst c')"
      by blast
    with st1 show ?thesis
      by (blast intro: converse_rtranclp_into_rtranclp)
  qed
qed

text \<open>Each statement keeps the record of the outputs written so far.\<close>

lemma step_written:
  "script_step lib i d c c' \<Longrightarrow> written lib d F c \<Longrightarrow> written lib d F c'"
proof (induction rule: script_step.induct)
  case (ensure_ok d s s' lib i)
  then show ?case using create_dir_frame [of d s "Inr ()" s'] by simp
next
  case (ensure_err d s e s' lib i)
  then show ?case using create_dir_frame [of d s "Inl e" s'] by simp
next
  case (read_ok i s raw s' lib d)
  then show ?case using read_csv_state [of i s "Inr raw" s'] by simp
next
  case (read_err i s e s' lib d)
  then show ?case using read_csv_state [of i s "Inl e" s'] by simp
next
  case (plot_ok d hp s s' lib i)
  then show ?case by (auto simp: write_file_Inr_iff after_plot_def)
next
  case (plot_err d hp s e s' lib i)
  then show ?case by (auto dest: write_file_Inl)
next
  case (csv_ok d lib hp s s' i)
  then show ?case by (auto simp: write_file_Inr_iff after_csv_def)
next
  case (csv_err d lib hp s e s' i)
  then show ?case by (auto dest: write_file_Inl)
next
  case (save_ok d p hp s s' lib i)
  then show ?case by (auto simp: write_file_Inr_iff)
next
  case (save_err d p hp s e s' lib i)
  then show ?case by (auto dest: write_file_Inl)
qed auto

lemma steps_written:
  assumes "(script_step lib i d)\<^sup>*\<^sup>* (Start, s) c"
  shows "written lib d (files s) c"
  using assms
proof (induction rule: rtranclp_induct)
  case base
  then show ?case by simp
next
  case (step c1 c2)
  from step.hyps(2) step.IH show ?case by (rule step_written)
qed

text \<open>A run of \<^verbatim>\<open>main\<close> is a run of the machine to a final stage.\<close>

lemma main_run_steps:
  assumes "main lib i d s = (r, s')"
  shows "\<exists>st. (script_step lib i d)\<^sup>*\<^sup>* (Start, s) (st, s') \<and> final st \<and> outcome st = r"
proof -
  obtain c' where run: "(script_step lib i d)\<^sup>*\<^sup>* (Start, s) c'" and f: "final (fst c')"
    using reaches_final by blast
  have "main lib i d s = remaining lib i d (fst (Start, s)) (snd (Start, s))"
    by (simp only: fst_conv snd_conv remaining_Start)
  also have "\<dots> = remaining lib i d (fst c') (snd c')"
    by (rule steps_remaining [OF run])
  also have "\<dots> = (outcome (fst c'), snd c')"
    by (rule final_remaining [OF f])
  finally have "main lib i d s = (outcome (fst c'), snd c')" .
  with assms run f show ?thesis
    by (metis prod.collapse prod.inject)
qed

section \<open>Properties of runs\<close>

text \<open>
  The interpreter's next statement is determined: from a configuration there is
  at most one step.
\<close>

theorem script_step_deterministic:
  assumes "script_step lib i d c c1" and "script_step lib i d c c2"
  shows "c1 = c2"
  using assms by (induction rule: script_step.induct) (auto elim: script_step.cases)

text \<open>
  C13: a run that raises has written a prefix of the three outputs, in the order of the
  code: nothing, or the faceted chart alone, or the faceted chart and the summary CSV;
  never the chart of the selected province, and never the CSV without the faceted
  chart. No other file is changed.
\<close>

theorem main_raised_outputs:
  assumes "main lib i d s = (Inl e, s')"
  shows "files s' = files s \<or>
         (\<exists>hp. files s' = (files s)(plot_path d \<mapsto> Png (primary_chart hp) 2)) \<or>
         (\<exists>hp. files s' = (files s)(plot_path d \<mapsto> Png (primary_chart hp) 2,
                  csv_path d \<mapsto> CsvText (sd_to_csv (float_repr lib) (summary_table (argsort lib) (rows hp)))))"
proof -
  obtain st where run: "(script_step lib i d)\<^sup>*\<^sup>* (Start, s) (st, s')" and "final st" "outcome st = Inl e"
    using main_run_steps [OF assms] by blast
  then have "st = Raised e"
    by (cases st) simp_all
  with steps_written [OF run] show ?thesis
    by (simp add: after_csv_def after_plot_def)
qed

subsection \<open>Witnesses\<close>

lemma demo_first_step:
  "script_step (demo_lib fmt) demo_input demo_out (Start, demo_fs)
     (DirReady, demo_fs\<lparr>dirs := {[], [''data''], [''results''], [''results'', ''figs'']}\<rparr>)"
  by (rule ensure_ok) (rule demo_create)

lemma demo_first_step_unique:
  "\<forall>fmt. script_step (demo_lib fmt) demo_input demo_out (Start, demo_fs)
          (DirReady, demo_fs\<lparr>dirs := {[], [''data''], [''results''], [''results'', ''figs'']}\<rparr>) \<and>
        (\<forall>c. script_step (demo_lib fmt) demo_input demo_out (Start, demo_fs) c \<longrightarrow>
             c = (DirReady, demo_fs\<lparr>dirs := {[], [''data''], [''results''], [''results'', ''figs'']}\<rparr>))"
  using demo_first_step script_step_deterministic [OF _ demo_first_step] by blast

lemma demo_missing_run:
  "main lib [''data'', ''missing.csv''] demo_out demo_fs =
     (Inl (FileNotFoundError [''data'', ''missing.csv'']),
      demo_fs\<lparr>dirs := {[], [''data''], [''results''], [''results'', ''figs'']}\<rparr>)"
proof -
  let ?s0 = "demo_fs\<lparr>dirs := {[], [''data''], [''results''], [''results'', ''figs'']}\<rparr>"
  have "read_csv [''data'', ''missing.csv''] ?s0 = (Inl (FileNotFoundError [''data'', ''missing.csv'']), ?s0)"
    by (simp add: read_csv_def read_file_def demo_fs_def demo_input_def under_file_def ancestors_def)
  then show ?thesis
    using demo_create by (simp add: main_def)
qed

theorem main_raised_outputs_witness:
  "\<forall>lib. main lib [''data'', ''missing.csv''] demo_out demo_fs =
          (Inl (FileNotFoundError [''data'', ''missing.csv'']),
           demo_fs\<lparr>dirs := {[], [''data''], [''results''], [''results'', ''figs'']}\<rparr>) \<and>
        files (demo_fs\<lparr>dirs := {[], [''data''], [''results''], [''results'', ''figs'']}\<rparr>) = files demo_fs"
  using demo_missing_run main_raised_outputs [OF demo_missing_run] by simp

end
