(* ===== verification/Spec2Isabelle.thy ===== *)
theory Spec2Isabelle
  imports Execution
begin

text \<open>
  \<^bold>\<open>A verification model of \<^verbatim>\<open>src/source/generate_figures.py\<close>.\<close>

  The program is one Python script (68 lines). Click reads two required options
  (lines 21--23); \<^verbatim>\<open>main\<close> (lines 24--64) then runs five steps in a line, sharing
  only the file system and the filtered table: it ensures the output directory
  (\<^verbatim>\<open>create_dir_if_not_exists\<close>, lines 16--18, with \<^verbatim>\<open>os.makedirs\<close>); reads the
  input with pandas and pre-processes it (lines 28--32: query on the date label and
  the national row, renaming of Prince Edward Island, values times 1000 as int64,
  years as text); saves a line chart faceted by province (lines 35--45); builds the
  summary of the sample standard deviation per province, sorted descending, and writes
  it as CSV (lines 49--50); and saves the chart of the summary's first province (lines
  54--64). Each statement that raises ends the script, keeping what was written.

  \<^bold>\<open>Theories.\<close>
  \<^item> \<open>Prelude\<close>: the exceptions (\<open>py_error\<close>), paths as component lists, and the
    exception-state programs \<open>('s, 'a) prog\<close> with \<open>ret\<close>, \<open>raise\<close>, \<open>bind_prog\<close>,
    \<open>lift_sum\<close>, the invariant combinator \<open>preserves\<close> and \<open>raises_only\<close>.
  \<^item> \<open>Loader\<close> (lines 28--32): cells as \<open>num\<close> (\<open>Int64\<close> of a \<open>64 word\<close>, \<open>Float64\<close>,
    \<open>Missing\<close>), rows as the record \<open>obs\<close>, tables as \<open>frame\<close>; \<open>query_june\<close>,
    \<open>replace_pei\<close>, \<open>scale_values\<close>/\<open>scale_num\<close>, \<open>ref_date_to_str\<close>/\<open>py_str_int\<close>,
    composed as \<open>preprocess\<close>, each raising what pandas raises when a column is absent.
  \<^item> \<open>Summary\<close> (line 49): \<open>group_keys\<close> (sorted group keys), pandas' Welford loop
    \<open>group_var_loop\<close>/\<open>welford_step\<close>/\<open>var_result\<close>, \<open>group_std\<close>, and
    \<open>sort_values(ascending=False)\<close> as pandas' \<open>nargsort_desc\<close> over a sort
    \<open>srt\<close> that numpy supplies (\<open>is_sort_impl\<close>), giving \<open>summary_table\<close>. Reference
    definitions \<open>sample_var\<close>, \<open>sample_std\<close>, \<open>desc_nan_last\<close> state what it computes.
  \<^item> \<open>Charts\<close> (lines 35--45, 54--64): the Altair specifications \<open>primary_chart\<close> and
    \<open>secondary_chart\<close>, the panels a specification shows (\<open>chart_panels\<close>), and
    \<open>iloc0_province\<close>.
  \<^item> \<open>FileSystem\<close> (lines 16--18): directories and files (\<open>fs\<close>), POSIX \<open>mkdir\<close>,
    \<open>makedirs\<close> as CPython writes it (recursion on the parent, a \<open>function\<close> with a
    length measure), \<open>create_dir_if_not_exists\<close>, \<open>write_file\<close>, \<open>read_file\<close>, and the
    well-formedness \<open>fs_wf\<close>.
  \<^item> \<open>CsvOutput\<close> (line 50): \<open>sd_to_csv\<close>, the text \<^verbatim>\<open>to_csv\<close> writes with minimal
    quoting, and a reader \<open>csv_read\<close> (a scanner with four states).
  \<^item> \<open>Pipeline\<close> (lines 21--68): files as \<open>artifact\<close>s, \<open>read_csv\<close>, the output paths,
    \<open>main\<close> composed with \<open>bind_prog\<close> in the source's order, click's \<open>cli\<close> and
    \<open>exit_status\<close>.
  \<^item> \<open>Execution\<close> (lines 24--64 again): the same script as a machine, one
    statement per step: configurations \<open>stage \<times> artifact fs\<close>, the inductive step
    relation \<open>script_step\<close> with a rule for the normal end and one for the exception
    of each statement (executable by \<^theory_text>\<open>code_pred\<close>), and \<open>remaining\<close>, the
    program left to run from a stage.
  \<^item> This theory: properties that span the loader, the summary, the charts and the
    CSV file.

  \<^bold>\<open>What is shown\<close> (claim ids C1, C2, ... in the order of importance).
  \<^item> The whole script: what a successful run read and wrote, that nothing else
    changed, and when a run succeeds; that a rerun leaves the file system as it was
    (the specification's idempotence of \<^verbatim>\<open>horses_sd.csv\<close>); that the CSV file of a
    successful run is the specification's summary of the input it read; the partial
    outputs of runs that stop at a missing input or an empty table, and that a run
    that raises has written a prefix of the three outputs in the code's order; that
    the largest-deviation chart shows a province of largest sample standard
    deviation; the frame of every run: no file but the three outputs and no directory
    but the output directory and those above it changes.
  \<^item> Every run of the composed program is a run of the machine to a final stage,
    and every step keeps the record \<open>written\<close> of the outputs saved so far against the
    stage reached (rule induction over the reflexive-transitive closure of
    \<open>script_step\<close>); together they give the order of the partial outputs.
  \<^item> The loader keeps exactly the June rows of the provinces and transforms each;
    its errors are the missing columns, in the order the statements read them; scaling
    is exact below \<open>2^63 / 1000\<close> and above it is off by a non-zero multiple of
    \<open>2^64\<close> (numpy's wrap-around); \<^verbatim>\<open>Value\<close> keeps its dtype and
    \<^verbatim>\<open>Ref_Date\<close> becomes text of digits that reads back as the year.
  \<^item> The Welford loop computes the two-pass sample variance; the summary has one row
    per province, sorted descending with NaN last, each with the sample standard
    deviation or NaN below two values, which is 1000 times the deviation of the
    file's values when no cell overflows; the renaming merges the two spellings of
    Prince Edward Island into one row whose deviation pools both; \<open>iloc[0]\<close> picks a province of largest
    deviation, and with a stable sort the alphabetically first among ties; the faceted
    chart has one non-empty panel per row of the summary, and the second chart is the
    panel of the selected province.
  \<^item> The ensurer creates exactly the missing prefixes, fails only on a file in the
    way and is idempotent; the CSV text reads back as the summary, under the header
    \<^verbatim>\<open>Province,Std\<close> (the comment at line 48 also announces a maximum and a minimum,
    which the code does not compute).

  \<^bold>\<open>Parameters and choices.\<close> numpy's \<open>argsort\<close> is a parameter constrained only by
  being a sort, so the properties hold for whichever algorithm numpy uses; the tie
  claim uses the stable \<open>sort_key\<close>. The float formatter of \<^verbatim>\<open>to_csv\<close> is a parameter
  \<open>fmt\<close>. Values are int64 as in the example data; float columns are modelled as
  \<open>Float64\<close> of a real, without rounding, and the statistics are computed in exact
  real arithmetic: two deviations are tied, or one is the largest, as reals, where the
  program compares the float64 values it rounded. No loop needs fuel: every recursion is
  structural or has a measure (\<open>makedirs\<close> the length of the path, \<open>remaining\<close> the
  number of statements left), and the step relation's runs are bounded by seven steps.

  \<^bold>\<open>Not modelled.\<close> Rendering a specification to PNG pixels (Altair, vl-convert) is
  library code: an image is recorded as the specification and scale factor it
  renders. The text parser and dtype inference of \<^verbatim>\<open>pd.read_csv\<close> are pandas code
  the script only calls: an input file is represented by the typed table it parses to
  (\<open>InputTable\<close>), and a file the script itself wrote is read by its header.
  Permissions, symbolic links, other processes and disk errors are not modelled.
\<close>

lemma primary_chart_panels:
  "chart_panels (primary_chart hp) =
     map (\<lambda>v. (v, filter (\<lambda>r. GEO r = v) (rows hp))) (group_keys (rows hp))"
proof -
  have "text_field ''GEO'' = GEO"
    by (simp add: fun_eq_iff text_field_def)
  then show ?thesis
    by (simp add: primary_chart_def group_keys_def)
qed

lemma sort_Province_summary_table:
  "is_sort_impl srt \<Longrightarrow> sort (map Province (summary_table srt rs)) = group_keys rs"
  using mset_Province_summary_table [of srt rs] sorted_group_keys [of rs] by (metis properties_for_sort)

lemma distinct_Province_summary_table:
  "is_sort_impl srt \<Longrightarrow> distinct (map Province (summary_table srt rs))"
  using mset_Province_summary_table [of srt rs] distinct_group_keys [of rs]
  by (metis mset_eq_imp_distinct_iff)

text \<open>
  C4: the file \<^verbatim>\<open>horses_sd.csv\<close> a successful run writes is the summary the
  specification asks for, computed from the table the script read: it reads back as the
  header and one line per province of the filtered table, each province once (its
  P.E.I. name after the renaming), in non-increasing order of \<open>Std\<close> with the missing
  ones last, each with the text of the sample standard deviation of that province's
  rescaled values. The header is \<^verbatim>\<open>Province,Std\<close>: the comment at line 48 announces
  the maximum and minimum as well, but line 49 computes the standard deviation only.
\<close>

theorem main_csv_summary:
  assumes "is_sort_impl (argsort lib)" and "main lib i d s = (Inr (), s')"
  shows "\<exists>fr t (tbl :: sd_row list). read_csv i s = (Inr fr, s) \<and> files s' (csv_path d) = Some (CsvText t) \<and>
           csv_read t = Some ([''Province'', ''Std''] # map (\<lambda>r. [Province r, std_text (float_repr lib) (Std r)]) tbl) \<and>
           distinct (map Province tbl) \<and>
           set (map Province tbl) = rename_pei ` GEO ` set (filter query_keep (rows fr)) \<and>
           sorted_wrt (desc_nan_last Std) tbl \<and>
           (\<forall>r \<in> set tbl. Std r = sample_std (group_values (map prep_row (filter query_keep (rows fr))) (Province r)))"
proof -
  from main_Inr_outputs [OF assms(2)] obtain fr hp p where
    r: "read_csv i s = (Inr fr, s)" and pp: "preprocess fr = Inr hp" and
    f: "files s' (csv_path d) = Some (CsvText (sd_to_csv (float_repr lib) (summary_table (argsort lib) (rows hp))))"
    by blast
  let ?tbl = "summary_table (argsort lib) (rows hp)"
  have rs: "rows hp = map prep_row (filter query_keep (rows fr))"
    using preprocess_InrD [OF pp] by simp
  have "csv_read (sd_to_csv (float_repr lib) ?tbl) =
          Some ([''Province'', ''Std''] # map (\<lambda>r. [Province r, std_text (float_repr lib) (Std r)]) ?tbl)"
    unfolding sd_to_csv_lines by (rule csv_read_lines) auto
  moreover have "set (map Province ?tbl) = rename_pei ` GEO ` set (filter query_keep (rows fr))"
    using set_Province_summary_table [OF assms(1), of "rows hp"] by (simp add: rs image_image)
  moreover have "sorted_wrt (desc_nan_last Std) ?tbl"
    unfolding summary_table_def by (rule sorted_nargsort_desc [OF assms(1)])
  moreover have "\<forall>r \<in> set ?tbl. Std r = sample_std (group_values (map prep_row (filter query_keep (rows fr))) (Province r))"
    using group_std_Std [of _ "rows hp"] by (simp add: set_summary_table [OF assms(1)] flip: rs)
  moreover have "distinct (map Province ?tbl)"
    by (rule distinct_Province_summary_table [OF assms(1)])
  ultimately have "read_csv i s = (Inr fr, s) \<and>
      files s' (csv_path d) = Some (CsvText (sd_to_csv (float_repr lib) ?tbl)) \<and>
      csv_read (sd_to_csv (float_repr lib) ?tbl) =
        Some ([''Province'', ''Std''] # map (\<lambda>r. [Province r, std_text (float_repr lib) (Std r)]) ?tbl) \<and>
      distinct (map Province ?tbl) \<and>
      set (map Province ?tbl) = rename_pei ` GEO ` set (filter query_keep (rows fr)) \<and>
      sorted_wrt (desc_nan_last Std) ?tbl \<and>
      (\<forall>r \<in> set ?tbl. Std r = sample_std (group_values (map prep_row (filter query_keep (rows fr))) (Province r)))"
    using r f by (intro conjI) assumption+
  then show ?thesis
    by blast
qed

text \<open>
  C5: the \<^verbatim>\<open>Std\<close> of each province in the summary is 1000 times the sample
  standard deviation of the values of that province in the file (in thousands, with
  P.E.I. under its short name), provided no kept cell overflows int64 in the rescaling
  of line 31: the specification's "exactly 1000 times" carried to the statistics.
\<close>

theorem summary_std_scaled:
  assumes "is_sort_impl srt" and "preprocess fr = Inr hp"
    and "\<forall>x \<in> set (filter query_keep (rows fr)). \<forall>w. Value x = Int64 w \<longrightarrow> \<bar>sint w\<bar> \<le> 9223372036854775"
    and "r \<in> set (summary_table srt (rows hp))"
  shows "Std r = map_option ((*) 1000)
           (sample_std (group_values (map (\<lambda>x. x\<lparr>GEO := rename_pei (GEO x)\<rparr>) (filter query_keep (rows fr)))
              (Province r)))"
proof -
  have rs: "rows hp = map prep_row (filter query_keep (rows fr))"
    using preprocess_InrD [OF assms(2)] by simp
  have "Std r = sample_std (group_values (rows hp) (Province r))"
    using assms(4) by (simp add: set_summary_table [OF assms(1)] group_std_Std)
  also have "\<dots> = sample_std (map ((*) 1000)
      (group_values (map (\<lambda>x. x\<lparr>GEO := rename_pei (GEO x)\<rparr>) (filter query_keep (rows fr))) (Province r)))"
    using group_values_prep_row [OF assms(3)] by (simp add: rs)
  finally show ?thesis
    by (simp add: sample_std_scale)
qed

text \<open>
  C14: the file \<^verbatim>\<open>horse_pops_plot_largest_sd.png\<close> of a successful run is the chart of
  a province of the filtered table whose sample standard deviation is the largest:
  any province with a standard deviation has one no larger.
\<close>

theorem main_largest_chart:
  assumes "is_sort_impl (argsort lib)" and "main lib i d s = (Inr (), s')"
  shows "\<exists>fr hp p. read_csv i s = (Inr fr, s) \<and> preprocess fr = Inr hp \<and>
           files s' (largest_plot_path d) = Some (Png (secondary_chart p hp) 2) \<and>
           p \<in> GEO ` set (rows hp) \<and>
           (\<forall>q \<in> GEO ` set (rows hp). \<forall>y. sample_std (group_values (rows hp) q) = Some y \<longrightarrow>
              (\<exists>x. sample_std (group_values (rows hp) p) = Some x \<and> y \<le> x))"
proof -
  from main_Inr_outputs [OF assms(2)] obtain fr hp p where
    r: "read_csv i s = (Inr fr, s)" and pp: "preprocess fr = Inr hp" and
    sel: "iloc0_province (summary_table (argsort lib) (rows hp)) = Inr p" and
    f: "files s' (largest_plot_path d) = Some (Png (secondary_chart p hp) 2)"
    by blast
  from sel obtain h t where ht: "summary_table (argsort lib) (rows hp) = h # t" and hp: "Province h = p"
    by (auto simp: iloc0_province_def split: list.splits)
  have "h \<in> set (summary_table (argsort lib) (rows hp))"
    by (simp add: ht)
  then have hG: "h \<in> set (group_std (rows hp))"
    by (simp only: set_summary_table [OF assms(1)])
  have "Province h \<in> set (map Province (group_std (rows hp)))"
    using hG by simp
  then have "p \<in> set (group_keys (rows hp))"
    by (simp only: hp map_Province_group_std)
  then have "p \<in> GEO ` set (rows hp)"
    by (simp only: set_group_keys)
  moreover have "\<exists>x. sample_std (group_values (rows hp) p) = Some x \<and> y \<le> x"
    if qin: "q \<in> GEO ` set (rows hp)" and qy: "sample_std (group_values (rows hp) q) = Some y" for q y
  proof -
    obtain r where r: "r \<in> set (group_std (rows hp))" "Province r = q"
      using group_std_row [OF qin] by blast
    have "Std r = Some y"
      using group_std_Std [OF r(1)] r(2) qy by simp
    with hd_summary_table_max [OF assms(1) ht r(1)] obtain x where "Std h = Some x" "y \<le> x"
      by blast
    moreover have "Std h = sample_std (group_values (rows hp) p)"
      using group_std_Std [OF hG] hp by simp
    ultimately show ?thesis
      by auto
  qed
  ultimately show ?thesis
    using r pp f by blast
qed

text \<open>
  C28: the faceted chart has one panel per row of the summary table, in ascending
  order of the province's name, and each panel shows every row of the filtered table
  of its province and nothing else, so that no panel is empty.
\<close>

theorem primary_panels_summary:
  assumes "is_sort_impl srt"
  shows "map fst (chart_panels (primary_chart hp)) = sort (map Province (summary_table srt (rows hp))) \<and>
         (\<forall>(v, ds) \<in> set (chart_panels (primary_chart hp)).
            ds = filter (\<lambda>r. GEO r = v) (rows hp) \<and> ds \<noteq> [])"
proof -
  have "\<forall>v \<in> set (group_keys (rows hp)). filter (\<lambda>r. GEO r = v) (rows hp) \<noteq> []"
    by (auto simp: set_group_keys filter_empty_conv)
  then show ?thesis
    by (auto simp: primary_chart_panels sort_Province_summary_table [OF assms] comp_def)
qed

text \<open>
  C29: the chart of the province the script selects shows the rows of the very panel
  of that province in the faceted chart, and that panel is not empty.
\<close>

theorem secondary_is_panel:
  assumes "is_sort_impl srt" and "iloc0_province (summary_table srt (rows hp)) = Inr p"
  shows "\<exists>ds. chart_panels (secondary_chart p hp) = [(''Historical number of horses in '' @ p, ds)] \<and>
              (p, ds) \<in> set (chart_panels (primary_chart hp)) \<and> ds \<noteq> []"
proof -
  from assms(2) obtain r t where "summary_table srt (rows hp) = r # t" "Province r = p"
    by (auto simp: iloc0_province_def split: list.splits)
  then have "p \<in> Province ` set (summary_table srt (rows hp))"
    by force
  then have "p \<in> set (group_keys (rows hp))"
    by (simp add: set_Province_summary_table [OF assms(1)] set_group_keys)
  moreover have "filter (\<lambda>r. GEO r = p) (rows hp) \<noteq> []"
    using calculation by (auto simp: set_group_keys filter_empty_conv)
  ultimately show ?thesis
    by (auto simp: secondary_chart_def rows_of_province_def primary_chart_panels)
qed

theorem primary_panels_summary_witness:
  "is_sort_impl (sort_key :: sd_row sorter) \<and>
   map fst (chart_panels (primary_chart \<lparr>columns = [], rows = tie_example\<rparr>)) =
     [''Alberta'', ''Ontario'', ''P.E.I.'', ''Quebec'']"
proof -
  have "map fst (chart_panels (primary_chart \<lparr>columns = [], rows = tie_example\<rparr>)) =
          sort (map Province (summary_table sort_key tie_example))"
    using primary_panels_summary [OF sort_key_is_sort_impl, of "\<lparr>columns = [], rows = tie_example\<rparr>"]
    by simp
  also have "\<dots> = [''Alberta'', ''Ontario'', ''P.E.I.'', ''Quebec'']"
    by (simp add: tie_example_table)
  finally show ?thesis
    using sort_key_is_sort_impl by simp
qed

theorem secondary_is_panel_witness:
  "is_sort_impl (sort_key :: sd_row sorter) \<and>
   iloc0_province (summary_table sort_key tie_example) = Inr ''Alberta'' \<and>
   (\<exists>ds. chart_panels (secondary_chart ''Alberta'' \<lparr>columns = [], rows = tie_example\<rparr>) =
           [(''Historical number of horses in Alberta'', ds)] \<and>
         (''Alberta'', ds) \<in> set (chart_panels (primary_chart \<lparr>columns = [], rows = tie_example\<rparr>)) \<and> ds \<noteq> [])"
proof -
  have sel: "iloc0_province (summary_table sort_key (rows \<lparr>columns = [], rows = tie_example\<rparr>)) = Inr ''Alberta''"
    by (simp add: tie_example_table iloc0_province_def)
  show ?thesis
    using secondary_is_panel [OF sort_key_is_sort_impl sel] sort_key_is_sort_impl sel by simp
qed

theorem main_csv_summary_witness:
  "\<forall>fmt. is_sort_impl (argsort (demo_lib fmt)) \<and>
     main (demo_lib fmt) demo_input demo_out demo_fs = (Inr (), demo_after fmt) \<and>
     (\<exists>fr t (tbl :: sd_row list). read_csv demo_input demo_fs = (Inr fr, demo_fs) \<and>
        files (demo_after fmt) (csv_path demo_out) = Some (CsvText t) \<and>
        csv_read t = Some ([''Province'', ''Std''] # map (\<lambda>r. [Province r, std_text fmt (Std r)]) tbl))"
proof
  fix fmt
  have srt: "is_sort_impl (argsort (demo_lib fmt))"
    by (simp add: demo_lib_def sort_key_is_sort_impl)
  show "is_sort_impl (argsort (demo_lib fmt)) \<and>
     main (demo_lib fmt) demo_input demo_out demo_fs = (Inr (), demo_after fmt) \<and>
     (\<exists>fr t (tbl :: sd_row list). read_csv demo_input demo_fs = (Inr fr, demo_fs) \<and>
        files (demo_after fmt) (csv_path demo_out) = Some (CsvText t) \<and>
        csv_read t = Some ([''Province'', ''Std''] # map (\<lambda>r. [Province r, std_text fmt (Std r)]) tbl))"
    using srt demo_run [of fmt] main_csv_summary [OF srt demo_run [of fmt]] by (simp add: demo_lib_def) blast
qed

theorem summary_std_scaled_witness:
  "is_sort_impl (sort_key :: sd_row sorter) \<and>
   preprocess spec_example = Inr \<lparr>columns = columns spec_example, rows = summary_example\<rparr> \<and>
   \<lparr>Province = ''Ontario'', Std = Some (sqrt 2000000)\<rparr> \<in> set (summary_table sort_key summary_example) \<and>
   Some (sqrt 2000000) = map_option ((*) 1000) (sample_std [10, 12])"
proof -
  have pp: "preprocess spec_example = Inr \<lparr>columns = columns spec_example, rows = summary_example\<rparr>"
    by (rule spec_example_preprocess)
  have b: "\<forall>x \<in> set (filter query_keep (rows spec_example)). \<forall>w. Value x = Int64 w \<longrightarrow> \<bar>sint w\<bar> \<le> 9223372036854775"
    by (simp add: spec_example_def query_keep_def)
  have m: "\<lparr>Province = ''Ontario'', Std = Some (sqrt 2000000)\<rparr>
      \<in> set (summary_table sort_key (rows \<lparr>columns = columns spec_example, rows = summary_example\<rparr>))"
    by (simp add: summary_example_table)
  have g: "group_values (map (\<lambda>x. x\<lparr>GEO := rename_pei (GEO x)\<rparr>) (filter query_keep (rows spec_example))) ''Ontario'' = [10, 12]"
    by (simp add: spec_example_def query_keep_def rename_pei_def group_values_def List.map_filter_simps)
  show ?thesis
    using summary_std_scaled [OF sort_key_is_sort_impl pp b m] sort_key_is_sort_impl pp b m g by simp
qed

theorem main_largest_chart_witness:
  "\<forall>fmt. is_sort_impl (argsort (demo_lib fmt)) \<and>
     main (demo_lib fmt) demo_input demo_out demo_fs = (Inr (), demo_after fmt) \<and>
     (\<exists>fr hp p. read_csv demo_input demo_fs = (Inr fr, demo_fs) \<and> preprocess fr = Inr hp \<and>
        files (demo_after fmt) (largest_plot_path demo_out) = Some (Png (secondary_chart p hp) 2))"
proof
  fix fmt
  have srt: "is_sort_impl (argsort (demo_lib fmt))"
    by (simp add: demo_lib_def sort_key_is_sort_impl)
  show "is_sort_impl (argsort (demo_lib fmt)) \<and>
     main (demo_lib fmt) demo_input demo_out demo_fs = (Inr (), demo_after fmt) \<and>
     (\<exists>fr hp p. read_csv demo_input demo_fs = (Inr fr, demo_fs) \<and> preprocess fr = Inr hp \<and>
        files (demo_after fmt) (largest_plot_path demo_out) = Some (Png (secondary_chart p hp) 2))"
    using srt demo_run [of fmt] main_largest_chart [OF srt demo_run [of fmt]] by blast
qed

end
